(* ===== verification/Aegis_Prelude.thy ===== *)
theory Aegis_Prelude
  imports Main "HOL-Library.Word" "HOL-Library.AList" "HOL-Library.Multiset" "HOL-Library.Sublist"
begin

text \<open>
  The shared layer of the development.

  \<^item> Machine integers (\<open>u8\<close>, \<open>u16\<close>, \<open>u32\<close>, \<open>u64\<close>) and their names.
  \<^item> The outcome of a C++ call: it returns, it throws, it blocks for ever on a mutex its own
    thread holds, or the process image is gone (a successful \<open>execv\<close>, \<open>_exit\<close>).
  \<^item> A state-and-outcome monad with the predicate transformer \<open>wp\<close>, and the RAII lock
    \<open>std::lock_guard\<close> in it.
  \<^item> The parts of the C and C++ standard libraries the sources use on strings: decimal
    formatting and parsing, C strings, substring search, \<open>std::filesystem::path\<close>.
  \<^item> The interface of \<open>std::unordered_map\<close> as a locale, interpreted on association lists.
\<close>

named_theorems wp_simps \<open>weakest preconditions of the program constructs\<close>
named_theorems method_defs \<open>definitions of the methods of the classes\<close>
named_theorems trace_simps \<open>how the functions that read a trace act on its last event\<close>

type_synonym u8 = "8 word"
type_synonym u16 = "16 word"
type_synonym u32 = "32 word"
type_synonym u64 = "64 word"

section \<open>Outcomes and programs\<close>

datatype exn = FilesystemError | OutOfRange

datatype 'a outcome = Ret 'a | Throw exn | Deadlock | Gone

type_synonym ('s, 'a) prog = "'s \<Rightarrow> 'a outcome \<times> 's"

definition retM :: "'a \<Rightarrow> ('s, 'a) prog" where
  "retM x = (\<lambda>s. (Ret x, s))"

definition throwM :: "exn \<Rightarrow> ('s, 'a) prog" where
  "throwM e = (\<lambda>s. (Throw e, s))"

definition goneM :: "('s, 'a) prog" where
  "goneM = (\<lambda>s. (Gone, s))"

definition getM :: "('s \<Rightarrow> 'a) \<Rightarrow> ('s, 'a) prog" where
  "getM f = (\<lambda>s. (Ret (f s), s))"

definition modM :: "('s \<Rightarrow> 's) \<Rightarrow> ('s, unit) prog" where
  "modM f = (\<lambda>s. (Ret (), f s))"

definition bindM :: "('s, 'a) prog \<Rightarrow> ('a \<Rightarrow> ('s, 'b) prog) \<Rightarrow> ('s, 'b) prog" where
  "bindM m f = (\<lambda>s. case m s of
     (Ret x, s') \<Rightarrow> f x s'
   | (Throw e, s') \<Rightarrow> (Throw e, s')
   | (Deadlock, s') \<Rightarrow> (Deadlock, s')
   | (Gone, s') \<Rightarrow> (Gone, s'))"

definition seqM :: "('s, 'a) prog \<Rightarrow> ('s, 'b) prog \<Rightarrow> ('s, 'b) prog" where
  "seqM m n = bindM m (\<lambda>_. n)"

text \<open>A range-based \<open>for\<close> loop without early exit.\<close>

primrec forM :: "'a list \<Rightarrow> ('a \<Rightarrow> ('s, 'b) prog) \<Rightarrow> ('s, unit) prog" where
  "forM [] f = retM ()"
| "forM (x # xs) f = bindM (f x) (\<lambda>_. forM xs f)"

definition wp :: "('s, 'a) prog \<Rightarrow> ('a outcome \<Rightarrow> 's \<Rightarrow> bool) \<Rightarrow> 's \<Rightarrow> bool" where
  "wp m Q s = (case m s of (r, s') \<Rightarrow> Q r s')"

lemma wpI: "(\<And>r s'. m s = (r, s') \<Longrightarrow> Q r s') \<Longrightarrow> wp m Q s"
  by (cases "m s") (simp add: wp_def)

lemma wpD: "wp m Q s \<Longrightarrow> m s = (r, s') \<Longrightarrow> Q r s'"
  by (simp add: wp_def)

lemma wp_mono: "wp m P s \<Longrightarrow> (\<And>r s'. P r s' \<Longrightarrow> Q r s') \<Longrightarrow> wp m Q s"
  by (auto simp: wp_def split: prod.splits)

lemma wp_conj: "wp m (\<lambda>r s'. P r s' \<and> Q r s') s \<longleftrightarrow> wp m P s \<and> wp m Q s"
  by (auto simp: wp_def split: prod.splits)

lemma wp_returns:
  "wp m (\<lambda>r (a, b). \<exists>x. r = Ret x \<and> P x a b) s \<Longrightarrow> \<exists>x a b. m s = (Ret x, (a, b)) \<and> P x a b"
  by (cases "m s") (auto simp: wp_def)

lemma wp_retM [wp_simps]: "wp (retM x) Q s = Q (Ret x) s"
  by (simp add: wp_def retM_def)

lemma wp_throwM [wp_simps]: "wp (throwM e) Q s = Q (Throw e) s"
  by (simp add: wp_def throwM_def)

lemma wp_goneM [wp_simps]: "wp goneM Q s = Q Gone s"
  by (simp add: wp_def goneM_def)

lemma wp_getM [wp_simps]: "wp (getM f) Q s = Q (Ret (f s)) s"
  by (simp add: wp_def getM_def)

lemma wp_modM [wp_simps]: "wp (modM f) Q s = Q (Ret ()) (f s)"
  by (simp add: wp_def modM_def)

lemma wp_bindM [wp_simps]:
  "wp (bindM m f) Q s = wp m (\<lambda>r s'. case r of
      Ret x \<Rightarrow> wp (f x) Q s' | Throw e \<Rightarrow> Q (Throw e) s'
    | Deadlock \<Rightarrow> Q Deadlock s' | Gone \<Rightarrow> Q Gone s') s"
  by (auto simp: wp_def bindM_def split: prod.splits outcome.splits)

lemma wp_seqM [wp_simps]:
  "wp (seqM m n) Q s = wp m (\<lambda>r s'. case r of
      Ret x \<Rightarrow> wp n Q s' | Throw e \<Rightarrow> Q (Throw e) s'
    | Deadlock \<Rightarrow> Q Deadlock s' | Gone \<Rightarrow> Q Gone s') s"
  by (simp add: seqM_def wp_bindM)

lemma wp_if [wp_simps]:
  "wp (if b then m else n) Q s = (if b then wp m Q s else wp n Q s)"
  by simp

lemma wp_case_option [wp_simps]:
  "wp (case x of None \<Rightarrow> m | Some y \<Rightarrow> n y) Q s =
    (case x of None \<Rightarrow> wp m Q s | Some y \<Rightarrow> wp (n y) Q s)"
  by (simp split: option.split)

lemma forM_rule:
  assumes "I s"
    and "\<And>x s. x \<in> set xs \<Longrightarrow> I s \<Longrightarrow> wp (f x) (\<lambda>r s'. (\<exists>y. r = Ret y) \<and> I s') s"
  shows "wp (forM xs f) (\<lambda>r s'. r = Ret () \<and> I s') s"
  using assms
proof (induction xs arbitrary: s)
  case Nil
  then show ?case by (simp add: wp_simps)
next
  case (Cons x xs)
  obtain y s' where fx: "f x s = (Ret y, s')" and "I s'"
    using Cons.prems by (cases "f x s") (fastforce simp: wp_def)
  then have "wp (forM xs f) (\<lambda>r s'. r = Ret () \<and> I s') s'"
    using Cons by simp
  with fx show ?case by (simp add: wp_def bindM_def)
qed

section \<open>The RAII lock\<close>

text \<open>
  \<open>std::lock_guard\<close> on a non-recursive \<open>std::mutex\<close>. The flag says whether the calling
  thread holds the mutex already: then the call never returns. The guard's destructor releases
  the mutex when the body returns or throws. Calls from different threads exclude each other,
  so a sequence of guarded calls is the order in which they took the mutex.
\<close>

definition lock_guard ::
    "('s \<Rightarrow> bool) \<Rightarrow> (bool \<Rightarrow> 's \<Rightarrow> 's) \<Rightarrow> ('s, 'a) prog \<Rightarrow> ('s, 'a) prog" where
  "lock_guard held set_held body = (\<lambda>s.
     if held s then (Deadlock, s)
     else case body (set_held True s) of
       (Ret x, s') \<Rightarrow> (Ret x, set_held False s')
     | (Throw e, s') \<Rightarrow> (Throw e, set_held False s')
     | (Deadlock, s') \<Rightarrow> (Deadlock, s')
     | (Gone, s') \<Rightarrow> (Gone, s'))"

lemma wp_lock_guard [wp_simps]:
  "wp (lock_guard held set_held body) Q s =
    (if held s then Q Deadlock s
     else wp body (\<lambda>r s'. case r of
         Ret x \<Rightarrow> Q (Ret x) (set_held False s') | Throw e \<Rightarrow> Q (Throw e) (set_held False s')
       | Deadlock \<Rightarrow> Q Deadlock s' | Gone \<Rightarrow> Q Gone s') (set_held True s))"
  by (auto simp: wp_def lock_guard_def split: prod.splits outcome.splits)

section \<open>Decimal formatting and parsing\<close>

definition digit_char :: "nat \<Rightarrow> char" where
  "digit_char d = char_of (48 + d)"

definition digit_val :: "char \<Rightarrow> nat" where
  "digit_val c = of_char c - 48"

definition is_digit :: "char \<Rightarrow> bool" where
  "is_digit c \<longleftrightarrow> 48 \<le> (of_char c :: nat) \<and> (of_char c :: nat) \<le> 57"

fun dec :: "nat \<Rightarrow> string" where
  "dec n = (if n < 10 then [digit_char n] else dec (n div 10) @ [digit_char (n mod 10)])"

declare dec.simps [simp del]

definition dec_val :: "string \<Rightarrow> nat" where
  "dec_val s = foldl (\<lambda>a c. 10 * a + digit_val c) 0 s"

definition dec_int :: "int \<Rightarrow> string" where
  "dec_int i = (if i < 0 then CHR ''-'' # dec (nat (- i)) else dec (nat i))"

lemma digit_val_char [simp]: "d < 10 \<Longrightarrow> digit_val (digit_char d) = d"
  by (simp add: digit_val_def digit_char_def of_char_of)

lemma is_digit_char [simp]: "d < 10 \<Longrightarrow> is_digit (digit_char d)"
  by (simp add: is_digit_def digit_char_def of_char_of)

lemma dec_val_snoc [simp]: "dec_val (s @ [c]) = 10 * dec_val s + digit_val c"
  by (simp add: dec_val_def)

lemma dec_val_dec [simp]: "dec_val (dec n) = n"
proof (induction n rule: dec.induct)
  case (1 n)
  show ?case
  proof (cases "n < 10")
    case True
    then show ?thesis by (simp add: dec.simps [of n] dec_val_def)
  next
    case False
    then have "dec n = dec (n div 10) @ [digit_char (n mod 10)]"
      by (simp add: dec.simps [of n])
    with "1" [OF False] show ?thesis by simp
  qed
qed

lemma dec_inj: "dec m = dec n \<longleftrightarrow> m = n"
  by (metis dec_val_dec)

lemma dec_digits: "c \<in> set (dec n) \<Longrightarrow> is_digit c"
proof (induction n rule: dec.induct)
  case (1 n)
  then show ?case
    by (cases "n < 10") (auto simp: dec.simps [of n])
qed

lemma dec_not_Nil [simp]: "dec n \<noteq> []"
  by (simp add: dec.simps [of n])

section \<open>C strings\<close>

text \<open>What a C function reads from a \<open>std::string\<close> through \<open>c_str()\<close>.\<close>

definition c_str :: "string \<Rightarrow> string" where
  "c_str s = takeWhile (\<lambda>c. c \<noteq> CHR 0x00) s"

text \<open>
  \<open>strncpy(dst, src, n)\<close> into a zero-initialised array longer than \<open>n\<close>: the C string the
  array then holds.
\<close>

definition strncpy :: "nat \<Rightarrow> string \<Rightarrow> string" where
  "strncpy n s = take n (c_str s)"

lemma takeWhile_neq: "c \<notin> set s \<Longrightarrow> takeWhile (\<lambda>x. x \<noteq> c) s = s"
  by (induction s) auto

lemma dropWhile_neq: "c \<notin> set s \<Longrightarrow> dropWhile (\<lambda>x. x \<noteq> c) (s @ c # r) = c # r"
  by (induction s) auto

lemma strncpy_id: "CHR 0x00 \<notin> set s \<Longrightarrow> length s \<le> n \<Longrightarrow> strncpy n s = s"
  by (simp add: strncpy_def c_str_def takeWhile_neq)

text \<open>\<open>std::string_view::find\<close> against \<open>npos\<close>.\<close>

fun contains_str :: "string \<Rightarrow> string \<Rightarrow> bool" where
  "contains_str sub [] \<longleftrightarrow> sub = []"
| "contains_str sub (c # s) \<longleftrightarrow> prefix sub (c # s) \<or> contains_str sub s"

lemma contains_str_sublist: "contains_str sub s \<longleftrightarrow> sublist sub s"
  by (induction s) (auto simp: sublist_Cons_right)

section \<open>Paths\<close>

text \<open>
  \<open>std::filesystem::path\<close> on a POSIX system: the native string, with \<open>operator/\<close>,
  \<open>parent_path\<close>, \<open>filename\<close> and \<open>stem\<close>. An absolute right operand of \<open>operator/\<close>
  replaces the left one.
\<close>

type_synonym path = string

definition is_absolute :: "path \<Rightarrow> bool" where
  "is_absolute p \<longleftrightarrow> p \<noteq> [] \<and> hd p = CHR ''/''"

definition has_filename :: "path \<Rightarrow> bool" where
  "has_filename p \<longleftrightarrow> p \<noteq> [] \<and> last p \<noteq> CHR ''/''"

definition path_append :: "path \<Rightarrow> path \<Rightarrow> path" where
  "path_append p q =
     (if is_absolute q then q
      else if has_filename p then p @ CHR ''/'' # q
      else p @ q)"

definition path_filename :: "path \<Rightarrow> path" where
  "path_filename p = rev (takeWhile (\<lambda>c. c \<noteq> CHR ''/'') (rev p))"

definition parent_path :: "path \<Rightarrow> path" where
  "parent_path p =
     (if CHR ''/'' \<notin> set p then []
      else let d = rev (dropWhile (\<lambda>c. c = CHR ''/'') (dropWhile (\<lambda>c. c \<noteq> CHR ''/'') (rev p)))
           in if d = [] then ''/'' else d)"

definition path_stem :: "path \<Rightarrow> path" where
  "path_stem p =
     (let f = path_filename p;
          b = rev (tl (dropWhile (\<lambda>c. c \<noteq> CHR ''.'') (rev f)))
      in if f = ''.'' \<or> f = ''..'' \<or> CHR ''.'' \<notin> set f \<or> b = [] then f else b)"

text \<open>An identifier that names one directory entry: what a caller has to pass for the
  directory of a sandbox to lie directly below the base directory.\<close>

definition plain_name :: "string \<Rightarrow> bool" where
  "plain_name s \<longleftrightarrow> s \<noteq> [] \<and> CHR ''/'' \<notin> set s \<and> s \<noteq> ''.'' \<and> s \<noteq> ''..''"

lemma path_append_plain:
  "plain_name q \<Longrightarrow> has_filename p \<Longrightarrow> path_append p q = p @ CHR ''/'' # q"
  by (cases q) (auto simp: path_append_def plain_name_def is_absolute_def)

lemma path_append_absolute: "is_absolute q \<Longrightarrow> path_append p q = q"
  by (simp add: path_append_def)

lemma path_append_inj:
  "\<lbrakk>plain_name a; plain_name b; has_filename p\<rbrakk> \<Longrightarrow>
    path_append p a = path_append p b \<longleftrightarrow> a = b"
  by (simp add: path_append_plain)

lemma parent_path_append:
  assumes "plain_name q" and "has_filename p"
  shows "parent_path (path_append p q) = p"
proof -
  obtain x r where rp: "rev p = x # r" and "x \<noteq> CHR ''/''"
    using assms(2) by (cases p rule: rev_cases) (simp_all add: has_filename_def)
  have "CHR ''/'' \<notin> set (rev q)"
    using assms(1) by (simp add: plain_name_def)
  then have "dropWhile (\<lambda>c. c \<noteq> CHR ''/'') (rev (p @ CHR ''/'' # q)) = CHR ''/'' # x # r"
    using dropWhile_neq [of "CHR ''/''" "rev q" "rev p"] rp by simp
  moreover have "rev (x # r) = p" using rp by (simp add: rev_swap)
  moreover have "p \<noteq> []" using assms(2) by (simp add: has_filename_def)
  ultimately show ?thesis
    using \<open>x \<noteq> CHR ''/''\<close> by (simp add: path_append_plain [OF assms] parent_path_def Let_def)
qed

section \<open>Unordered maps\<close>

text \<open>
  The operations of \<open>std::unordered_map\<close> the classes use, and what the library promises of
  them. The classes keep their objects in such maps; their lemmas rest on these laws only.
\<close>

locale unordered_map =
  fixes empty :: "'m"
    and find :: "'m \<Rightarrow> 'k \<Rightarrow> 'v option"
    and insert_or_assign :: "'k \<Rightarrow> 'v \<Rightarrow> 'm \<Rightarrow> 'm"
    and erase :: "'k \<Rightarrow> 'm \<Rightarrow> 'm"
    and keys :: "'m \<Rightarrow> 'k list"
    and wf :: "'m \<Rightarrow> bool"
  assumes find_empty: "find empty k = None"
    and find_insert: "find (insert_or_assign k v m) k' = (if k' = k then Some v else find m k')"
    and find_erase: "wf m \<Longrightarrow> find (erase k m) k' = (if k' = k then None else find m k')"
    and keys_find: "k \<in> set (keys m) \<longleftrightarrow> find m k \<noteq> None"
    and wf_distinct: "wf m \<Longrightarrow> distinct (keys m)"
    and wf_empty: "wf empty"
    and wf_insert: "wf m \<Longrightarrow> wf (insert_or_assign k v m)"
    and wf_erase: "wf m \<Longrightarrow> wf (erase k m)"
begin

lemma find_insert_same: "find (insert_or_assign k v m) k = Some v"
  by (simp add: find_insert)

lemma find_insert_other: "k' \<noteq> k \<Longrightarrow> find (insert_or_assign k v m) k' = find m k'"
  by (simp add: find_insert)

lemma set_keys_insert: "set (keys (insert_or_assign k v m)) = insert k (set (keys m))"
  by (auto simp: keys_find find_insert split: if_splits)

lemma set_keys_erase: "wf m \<Longrightarrow> set (keys (erase k m)) = set (keys m) - {k}"
  by (auto simp: keys_find find_erase split: if_splits)

lemma erase_insert_find:
  "wf m \<Longrightarrow> find m k = None \<Longrightarrow> find (erase k (insert_or_assign k v m)) k' = find m k'"
  by (simp add: find_erase find_insert wf_insert)

end

definition um_keys :: "('k \<times> 'v) list \<Rightarrow> 'k list" where
  "um_keys m = map fst m"

definition um_wf :: "('k \<times> 'v) list \<Rightarrow> bool" where
  "um_wf m \<longleftrightarrow> distinct (map fst m)"

interpretation um: unordered_map "[]" map_of AList.update AList.delete um_keys um_wf
proof
  show "map_of [] k = None" for k by simp
  show "map_of (AList.update k v m) k' = (if k' = k then Some v else map_of m k')" for k v m k'
    by (simp add: update_conv')
  show "map_of (AList.delete k m) k' = (if k' = k then None else map_of m k')" for k m k'
    by (simp add: delete_conv')
  show "k \<in> set (um_keys m) \<longleftrightarrow> map_of m k \<noteq> None" for k m
    by (simp add: um_keys_def map_of_eq_None_iff)
  show "um_wf m \<Longrightarrow> distinct (um_keys m)" for m
    by (simp add: um_wf_def um_keys_def)
  show "um_wf []" by (simp add: um_wf_def)
  show "um_wf m \<Longrightarrow> um_wf (AList.update k v m)" for m k v
    by (simp add: um_wf_def distinct_update)
  show "um_wf m \<Longrightarrow> um_wf (AList.delete k m)" for m k
    by (simp add: um_wf_def distinct_delete)
qed

text \<open>Adding a new entry and removing an entry, seen as multisets.\<close>

lemma update_new: "map_of m k = None \<Longrightarrow> AList.update k v m = m @ [(k, v)]"
  by (induction m) (auto split: if_splits)

lemma delete_new: "map_of m k = None \<Longrightarrow> AList.delete k m = m"
  by (induction m) (auto simp: AList.delete_eq split: if_splits)

lemma mset_map_delete:
  "um_wf m \<Longrightarrow> map_of m k = Some v \<Longrightarrow>
    image_mset f (mset m) = add_mset (f (k, v)) (image_mset f (mset (AList.delete k m)))"
proof (induction m)
  case (Cons e m)
  obtain k' v' where e: "e = (k', v')" by (cases e)
  show ?case
  proof (cases "k' = k")
    case True
    then have "map_of m k = None" using Cons.prems e by (simp add: um_wf_def map_of_eq_None_iff)
    then show ?thesis using Cons.prems True e by (simp add: delete_new)
  next
    case False
    then show ?thesis using Cons e by (simp add: um_wf_def)
  qed
qed simp

lemma mset_map_keys:
  "um_wf m \<Longrightarrow> image_mset (\<lambda>k. f (k, the (map_of m k))) (mset (um_keys m)) = image_mset f (mset m)"
proof -
  assume wf: "um_wf m"
  have "map ((\<lambda>k. f (k, the (map_of m k))) \<circ> fst) m = map f m"
    using wf by (intro map_cong) (auto simp: um_wf_def)
  then have "mset (map ((\<lambda>k. f (k, the (map_of m k))) \<circ> fst) m) = mset (map f m)"
    by (rule arg_cong)
  then show ?thesis
    by (simp add: um_keys_def image_mset.compositionality)
qed

end
