(* ===== verification/Aegis_Core.thy ===== *)
theory Aegis_Core
  imports Aegis_Prelude
begin

text \<open>
  The master header \<open>include/aegis/aegis.hpp\<close>: status codes with their numeric values and
  texts, the exception base class, the enumerations of runtime environments and sandbox states,
  the metadata of a sandbox and the library version. The lemmas show that a caller can tell
  any two status codes apart by number and by text.
\<close>

datatype Status =
    Success
  | ErrMicroVMBootFailed
  | ErrSnapshotRestoreFailed
  | ErrEBPFProbeLoadFailed
  | ErrSyscallBlocked
  | ErrNetworkEgressBlocked
  | ErrAgentExecutionTimeout
  | ErrPolicyViolation
  | ErrCgroupQuotaExceeded
  | ErrInvalidSandboxID
  | ErrTAPInterfaceCreationFailed
  | ErrUnknown

text \<open>The underlying value of the enumerators, \<open>static_cast<uint32_t>(status)\<close>.\<close>

primrec status_code :: "Status \<Rightarrow> u32" where
  "status_code Success = 0"
| "status_code ErrMicroVMBootFailed = 1"
| "status_code ErrSnapshotRestoreFailed = 2"
| "status_code ErrEBPFProbeLoadFailed = 3"
| "status_code ErrSyscallBlocked = 4"
| "status_code ErrNetworkEgressBlocked = 5"
| "status_code ErrAgentExecutionTimeout = 6"
| "status_code ErrPolicyViolation = 7"
| "status_code ErrCgroupQuotaExceeded = 8"
| "status_code ErrInvalidSandboxID = 9"
| "status_code ErrTAPInterfaceCreationFailed = 10"
| "status_code ErrUnknown = 999"

text \<open>An enumerator not listed takes the \<open>default\<close> branch of the switch.\<close>

fun status_to_string :: "Status \<Rightarrow> string" where
  "status_to_string Success = ''Success''"
| "status_to_string ErrMicroVMBootFailed = ''Error: Firecracker MicroVM Boot Failed''"
| "status_to_string ErrSnapshotRestoreFailed = ''Error: MicroVM Memory Snapshot Restore Failed''"
| "status_to_string ErrEBPFProbeLoadFailed = ''Error: eBPF Kernel Probe Loading Failed''"
| "status_to_string ErrSyscallBlocked = ''Security Alert: Syscall Blocked by eBPF Policy''"
| "status_to_string ErrNetworkEgressBlocked =
     ''Security Alert: Network Egress Blocked by eBPF Policy''"
| "status_to_string ErrAgentExecutionTimeout = ''Error: Agent Execution Timeout Reached''"
| "status_to_string ErrPolicyViolation = ''Error: Security Policy Constraints Violated''"
| "status_to_string ErrCgroupQuotaExceeded = ''Error: Cgroups v2 Resource Quota Exceeded''"
| "status_to_string ErrInvalidSandboxID = ''Error: Invalid or Non-Existent Sandbox ID''"
| "status_to_string ErrTAPInterfaceCreationFailed =
     ''Error: TAP Network Interface Creation Failed''"
| "status_to_string _ = ''Error: Unknown Runtime Failure''"

text \<open>All enumerators, so that a statement about every status is decided by evaluation.\<close>

instantiation Status :: enum
begin

definition enum_Status :: "Status list" where
  "enum_Status = [Success, ErrMicroVMBootFailed, ErrSnapshotRestoreFailed, ErrEBPFProbeLoadFailed,
     ErrSyscallBlocked, ErrNetworkEgressBlocked, ErrAgentExecutionTimeout, ErrPolicyViolation,
     ErrCgroupQuotaExceeded, ErrInvalidSandboxID, ErrTAPInterfaceCreationFailed, ErrUnknown]"

definition enum_all_Status :: "(Status \<Rightarrow> bool) \<Rightarrow> bool" where
  "enum_all_Status P \<longleftrightarrow> list_all P enum_class.enum"

definition enum_ex_Status :: "(Status \<Rightarrow> bool) \<Rightarrow> bool" where
  "enum_ex_Status P \<longleftrightarrow> list_ex P enum_class.enum"

instance
proof
  show *: "(UNIV :: Status set) = set enum_class.enum"
  proof (intro set_eqI iffI UNIV_I)
    fix x :: Status
    show "x \<in> set enum_class.enum" by (cases x) (simp_all add: enum_Status_def)
  qed
  show "distinct (enum_class.enum :: Status list)" by (simp add: enum_Status_def)
  show "enum_class.enum_all P \<longleftrightarrow> Ball UNIV P" for P :: "Status \<Rightarrow> bool"
    unfolding * by (simp add: enum_all_Status_def list_all_iff)
  show "enum_class.enum_ex P \<longleftrightarrow> Bex UNIV P" for P :: "Status \<Rightarrow> bool"
    unfolding * by (simp add: enum_ex_Status_def list_ex_iff)
qed

end

text \<open>\<open>AegisException\<close>: the status and the formatted message.\<close>

record AegisException =
  ex_status :: Status
  ex_message :: string

definition make_AegisException :: "Status \<Rightarrow> string \<Rightarrow> AegisException" where
  "make_AegisException status message =
     \<lparr>ex_status = status,
      ex_message = ''[AEGIS-'' @ dec (unat (status_code status)) @ ''] '' @ message\<rparr>"

definition what :: "AegisException \<Rightarrow> string" where
  "what e = c_str (ex_message e)"

datatype RuntimeEnvironment = Unspecified | Python311 | Bash | NodeJS

datatype SandboxState =
  Initializing | Prewarmed | Running | Terminating | Terminated | Violated

text \<open>
  Times are clock readings in nanoseconds; \<open>boot_time_ms\<close> is kept as the difference of two
  readings, and the scaling to a \<open>double\<close> of milliseconds is not modelled.
\<close>

record SandboxMetadata =
  md_sandbox_id :: string
  md_environment :: RuntimeEnvironment
  md_state :: SandboxState
  md_vcpus :: u32
  md_memory_mb :: u32
  md_vram_mb :: u32
  md_boot_time :: int
  md_guest_ip :: string
  md_tap_device_name :: string
  md_created_at :: int

definition new_SandboxMetadata :: "int \<Rightarrow> SandboxMetadata" where
  "new_SandboxMetadata now =
     \<lparr>md_sandbox_id = [], md_environment = Unspecified, md_state = Initializing, md_vcpus = 1,
      md_memory_mb = 512, md_vram_mb = 0, md_boot_time = 0, md_guest_ip = [],
      md_tap_device_name = [], md_created_at = now\<rparr>"

record Version =
  major :: u32
  minor :: u32
  patch :: u32

definition get_version :: Version where
  "get_version = \<lparr>major = 0, minor = 1, patch = 0\<rparr>"

definition version_to_string :: "Version \<Rightarrow> string" where
  "version_to_string v =
     dec (unat (major v)) @ ''.'' @ dec (unat (minor v)) @ ''.'' @ dec (unat (patch v))"

lemma inj_status_code: "inj status_code"
proof (rule injI)
  fix x y
  assume "status_code x = status_code y"
  then show "x = y" by (cases x; cases y) simp_all
qed

lemma inj_status_to_string: "inj status_to_string"
proof (rule injI)
  fix x y
  assume "status_to_string x = status_to_string y"
  then show "x = y" by (cases x; cases y) simp_all
qed

lemma make_AegisException_status:
  "ex_status (make_AegisException st msg) = st"
  by (simp add: make_AegisException_def)

end
