(* ===== verification/System_Interface.thy ===== *)
theory System_Interface
  imports Aegis_Core
begin

text \<open>
  The boundary to the code that is not in the repository: the Linux system calls, the file
  system behind \<open>std::filesystem\<close> and the file streams, libbpf, and the order in which
  unordered containers are iterated. The environment \<open>env\<close> answers each call and may base
  the answer on the whole history of calls; nothing is assumed of it here. Every call appends an
  event with its arguments and its answer to the trace, so the theorems can speak of what the
  program asked for, in which order, and of what it did with the answers.

  A method of a class works on a pair of the object and the trace. The end of the theory holds
  the functions that read off a trace which descriptors, processes, BPF links and BPF objects the
  program has acquired and given back, and what it has written to BPF maps.
\<close>

section \<open>Events\<close>

text \<open>\<open>std::filesystem::exists\<close> without an error code throws on errors other than absence.\<close>

datatype fs_status = FsYes | FsNo | FsErr

text \<open>The bytes a BPF map key is read from: a \<open>uint64_t\<close> or a \<open>uint32_t\<close>.\<close>

datatype bpf_key = K64 u64 | K32 u32

datatype event =
    Exists path fs_status
  | CreateDirectories path bool
  | RemoveAll path
  | RemoveFile path bool
  | OfsOpen path bool
  | OfsPut path string bool
  | OfsClose path bool
  | IfsRead path "string option"
  | Open path int
  | Close int
  | Stat path "u64 option"
  | TunSetIff int string int
  | Fork int
  | Dup2 int int
  | Execv path "string list"
  | ExitProcess int
  | Kill int int
  | Waitpid int
  | Socket int
  | Connect int path int
  | WriteFd int string int
  | ReadFd int "string option"
  | Sleep nat
  | Clock int
  | ObjOpen path "nat option"
  | ObjLoad nat int
  | ObjClose nat
  | FindProgram nat string "nat option"
  | AttachTracepoint nat string string "nat option"
  | AttachCgroup nat int "nat option"
  | LinkDestroy nat
  | FindMap nat string "int option"
  | MapUpdate int bpf_key u8 int
  | RingNew int "nat option"
  | RingFree nat
  | RingPoll nat int int

type_synonym trace = "event list"

section \<open>The environment\<close>

text \<open>
  One answer function per call; the first argument is the trace so far. \<open>e_ofs_put\<close> is
  \<open>good()\<close> after the insertion into the stream's buffer, \<open>e_ofs_close\<close> whether the
  destructor could write the buffer to the file. \<open>e_iter_strings\<close> and \<open>e_iter_u32\<close> give
  the iteration order of an unordered container. \<open>e_ring_poll\<close> gives the result of
  \<open>ring_buffer__poll\<close> and the samples it hands to the callback.
\<close>

record env =
  e_exists :: "trace \<Rightarrow> path \<Rightarrow> fs_status"
  e_create_directories :: "trace \<Rightarrow> path \<Rightarrow> bool"
  e_remove :: "trace \<Rightarrow> path \<Rightarrow> bool"
  e_ofs_open :: "trace \<Rightarrow> path \<Rightarrow> bool"
  e_ofs_put :: "trace \<Rightarrow> path \<Rightarrow> string \<Rightarrow> bool"
  e_ofs_close :: "trace \<Rightarrow> path \<Rightarrow> bool"
  e_ifs_read :: "trace \<Rightarrow> path \<Rightarrow> string option"
  e_open :: "trace \<Rightarrow> path \<Rightarrow> int"
  e_stat :: "trace \<Rightarrow> path \<Rightarrow> u64 option"
  e_tunsetiff :: "trace \<Rightarrow> int \<Rightarrow> string \<Rightarrow> int"
  e_fork :: "trace \<Rightarrow> int"
  e_execv :: "trace \<Rightarrow> path \<Rightarrow> bool"
  e_socket :: "trace \<Rightarrow> int"
  e_connect :: "trace \<Rightarrow> int \<Rightarrow> path \<Rightarrow> int"
  e_write :: "trace \<Rightarrow> int \<Rightarrow> string \<Rightarrow> int"
  e_read :: "trace \<Rightarrow> int \<Rightarrow> nat \<Rightarrow> string option"
  e_clock :: "trace \<Rightarrow> int"
  e_obj_open :: "trace \<Rightarrow> path \<Rightarrow> nat option"
  e_obj_load :: "trace \<Rightarrow> nat \<Rightarrow> int"
  e_programs :: "trace \<Rightarrow> nat \<Rightarrow> string option list"
  e_find_program :: "trace \<Rightarrow> nat \<Rightarrow> string \<Rightarrow> nat option"
  e_attach_tracepoint :: "trace \<Rightarrow> nat \<Rightarrow> string \<Rightarrow> string \<Rightarrow> nat option"
  e_attach_cgroup :: "trace \<Rightarrow> nat \<Rightarrow> int \<Rightarrow> nat option"
  e_find_map :: "trace \<Rightarrow> nat \<Rightarrow> string \<Rightarrow> int option"
  e_map_update :: "trace \<Rightarrow> int \<Rightarrow> bpf_key \<Rightarrow> u8 \<Rightarrow> int"
  e_ring_new :: "trace \<Rightarrow> int \<Rightarrow> nat option"
  e_ring_poll :: "trace \<Rightarrow> nat \<Rightarrow> int \<Rightarrow> int \<times> u8 list list"
  e_iter_strings :: "trace \<Rightarrow> string list \<Rightarrow> string list"
  e_iter_u32 :: "trace \<Rightarrow> u32 list \<Rightarrow> u32 list"

text \<open>What the C++ standard promises of iteration: every element once, in some order.\<close>

definition iterates :: "env \<Rightarrow> bool" where
  "iterates E \<longleftrightarrow>
     (\<forall>t xs. mset (e_iter_strings E t xs) = mset xs) \<and>
     (\<forall>t xs. mset (e_iter_u32 E t xs) = mset xs)"

lemma iterates_set:
  assumes "iterates E"
  shows "set (e_iter_strings E t xs) = set xs" and "set (e_iter_u32 E t ys) = set ys"
  using assms by (metis iterates_def set_mset_mset)+

lemma iterates_distinct:
  "iterates E \<Longrightarrow> distinct (e_iter_strings E t xs) \<longleftrightarrow> distinct xs"
  by (metis iterates_def mset_eq_imp_distinct_iff)

section \<open>Methods and calls\<close>

type_synonym ('o, 'a) action = "('o \<times> trace, 'a) prog"

definition sys :: "(trace \<Rightarrow> 'r) \<Rightarrow> ('r \<Rightarrow> event) \<Rightarrow> ('o, 'r) action" where
  "sys answer ev = (\<lambda>(ob, t). (Ret (answer t), (ob, t @ [ev (answer t)])))"

definition self :: "('o \<Rightarrow> 'a) \<Rightarrow> ('o, 'a) action" where
  "self f = (\<lambda>(ob, t). (Ret (f ob), (ob, t)))"

definition assign :: "('o \<Rightarrow> 'o) \<Rightarrow> ('o, unit) action" where
  "assign f = (\<lambda>(ob, t). (Ret (), (f ob, t)))"

definition guarded :: "('o \<Rightarrow> bool) \<Rightarrow> (bool \<Rightarrow> 'o \<Rightarrow> 'o) \<Rightarrow> ('o, 'a) action \<Rightarrow> ('o, 'a) action" where
  "guarded held set_held = lock_guard (\<lambda>(ob, t). held ob) (\<lambda>b (ob, t). (set_held b ob, t))"

text \<open>Calling a method of a sub-object.\<close>

definition on_field :: "('o \<Rightarrow> 'f) \<Rightarrow> ('f \<Rightarrow> 'o \<Rightarrow> 'o) \<Rightarrow> ('f, 'a) action \<Rightarrow> ('o, 'a) action" where
  "on_field get put m = (\<lambda>(ob, t). case m (get ob, t) of (r, (f, t')) \<Rightarrow> (r, (put f ob, t')))"

lemma wp_sys [wp_simps]: "wp (sys a ev) Q (ob, t) = Q (Ret (a t)) (ob, t @ [ev (a t)])"
  by (simp add: wp_def sys_def)

lemma wp_self [wp_simps]: "wp (self f) Q (ob, t) = Q (Ret (f ob)) (ob, t)"
  by (simp add: wp_def self_def)

lemma wp_assign [wp_simps]: "wp (assign f) Q (ob, t) = Q (Ret ()) (f ob, t)"
  by (simp add: wp_def assign_def)

lemma wp_guarded [wp_simps]:
  "wp (guarded held set_held body) Q (ob, t) =
    (if held ob then Q Deadlock (ob, t)
     else wp body (\<lambda>r (ob', t'). case r of
         Ret x \<Rightarrow> Q (Ret x) (set_held False ob', t') | Throw e \<Rightarrow> Q (Throw e) (set_held False ob', t')
       | Deadlock \<Rightarrow> Q Deadlock (ob', t') | Gone \<Rightarrow> Q Gone (ob', t')) (set_held True ob, t))"
  by (auto simp: guarded_def wp_def lock_guard_def split: prod.splits outcome.splits)

lemma wp_on_field [wp_simps]:
  "wp (on_field get put m) Q (ob, t) = wp m (\<lambda>r (f, t'). Q r (put f ob, t')) (get ob, t)"
  by (simp add: wp_def on_field_def split: prod.splits)

text \<open>
  What a class with a mutex member gives: reading and writing the flag, and writing nothing else.
  Every class of the library is an instance, so each method that only reads its object has the
  same short behaviour.
\<close>

locale mutex_class =
  fixes held :: "'o \<Rightarrow> bool"
    and set_held :: "bool \<Rightarrow> 'o \<Rightarrow> 'o"
  assumes held_set: "held (set_held b ob) = b"
    and set_set: "set_held b (set_held c ob) = set_held b ob"
    and set_same: "held ob = b \<Longrightarrow> set_held b ob = ob"
begin

lemma guarded_reader:
  "\<not> held ob \<Longrightarrow> guarded held set_held (self f) (ob, t) = (Ret (f (set_held True ob)), (ob, t))"
  by (simp add: guarded_def lock_guard_def self_def set_set set_same)

lemma guarded_releases:
  assumes "guarded held set_held body (ob, t) = (Ret x, (ob', t'))"
  shows "\<not> held ob'"
  using assms
  by (auto simp: guarded_def lock_guard_def held_set split: if_splits prod.splits outcome.splits)

lemma guarded_again:
  "held ob \<Longrightarrow> guarded held set_held body (ob, t) = (Deadlock, (ob, t))"
  by (simp add: guarded_def lock_guard_def)

end

text \<open>
  The states an object can reach when its methods are called one after the other. A call that
  throws leaves an object that can be called again; after a deadlock or the end of the process
  there is no further call.
\<close>

inductive reachable :: "('c \<Rightarrow> ('o, 'r) action) \<Rightarrow> 'o \<times> trace \<Rightarrow> 'o \<times> trace \<Rightarrow> bool"
  for call :: "'c \<Rightarrow> ('o, 'r) action" and s0 :: "'o \<times> trace" where
  start: "reachable call s0 s0"
| returns: "reachable call s0 s \<Longrightarrow> call c s = (Ret r, s') \<Longrightarrow> reachable call s0 s'"
| throws: "reachable call s0 s \<Longrightarrow> call c s = (Throw e, s') \<Longrightarrow> reachable call s0 s'"

text \<open>An invariant that holds of the constructed object and that every call keeps.\<close>

locale class_invariant =
  fixes call :: "'c \<Rightarrow> ('o, 'r) action"
    and s0 :: "'o \<times> trace"
    and inv :: "'o \<times> trace \<Rightarrow> bool"
  assumes inv_start: "inv s0"
    and inv_call: "inv s \<Longrightarrow> wp (call c) (\<lambda>r s'. (\<exists>x. r = Ret x) \<or> (\<exists>e. r = Throw e) \<longrightarrow> inv s') s"
begin

lemma inv_returns: "inv s \<Longrightarrow> call c s = (Ret x, s') \<Longrightarrow> inv s'"
  using inv_call [of s c] by (simp add: wp_def)

lemma inv_throws: "inv s \<Longrightarrow> call c s = (Throw e, s') \<Longrightarrow> inv s'"
  using inv_call [of s c] by (simp add: wp_def)

lemma reachable_inv: "reachable call s0 s \<Longrightarrow> inv s"
  by (induction rule: reachable.induct) (blast intro: inv_start inv_returns inv_throws)+

end

text \<open>The calls by name.\<close>

definition fs_exists :: "env \<Rightarrow> path \<Rightarrow> ('o, bool) action" where
  "fs_exists E p = bindM (sys (\<lambda>t. e_exists E t p) (Exists p)) (\<lambda>r.
     case r of FsYes \<Rightarrow> retM True | FsNo \<Rightarrow> retM False | FsErr \<Rightarrow> throwM FilesystemError)"

definition fs_remove :: "env \<Rightarrow> path \<Rightarrow> ('o, unit) action" where
  "fs_remove E p = bindM (sys (\<lambda>t. e_remove E t p) (RemoveFile p)) (\<lambda>ok.
     if ok then retM () else throwM FilesystemError)"

definition fs_create_directories :: "env \<Rightarrow> path \<Rightarrow> ('o, bool) action" where
  "fs_create_directories E p = sys (\<lambda>t. e_create_directories E t p) (CreateDirectories p)"

definition fs_remove_all :: "path \<Rightarrow> ('o, unit) action" where
  "fs_remove_all p = sys (\<lambda>t. ()) (\<lambda>_. RemoveAll p)"

definition c_open :: "env \<Rightarrow> path \<Rightarrow> ('o, int) action" where
  "c_open E p = sys (\<lambda>t. e_open E t p) (Open p)"

definition c_close :: "int \<Rightarrow> ('o, unit) action" where
  "c_close fd = sys (\<lambda>t. ()) (\<lambda>_. Close fd)"

definition c_stat :: "env \<Rightarrow> path \<Rightarrow> ('o, u64 option) action" where
  "c_stat E p = sys (\<lambda>t. e_stat E t p) (Stat p)"

definition c_kill :: "int \<Rightarrow> int \<Rightarrow> ('o, unit) action" where
  "c_kill pid sig = sys (\<lambda>t. ()) (\<lambda>_. Kill pid sig)"

definition c_waitpid :: "int \<Rightarrow> ('o, unit) action" where
  "c_waitpid pid = sys (\<lambda>t. ()) (\<lambda>_. Waitpid pid)"

definition c_socket :: "env \<Rightarrow> ('o, int) action" where
  "c_socket E = sys (e_socket E) Socket"

definition c_connect :: "env \<Rightarrow> int \<Rightarrow> path \<Rightarrow> ('o, int) action" where
  "c_connect E fd p = sys (\<lambda>t. e_connect E t fd p) (Connect fd p)"

definition c_write :: "env \<Rightarrow> int \<Rightarrow> string \<Rightarrow> ('o, int) action" where
  "c_write E fd s = sys (\<lambda>t. e_write E t fd s) (WriteFd fd s)"

text \<open>\<open>read\<close> stores at most \<open>n\<close> bytes; \<open>None\<close> is a negative return value.\<close>

definition c_read :: "env \<Rightarrow> int \<Rightarrow> nat \<Rightarrow> ('o, string option) action" where
  "c_read E fd n = sys (\<lambda>t. map_option (take n) (e_read E t fd n)) (ReadFd fd)"

definition now :: "env \<Rightarrow> ('o, int) action" where
  "now E = sys (e_clock E) Clock"

definition sleep_ms :: "nat \<Rightarrow> ('o, unit) action" where
  "sleep_ms n = sys (\<lambda>t. ()) (\<lambda>_. Sleep n)"

lemmas call_defs = fs_exists_def fs_remove_def fs_create_directories_def fs_remove_all_def
  c_open_def c_close_def c_stat_def c_kill_def c_waitpid_def c_socket_def c_connect_def
  c_write_def c_read_def now_def sleep_ms_def

lemma wp_fs_exists [wp_simps]:
  "wp (fs_exists E p) Q (ob, t) =
    (let r = e_exists E t p in
     Q (case r of FsYes \<Rightarrow> Ret True | FsNo \<Rightarrow> Ret False | FsErr \<Rightarrow> Throw FilesystemError)
       (ob, t @ [Exists p r]))"
  by (simp add: fs_exists_def wp_simps Let_def split: fs_status.split)

lemma wp_fs_remove [wp_simps]:
  "wp (fs_remove E p) Q (ob, t) =
    (let ok = e_remove E t p in
     Q (if ok then Ret () else Throw FilesystemError) (ob, t @ [RemoveFile p ok]))"
  by (simp add: fs_remove_def wp_simps Let_def)

lemmas wp_calls [wp_simps] = fs_create_directories_def fs_remove_all_def c_open_def c_close_def c_stat_def
  c_kill_def c_waitpid_def c_socket_def c_connect_def c_write_def c_read_def now_def sleep_ms_def

section \<open>Reading a trace\<close>

text \<open>Descriptors the program got, and descriptors it closed.\<close>

definition opened_fd :: "event \<Rightarrow> int multiset" where
  "opened_fd e = (case e of
     Open p fd \<Rightarrow> if fd \<ge> 0 then {#fd#} else {#}
   | Socket fd \<Rightarrow> if fd \<ge> 0 then {#fd#} else {#}
   | _ \<Rightarrow> {#})"

definition opened_fds :: "trace \<Rightarrow> int multiset" where
  "opened_fds t = sum_list (map opened_fd t)"

definition closed_fd :: "event \<Rightarrow> int multiset" where
  "closed_fd e = (case e of
     Close fd \<Rightarrow> {#fd#}
   | _ \<Rightarrow> {#})"

definition closed_fds :: "trace \<Rightarrow> int multiset" where
  "closed_fds t = sum_list (map closed_fd t)"

text \<open>Processes the program forked, and processes it sent \<open>SIGKILL\<close>.\<close>

definition forked_pid :: "event \<Rightarrow> int multiset" where
  "forked_pid e = (case e of
     Fork pid \<Rightarrow> if pid > 0 then {#pid#} else {#}
   | _ \<Rightarrow> {#})"

definition forked_pids :: "trace \<Rightarrow> int multiset" where
  "forked_pids t = sum_list (map forked_pid t)"

definition killed_pid :: "event \<Rightarrow> int multiset" where
  "killed_pid e = (case e of
     Kill pid sig \<Rightarrow> if sig = 9 then {#pid#} else {#}
   | _ \<Rightarrow> {#})"

definition killed_pids :: "trace \<Rightarrow> int multiset" where
  "killed_pids t = sum_list (map killed_pid t)"

text \<open>BPF links and BPF objects.\<close>

definition attached_link :: "event \<Rightarrow> nat multiset" where
  "attached_link e = (case e of
     AttachTracepoint p c n (Some l) \<Rightarrow> {#l#}
   | AttachCgroup p fd (Some l) \<Rightarrow> {#l#}
   | _ \<Rightarrow> {#})"

definition attached_links :: "trace \<Rightarrow> nat multiset" where
  "attached_links t = sum_list (map attached_link t)"

definition destroyed_link :: "event \<Rightarrow> nat multiset" where
  "destroyed_link e = (case e of
     LinkDestroy l \<Rightarrow> {#l#}
   | _ \<Rightarrow> {#})"

definition destroyed_links :: "trace \<Rightarrow> nat multiset" where
  "destroyed_links t = sum_list (map destroyed_link t)"

definition opened_obj :: "event \<Rightarrow> nat multiset" where
  "opened_obj e = (case e of
     ObjOpen p (Some ob) \<Rightarrow> {#ob#}
   | _ \<Rightarrow> {#})"

definition opened_objs :: "trace \<Rightarrow> nat multiset" where
  "opened_objs t = sum_list (map opened_obj t)"

definition closed_obj :: "event \<Rightarrow> nat multiset" where
  "closed_obj e = (case e of
     ObjClose ob \<Rightarrow> {#ob#}
   | _ \<Rightarrow> {#})"

definition closed_objs :: "trace \<Rightarrow> nat multiset" where
  "closed_objs t = sum_list (map closed_obj t)"

text \<open>
  The value a hash map holds for a key after the updates of a trace: what the last successful
  \<open>bpf_map_update_elem\<close> with \<open>BPF_ANY\<close> on that map stored.
\<close>

definition map_write :: "int \<Rightarrow> bpf_key \<Rightarrow> event \<Rightarrow> u8 option \<Rightarrow> u8 option" where
  "map_write fd k e v0 = (case e of
     MapUpdate fd' k' v err \<Rightarrow> if fd' = fd \<and> k' = k \<and> err = 0 then Some v else v0
   | _ \<Rightarrow> v0)"

definition map_value :: "int \<Rightarrow> bpf_key \<Rightarrow> trace \<Rightarrow> u8 option \<Rightarrow> u8 option" where
  "map_value fd k t v0 = fold (map_write fd k) t v0"

lemmas event_defs [simp] =
  opened_fd_def closed_fd_def forked_pid_def killed_pid_def attached_link_def
  destroyed_link_def opened_obj_def closed_obj_def map_write_def

lemma opened_fds_simps [simp, trace_simps]:
  "opened_fds [] = {#}"
  "opened_fds (e # t) = opened_fd e + opened_fds t"
  "opened_fds (t @ u) = opened_fds t + opened_fds u"
  by (simp_all add: opened_fds_def)

lemma closed_fds_simps [simp, trace_simps]:
  "closed_fds [] = {#}"
  "closed_fds (e # t) = closed_fd e + closed_fds t"
  "closed_fds (t @ u) = closed_fds t + closed_fds u"
  by (simp_all add: closed_fds_def)

lemma forked_pids_simps [simp, trace_simps]:
  "forked_pids [] = {#}"
  "forked_pids (e # t) = forked_pid e + forked_pids t"
  "forked_pids (t @ u) = forked_pids t + forked_pids u"
  by (simp_all add: forked_pids_def)

lemma killed_pids_simps [simp, trace_simps]:
  "killed_pids [] = {#}"
  "killed_pids (e # t) = killed_pid e + killed_pids t"
  "killed_pids (t @ u) = killed_pids t + killed_pids u"
  by (simp_all add: killed_pids_def)

lemma attached_links_simps [simp, trace_simps]:
  "attached_links [] = {#}"
  "attached_links (e # t) = attached_link e + attached_links t"
  "attached_links (t @ u) = attached_links t + attached_links u"
  by (simp_all add: attached_links_def)

lemma destroyed_links_simps [simp, trace_simps]:
  "destroyed_links [] = {#}"
  "destroyed_links (e # t) = destroyed_link e + destroyed_links t"
  "destroyed_links (t @ u) = destroyed_links t + destroyed_links u"
  by (simp_all add: destroyed_links_def)

lemma opened_objs_simps [simp, trace_simps]:
  "opened_objs [] = {#}"
  "opened_objs (e # t) = opened_obj e + opened_objs t"
  "opened_objs (t @ u) = opened_objs t + opened_objs u"
  by (simp_all add: opened_objs_def)

lemma closed_objs_simps [simp, trace_simps]:
  "closed_objs [] = {#}"
  "closed_objs (e # t) = closed_obj e + closed_objs t"
  "closed_objs (t @ u) = closed_objs t + closed_objs u"
  by (simp_all add: closed_objs_def)

lemma map_value_simps [simp, trace_simps]:
  "map_value fd k [] v = v"
  "map_value fd k (e # t) v = map_value fd k t (map_write fd k e v)"
  "map_value fd k (t @ u) v = map_value fd k u (map_value fd k t v)"
  by (simp_all add: map_value_def)

text \<open>
  Events that acquire and give back nothing and write no BPF map: the file system calls, and an
  \<open>open\<close> that failed.
\<close>

definition fs_event :: "event \<Rightarrow> bool" where
  "fs_event e = (case e of
     Exists p r \<Rightarrow> True
   | CreateDirectories p r \<Rightarrow> True
   | RemoveAll p \<Rightarrow> True
   | RemoveFile p r \<Rightarrow> True
   | OfsOpen p r \<Rightarrow> True
   | OfsPut p v r \<Rightarrow> True
   | OfsClose p r \<Rightarrow> True
   | IfsRead p r \<Rightarrow> True
   | Stat p r \<Rightarrow> True
   | Open p fd \<Rightarrow> fd < 0
   | Sleep n \<Rightarrow> True
   | Clock c \<Rightarrow> True
   | _ \<Rightarrow> False)"

lemma fs_event_quiet:
  assumes "list_all fs_event u"
  shows "opened_fds u = {#}" and "closed_fds u = {#}" and "forked_pids u = {#}"
    and "killed_pids u = {#}" and "attached_links u = {#}" and "destroyed_links u = {#}"
    and "opened_objs u = {#}" and "closed_objs u = {#}" and "map_value fd k u v = v"
  using assms
  by (induction u arbitrary: v) (auto simp: fs_event_def split: event.splits)

section \<open>An environment in which every call succeeds\<close>

text \<open>
  Used to instantiate the environment in closed examples: descriptor 3 for every open, process
  4242 for \<open>fork\<close>, inode 77 for \<open>stat\<close>, a 204 answer on every socket, the maps of the network
  filter for object 2 and those of the system call filter for every other object. \<open>Exists\<close> is true for every path.
\<close>

definition good_env :: env where
  "good_env = \<lparr>
     e_exists = (\<lambda>t p. FsYes),
     e_create_directories = (\<lambda>t p. True),
     e_remove = (\<lambda>t p. True),
     e_ofs_open = (\<lambda>t p. True),
     e_ofs_put = (\<lambda>t p v. True),
     e_ofs_close = (\<lambda>t p. True),
     e_ifs_read = (\<lambda>t p. Some []),
     e_open = (\<lambda>t p. 3),
     e_stat = (\<lambda>t p. Some 77),
     e_tunsetiff = (\<lambda>t fd n. 0),
     e_fork = (\<lambda>t. 4242),
     e_execv = (\<lambda>t p. True),
     e_socket = (\<lambda>t. 4),
     e_connect = (\<lambda>t fd p. 0),
     e_write = (\<lambda>t fd s. int (length s)),
     e_read = (\<lambda>t fd n. Some ''HTTP/1.1 204''),
     e_clock = (\<lambda>t. int (length t)),
     e_obj_open = (\<lambda>t p. Some (length t)),
     e_obj_load = (\<lambda>t ob. 0),
     e_programs = (\<lambda>t ob. [Some ''handle_sys_enter'']),
     e_find_program = (\<lambda>t ob n. Some 1),
     e_attach_tracepoint = (\<lambda>t p c n. Some (length t)),
     e_attach_cgroup = (\<lambda>t p fd. Some (length t)),
     e_find_map = (\<lambda>t ob n.
        if ob = 2 then (if n = ''aegis_blocked_ips'' then Some 20 else if n = ''aegis_net_events'' then Some 21 else None)
        else if n = ''aegis_monitored_cgroups'' then Some 10 else if n = ''aegis_syscall_policy'' then Some 11
        else if n = ''aegis_security_events'' then Some 12 else None),
     e_map_update = (\<lambda>t fd k v. case k of K64 x \<Rightarrow> if fd = 10 then 0 else -22
        | K32 x \<Rightarrow> if fd = 11 \<and> unat x < 512 \<or> fd = 20 then 0 else -7),
     e_ring_new = (\<lambda>t fd. Some 1),
     e_ring_poll = (\<lambda>t rb ms. (0, [])),
     e_iter_strings = (\<lambda>t xs. xs),
     e_iter_u32 = (\<lambda>t xs. xs)\<rparr>"

lemma good_env_iterates: "iterates good_env"
  by (simp add: iterates_def good_env_def)

end
