(* ===== verification/Std_Regex.thy ===== *)
theory Std_Regex
  imports Aegis_Prelude
begin

text \<open>
  The part of \<open>std::regex\<close> (ECMAScript grammar) that \<open>policy_engine.cpp\<close> uses: character
  classes, greedy \<open>*\<close>, \<open>+\<close> and \<open>?\<close> on a single character class, alternatives of
  literals, and one capture group. The matcher returns the successes in the order in which the
  backtracking engine tries them, so its first success is the match. The second half relates
  \<open>regex_search\<close> to where a key first occurs in a text, and shows that iterating the token
  pattern yields the maximal runs of word characters.
\<close>

datatype rx =
    Eps
  | Cls "char \<Rightarrow> bool"
  | StarCls "char \<Rightarrow> bool"
  | OptCls "char \<Rightarrow> bool"
  | Cat rx rx
  | Alt rx rx
  | Cap rx

definition PlusCls :: "(char \<Rightarrow> bool) \<Rightarrow> rx" where
  "PlusCls P = Cat (Cls P) (StarCls P)"

definition Chr :: "char \<Rightarrow> rx" where
  "Chr c = Cls (\<lambda>x. x = c)"

primrec Lit :: "string \<Rightarrow> rx \<Rightarrow> rx" where
  "Lit [] r = r"
| "Lit (c # k) r = Cat (Chr c) (Lit k r)"

text \<open>What a greedy star leaves over: the shortest rest first.\<close>

primrec star_rests :: "(char \<Rightarrow> bool) \<Rightarrow> string \<Rightarrow> string list" where
  "star_rests P [] = [[]]"
| "star_rests P (c # s) = (if P c then star_rests P s else []) @ [c # s]"

text \<open>A success is the rest of the input and the text of the capture group.\<close>

type_synonym success = "string \<times> string"

primrec rx_match :: "rx \<Rightarrow> success \<Rightarrow> success list" where
  "rx_match Eps st = [st]"
| "rx_match (Cls P) st = (case fst st of [] \<Rightarrow> [] | c # s \<Rightarrow> if P c then [(s, snd st)] else [])"
| "rx_match (StarCls P) st = map (\<lambda>s. (s, snd st)) (star_rests P (fst st))"
| "rx_match (OptCls P) st =
     (case fst st of [] \<Rightarrow> [] | c # s \<Rightarrow> if P c then [(s, snd st)] else []) @ [st]"
| "rx_match (Cat a b) st = concat (map (rx_match b) (rx_match a st))"
| "rx_match (Alt a b) st = rx_match a st @ rx_match b st"
| "rx_match (Cap a) st =
     map (\<lambda>st'. (fst st', take (length (fst st) - length (fst st')) (fst st))) (rx_match a st)"

text \<open>\<open>std::regex_search\<close>: the first success at the leftmost position that has one.\<close>

fun rx_search :: "rx \<Rightarrow> string \<Rightarrow> success option" where
  "rx_search r s = (case rx_match r (s, []) of
      st # _ \<Rightarrow> Some st
    | [] \<Rightarrow> (case s of [] \<Rightarrow> None | c # s' \<Rightarrow> rx_search r s'))"

declare rx_search.simps [simp del]

text \<open>
  \<open>std::sregex_iterator\<close>: the captures of successive matches, each search starting where the
  last match ended. Every match of the patterns used takes at least one character.
\<close>

function rx_captures :: "rx \<Rightarrow> string \<Rightarrow> string list" where
  "rx_captures r s = (case rx_search r s of
      None \<Rightarrow> []
    | Some (rest, cap) \<Rightarrow> cap # (if length rest < length s then rx_captures r rest else []))"
  by pat_completeness auto
termination
  by (relation "measure (\<lambda>(r, s). length s)") auto

declare rx_captures.simps [simp del]

text \<open>The character classes of the patterns.\<close>

definition is_space :: "char \<Rightarrow> bool" where
  "is_space c \<longleftrightarrow> (of_char c :: nat) = 32 \<or> 9 \<le> (of_char c :: nat) \<and> (of_char c :: nat) \<le> 13"

definition is_alnum :: "char \<Rightarrow> bool" where
  "is_alnum c \<longleftrightarrow> is_digit c \<or> 65 \<le> (of_char c :: nat) \<and> (of_char c :: nat) \<le> 90
     \<or> 97 \<le> (of_char c :: nat) \<and> (of_char c :: nat) \<le> 122"

definition is_word :: "char \<Rightarrow> bool" where
  "is_word c \<longleftrightarrow> is_alnum c \<or> c = CHR ''_''"

definition quote :: char where
  "quote = CHR 0x22"

section \<open>Matching\<close>

lemma rx_match_Lit:
  "rx_match (Lit k r) (s, c) = (if prefix k s then rx_match r (drop (length k) s, c) else [])"
proof (induction k arbitrary: s)
  case Nil
  then show ?case by simp
next
  case (Cons x k)
  then show ?case by (cases s) (simp_all add: Chr_def)
qed

text \<open>The first success of a pattern, which is what the engine reports.\<close>

definition rx_first :: "rx \<Rightarrow> success \<Rightarrow> success \<Rightarrow> bool" where
  "rx_first r st st' \<longleftrightarrow> (\<exists>sts. rx_match r st = st' # sts)"

lemma first_Cls: "P c \<Longrightarrow> rx_first (Cls P) (c # s, x) (s, x)"
  by (simp add: rx_first_def)

lemma first_Chr: "rx_first (Chr c) (c # s, x) (s, x)"
  by (simp add: Chr_def first_Cls)

lemma star_rests_hd: "\<exists>rs. star_rests P s = dropWhile P s # rs"
  by (induction s) auto

lemma first_Star: "rx_first (StarCls P) (s, x) (dropWhile P s, x)"
  using star_rests_hd [of P s] by (auto simp: rx_first_def)

lemma first_Star_run:
  "\<forall>c \<in> set w. P c \<Longrightarrow> s = [] \<or> \<not> P (hd s) \<Longrightarrow> rx_first (StarCls P) (w @ s, x) (s, x)"
  using first_Star [of P "w @ s" x] by (cases s) (simp_all add: dropWhile_append2 dropWhile_eq_Nil_conv [THEN iffD2])

lemma first_Opt_hit: "P c \<Longrightarrow> rx_first (OptCls P) (c # s, x) (s, x)"
  by (simp add: rx_first_def)

lemma first_Opt_miss: "s = [] \<or> \<not> P (hd s) \<Longrightarrow> rx_first (OptCls P) (s, x) (s, x)"
  by (cases s) (auto simp: rx_first_def)

lemma first_Cat: "rx_first a st st1 \<Longrightarrow> rx_first b st1 st2 \<Longrightarrow> rx_first (Cat a b) st st2"
  by (auto simp: rx_first_def)

lemma first_Cap:
  "rx_first a (w @ s, x) (s, y) \<Longrightarrow> rx_first (Cap a) (w @ s, x) (s, w)"
  by (auto simp: rx_first_def)

lemma first_Plus:
  "P c \<Longrightarrow> rx_first (PlusCls P) (c # s, x) (dropWhile P s, x)"
  unfolding PlusCls_def by (rule first_Cat [OF first_Cls first_Star])

lemma first_Plus_run:
  assumes "w \<noteq> []" and "\<forall>c \<in> set w. P c" and "s = [] \<or> \<not> P (hd s)"
  shows "rx_first (PlusCls P) (w @ s, x) (s, x)"
proof -
  obtain c v where "w = c # v" using assms(1) by (cases w) auto
  then show ?thesis
    unfolding PlusCls_def
    using first_Cat [OF first_Cls [of P c "v @ s" x] first_Star_run [of v P s x]] assms by simp
qed

lemma first_Alt_left: "rx_first a st st' \<Longrightarrow> rx_first (Alt a b) st st'"
  by (auto simp: rx_first_def)

lemma star_rests_suffix: "r \<in> set (star_rests P s) \<Longrightarrow> suffix r s"
  by (induction s) (auto simp: suffix_Cons split: if_splits)

lemma rx_match_suffix: "st' \<in> set (rx_match r st) \<Longrightarrow> suffix (fst st') (fst st)"
proof (induction r arbitrary: st st')
  case (Cat a b)
  then obtain st1 where "st1 \<in> set (rx_match a st)" "st' \<in> set (rx_match b st1)" by auto
  with Cat.IH show ?case by (metis suffix_order.trans)
next
  case (Alt a b)
  from Alt.prems have "st' \<in> set (rx_match a st) \<or> st' \<in> set (rx_match b st)" by simp
  with Alt.IH show ?case by blast
next
  case (Cap a)
  from Cap.prems obtain st1 where "st1 \<in> set (rx_match a st)" "fst st' = fst st1" by auto
  with Cap.IH show ?case by metis
qed (auto simp: suffix_def split: list.splits if_splits dest!: star_rests_suffix)

text \<open>Patterns whose matches are never empty.\<close>

primrec consumes :: "rx \<Rightarrow> bool" where
  "consumes Eps \<longleftrightarrow> False"
| "consumes (Cls P) \<longleftrightarrow> True"
| "consumes (StarCls P) \<longleftrightarrow> False"
| "consumes (OptCls P) \<longleftrightarrow> False"
| "consumes (Cat a b) \<longleftrightarrow> consumes a \<or> consumes b"
| "consumes (Alt a b) \<longleftrightarrow> consumes a \<and> consumes b"
| "consumes (Cap a) \<longleftrightarrow> consumes a"

lemma rx_match_consumes:
  "consumes r \<Longrightarrow> st' \<in> set (rx_match r st) \<Longrightarrow> length (fst st') < length (fst st)"
proof (induction r arbitrary: st st')
  case (Cls P)
  then show ?case by (cases "fst st") (auto split: if_splits)
next
  case (Cat a b)
  then obtain st1 where st1: "st1 \<in> set (rx_match a st)" "st' \<in> set (rx_match b st1)" by auto
  then have "length (fst st1) \<le> length (fst st)" "length (fst st') \<le> length (fst st1)"
    by (auto dest: rx_match_suffix suffix_length_le)
  then show ?case
    using Cat.IH(1) [OF _ st1(1)] Cat.IH(2) [OF _ st1(2)] Cat.prems(1) by force
next
  case (Alt a b)
  from Alt.prems have "st' \<in> set (rx_match a st) \<or> st' \<in> set (rx_match b st)" by simp
  with Alt show ?case by (metis consumes.simps(6))
next
  case (Cap a)
  from Cap.prems obtain st1 where "st1 \<in> set (rx_match a st)" "fst st' = fst st1" by auto
  with Cap show ?case by (metis consumes.simps(7))
qed auto

text \<open>The characters a pattern cannot do without.\<close>

primrec needs :: "rx \<Rightarrow> char \<Rightarrow> bool" where
  "needs Eps c \<longleftrightarrow> False"
| "needs (Cls P) c \<longleftrightarrow> (\<forall>x. P x \<longrightarrow> x = c)"
| "needs (StarCls P) c \<longleftrightarrow> False"
| "needs (OptCls P) c \<longleftrightarrow> False"
| "needs (Cat a b) c \<longleftrightarrow> needs a c \<or> needs b c"
| "needs (Alt a b) c \<longleftrightarrow> needs a c \<and> needs b c"
| "needs (Cap a) c \<longleftrightarrow> needs a c"

lemma needs_Lit [simp]: "needs (Lit k r) c \<longleftrightarrow> c \<in> set k \<or> needs r c"
  by (induction k) (auto simp: Chr_def)

lemma rx_match_needs: "needs r c \<Longrightarrow> rx_match r st \<noteq> [] \<Longrightarrow> c \<in> set (fst st)"
proof (induction r arbitrary: st)
  case (Cls P)
  then show ?case by (cases "fst st") (auto split: if_splits)
next
  case (Cat a b)
  from Cat.prems(2) obtain st1 where st1: "st1 \<in> set (rx_match a st)" "rx_match b st1 \<noteq> []"
    by auto
  then have "rx_match a st \<noteq> []" by auto
  moreover have "set (fst st1) \<subseteq> set (fst st)"
    using rx_match_suffix [OF st1(1)] by (rule set_mono_suffix)
  ultimately show ?case
    using Cat.IH(1) [of st] Cat.IH(2) [of st1] Cat.prems(1) st1(2) by auto
qed auto

section \<open>Searching for a key\<close>

text \<open>No position of the text matches: the search fails.\<close>

lemma rx_search_None:
  "(\<And>u. suffix u s \<Longrightarrow> rx_match r (u, []) = []) \<Longrightarrow> rx_search r s = None"
proof (induction s)
  case Nil
  then show ?case by (simp add: rx_search.simps [of r "[]"])
next
  case (Cons c s)
  then have "rx_match r (c # s, []) = []" and "rx_search r s = None"
    by (simp_all add: suffix_ConsI)
  then show ?case by (simp add: rx_search.simps [of r "c # s"])
qed

lemma rx_search_needs:
  assumes "needs r c" and "c \<notin> set s"
  shows "rx_search r s = None"
proof (rule rx_search_None)
  fix u assume "suffix u s"
  with assms(2) have "c \<notin> set u" using set_mono_suffix by fastforce
  with assms(1) show "rx_match r (u, []) = []" using rx_match_needs by fastforce
qed

lemma rx_search_consumes:
  "consumes r \<Longrightarrow> rx_search r s = Some st \<Longrightarrow> length (fst st) < length s"
proof (induction s)
  case Nil
  then have "st \<in> set (rx_match r ([], []))"
    by (simp add: rx_search.simps [of r "[]"] split: list.splits)
  with Nil rx_match_consumes show ?case by fastforce
next
  case (Cons c s)
  show ?case
  proof (cases "rx_match r (c # s, [])")
    case Nil
    with Cons show ?thesis by (simp add: rx_search.simps [of r "c # s"] less_SucI)
  next
    case (Cons st1 sts)
    with \<open>rx_search r (c # s) = Some st\<close> have "st \<in> set (rx_match r (c # s, []))"
      by (simp add: rx_search.simps [of r "c # s"])
    with \<open>consumes r\<close> rx_match_consumes show ?thesis by fastforce
  qed
qed

text \<open>Positions before the first occurrence of the key a pattern starts with do not match.\<close>

definition first_at :: "string \<Rightarrow> string \<Rightarrow> bool" where
  "first_at k pre \<longleftrightarrow> \<not> contains_str k (butlast (pre @ k))"

lemma prefix_append_butlast:
  assumes "prefix k (c # pre @ k @ post)" and "k \<noteq> []"
  shows "prefix k (butlast (c # pre @ k))"
proof -
  have "c # pre @ k @ post = (c # pre @ butlast k) @ [last k] @ post"
    using assms(2) by simp
  then have "prefix (c # pre @ butlast k) (c # pre @ k @ post)"
    by (rule prefixI)
  then have "prefix (butlast (c # pre @ k)) (c # pre @ k @ post)"
    using assms(2) by (simp add: butlast_append)
  moreover have "length k \<le> length (butlast (c # pre @ k))" by simp
  ultimately show ?thesis
    using assms(1) by (meson prefix_length_prefix)
qed

lemma rx_search_first:
  assumes "first_at k pre" and "k \<noteq> []"
  shows "rx_search (Lit k r) (pre @ k @ post) = rx_search (Lit k r) (k @ post)"
  using assms(1)
proof (induction pre)
  case Nil
  then show ?case by simp
next
  case (Cons c pre)
  have ne: "butlast ((c # pre) @ k) = c # butlast (pre @ k)"
    using assms(2) by simp
  with Cons.prems have "\<not> prefix k (butlast (c # pre @ k))" and fst: "first_at k pre"
    by (auto simp: first_at_def)
  then have "\<not> prefix k (c # pre @ k @ post)"
    using prefix_append_butlast [of k c pre post] assms(2) by blast
  then have "rx_match (Lit k r) (c # pre @ k @ post, []) = []"
    by (simp add: rx_match_Lit)
  then have "rx_search (Lit k r) ((c # pre) @ k @ post) = rx_search (Lit k r) (pre @ k @ post)"
    by (simp add: rx_search.simps [of _ "c # pre @ k @ post"])
  with Cons.IH [OF fst] show ?case by simp
qed

lemma rx_search_hit: "rx_first r (s, []) st \<Longrightarrow> rx_search r s = Some st"
  by (subst rx_search.simps) (auto simp: rx_first_def)

lemma first_Lit: "rx_first r (s, x) st \<Longrightarrow> rx_first (Lit k r) (k @ s, x) st"
  by (simp add: rx_first_def rx_match_Lit)

section \<open>Tokens\<close>

text \<open>The pattern \<open>"?([a-zA-Z0-9_]+)"?\<close>.\<close>

definition token_regex :: rx where
  "token_regex = Cat (OptCls (\<lambda>c. c = quote))
     (Cat (Cap (PlusCls is_word)) (OptCls (\<lambda>c. c = quote)))"

text \<open>The reference: cut the text into the maximal runs of word characters.\<close>

function word_runs :: "string \<Rightarrow> string list" where
  "word_runs s = (case dropWhile (\<lambda>c. \<not> is_word c) s of
      [] \<Rightarrow> []
    | c # s' \<Rightarrow> takeWhile is_word (c # s') # word_runs (dropWhile is_word s'))"
  by pat_completeness auto
termination
proof (relation "measure length")
  fix s c s'
  assume "dropWhile (\<lambda>c. \<not> is_word c) s = c # s'"
  then have "length (c # s') \<le> length s" by (metis length_dropWhile_le)
  then show "(dropWhile is_word s', s) \<in> measure length"
    using length_dropWhile_le [of is_word s'] by simp
qed simp

declare word_runs.simps [simp del]

lemma not_word_quote [simp]: "\<not> is_word quote"
  by (simp add: is_word_def is_alnum_def is_digit_def quote_def)

lemma word_runs_skip: "\<not> is_word c \<Longrightarrow> word_runs (c # s) = word_runs s"
  by (simp add: word_runs.simps [of "c # s"] word_runs.simps [of s])

lemma word_runs_run:
  assumes "is_word c"
  shows "word_runs (c # s) = takeWhile is_word (c # s) # word_runs (dropWhile is_word (c # s))"
  using assms by (simp add: word_runs.simps [of "c # s"])

lemma rx_search_skip: "rx_match r (c # s, []) = [] \<Longrightarrow> rx_search r (c # s) = rx_search r s"
  by (subst rx_search.simps) simp

lemma token_match_Nil:
  assumes "s = [] \<or> \<not> is_word (hd s)"
    and "s \<noteq> [] \<and> hd s = quote \<Longrightarrow> tl s = [] \<or> \<not> is_word (hd (tl s))"
  shows "rx_match token_regex (s, x) = []"
proof (cases s)
  case Nil
  then show ?thesis by (simp add: token_regex_def PlusCls_def)
next
  case (Cons c u)
  with assms show ?thesis
    by (cases u) (auto simp: token_regex_def PlusCls_def)
qed

lemma token_first:
  assumes "w \<noteq> []" and "\<forall>c \<in> set w. is_word c" and "s = [] \<or> \<not> is_word (hd s)"
  obtains s' where "rx_first token_regex (w @ s, x) (s', w)"
    and "rx_first token_regex (quote # w @ s, x) (s', w)"
    and "word_runs s' = word_runs s" and "length s' \<le> length s"
proof -
  define s' where "s' = (if s \<noteq> [] \<and> hd s = quote then tl s else s)"
  have q: "w @ s = [] \<or> \<not> hd (w @ s) = quote"
    using assms(1,2) by (cases w) auto
  have opt: "rx_first (OptCls (\<lambda>c. c = quote)) (s, w) (s', w)"
    unfolding s'_def using first_Opt_hit first_Opt_miss by (cases s) auto
  have mid: "rx_first (Cat (Cap (PlusCls is_word)) (OptCls (\<lambda>c. c = quote))) (w @ s, x) (s', w)"
    by (rule first_Cat [OF first_Cap [OF first_Plus_run [OF assms]] opt])
  have "rx_first token_regex (w @ s, x) (s', w)"
    unfolding token_regex_def by (rule first_Cat [OF first_Opt_miss [where P = "\<lambda>c. c = quote", OF q] mid])
  moreover have "rx_first token_regex (quote # w @ s, x) (s', w)"
    unfolding token_regex_def by (rule first_Cat [OF first_Opt_hit mid]) simp
  moreover have "word_runs s' = word_runs s"
    unfolding s'_def by (cases s) (auto simp: word_runs_skip)
  moreover have "length s' \<le> length s" by (simp add: s'_def)
  ultimately show ?thesis using that by blast
qed

text \<open>Iterating the token pattern yields exactly the maximal runs of word characters.\<close>

lemma consumes_token [simp]: "consumes token_regex"
  by (simp add: token_regex_def PlusCls_def)

lemma rx_captures_skip:
  assumes "rx_match token_regex (c # s, []) = []"
  shows "rx_captures token_regex (c # s) = rx_captures token_regex s"
proof (cases "rx_search token_regex s")
  case None
  then show ?thesis
    by (simp add: rx_captures.simps [of _ "c # s"] rx_captures.simps [of _ s] rx_search_skip assms)
next
  case (Some st)
  then have "length (fst st) < length s"
    by (intro rx_search_consumes [of token_regex]) simp_all
  with Some show ?thesis
    by (cases st)
      (simp add: rx_captures.simps [of _ "c # s"] rx_captures.simps [of _ s] rx_search_skip assms)
qed

lemma dropWhile_stops: "dropWhile P s = [] \<or> \<not> P (hd (dropWhile P s))"
  by (induction s) auto

lemma rx_captures_hit:
  assumes p: "p = [] \<or> p = [quote]" and w: "w \<noteq> []" "\<forall>c \<in> set w. is_word c"
    and u: "u = [] \<or> \<not> is_word (hd u)"
    and IH: "\<And>v. length v < length (p @ w @ u) \<Longrightarrow> rx_captures token_regex v = word_runs v"
  shows "rx_captures token_regex (p @ w @ u) = w # word_runs u"
proof -
  obtain u' where "rx_first token_regex (w @ u, []) (u', w)"
    and "rx_first token_regex (quote # w @ u, []) (u', w)"
    and u': "word_runs u' = word_runs u" "length u' \<le> length u"
    using token_first [OF w u] by blast
  then have "rx_search token_regex (p @ w @ u) = Some (u', w)"
    using p rx_search_hit by auto
  moreover have "length u' < length (p @ w @ u)"
    using w(1) u'(2) by (cases w) auto
  ultimately show ?thesis
    using IH [of u'] u'(1) by (subst rx_captures.simps) simp
qed

lemma rx_captures_token: "rx_captures token_regex s = word_runs s"
proof (induction "length s" arbitrary: s rule: less_induct)
  case less
  show ?case
  proof (cases s)
    case Nil
    have "rx_search token_regex [] = None"
      by (simp add: rx_search.simps [of _ "[]"] token_match_Nil)
    with Nil show ?thesis
      by (simp add: rx_captures.simps [of _ "[]"] word_runs.simps [of "[]"])
  next
    case (Cons c u)
    consider (word) "is_word c" | (quoted) d v where "\<not> is_word c" "c = quote" "u = d # v" "is_word d"
      | (skip) "\<not> is_word c" "c = quote \<longrightarrow> u = [] \<or> \<not> is_word (hd u)"
      by (cases u) auto
    then show ?thesis
    proof cases
      case word
      have "s = [] @ takeWhile is_word s @ dropWhile is_word s" by simp
      also have "rx_captures token_regex \<dots> = takeWhile is_word s # word_runs (dropWhile is_word s)"
        using less Cons word
        by (intro rx_captures_hit dropWhile_stops) (auto dest: set_takeWhileD)
      finally show ?thesis using Cons word by (simp add: word_runs_run)
    next
      case quoted
      have "s = [quote] @ takeWhile is_word u @ dropWhile is_word u" using Cons quoted by simp
      also have "rx_captures token_regex \<dots> = takeWhile is_word u # word_runs (dropWhile is_word u)"
        using less Cons quoted
        by (intro rx_captures_hit dropWhile_stops) (auto dest: set_takeWhileD)
      finally show ?thesis
        using Cons quoted by (simp add: word_runs_run word_runs_skip)
    next
      case skip
      then have "rx_match token_regex (c # u, []) = []"
        by (intro token_match_Nil) auto
      with less [of u] skip Cons show ?thesis
        by (simp add: rx_captures_skip word_runs_skip)
    qed
  qed
qed

end
