(* ===== verification/Policy_Engine.thy ===== *)
theory Policy_Engine
  imports System_Interface Std_Regex
begin

text \<open>
  The security policy engine: \<open>include/aegis/policy/policy_engine.hpp\<close> and
  \<open>src/policy/policy_engine.cpp\<close>. The rule structs, the translation table of system call
  names, the YAML reader with its regular expressions, the registry of policies behind a mutex,
  and the two evaluators. An \<open>std::unordered_set\<close> is a list without repetitions, the
  registry an association list under the interface of \<open>unordered_map\<close>.
\<close>

section \<open>Policies\<close>

record SyscallPolicyRule =
  allowed_syscalls :: "u32 list"
  blocked_syscalls :: "u32 list"
  default_allow :: bool

record NetworkPolicyRule =
  block_all_egress :: bool
  block_cloud_metadata :: bool
  blocked_cidrs :: "string list"
  blocked_ips_network_order :: "u32 list"

record SecurityPolicy =
  policy_name :: string
  syscall_rule :: SyscallPolicyRule
  network_rule :: NetworkPolicyRule
  max_execution_time_sec :: u32

text \<open>\<open>SecurityPolicy policy{}\<close>: the default member initialisers.\<close>

definition new_SecurityPolicy :: SecurityPolicy where
  "new_SecurityPolicy =
     \<lparr>policy_name = [],
      syscall_rule = \<lparr>allowed_syscalls = [], blocked_syscalls = [], default_allow = False\<rparr>,
      network_rule = \<lparr>block_all_egress = False, block_cloud_metadata = True,
        blocked_cidrs = [], blocked_ips_network_order = []\<rparr>,
      max_execution_time_sec = 30\<rparr>"

record PolicyEngine =
  pe_mutex :: bool
  m_policies :: "(string \<times> SecurityPolicy) list"

abbreviation pe_locked :: "(PolicyEngine, 'a) action \<Rightarrow> (PolicyEngine, 'a) action" where
  "pe_locked body \<equiv> guarded pe_mutex (\<lambda>b. pe_mutex_update (\<lambda>_. b)) body"

section \<open>System call names\<close>

definition s_syscall_name_map :: "(string \<times> u32) list" where
  "s_syscall_name_map = [
     (''read'', 0), (''write'', 1), (''open'', 2), (''close'', 3), (''stat'', 4),
     (''fstat'', 5), (''lstat'', 6), (''poll'', 7), (''lseek'', 8), (''mmap'', 9),
     (''mprotect'', 10), (''munmap'', 11), (''brk'', 12), (''rt_sigaction'', 13),
     (''rt_sigprocmask'', 14), (''rt_sigreturn'', 15), (''ioctl'', 16), (''pread64'', 17),
     (''pwrite64'', 18), (''readv'', 19), (''writev'', 20), (''access'', 21), (''pipe'', 22),
     (''select'', 23), (''sched_yield'', 24), (''mremap'', 25), (''msync'', 26),
     (''mincore'', 27), (''madvise'', 28), (''dup'', 32), (''dup2'', 33), (''pause'', 34),
     (''nanosleep'', 35), (''getpid'', 39), (''sendfile'', 40), (''socket'', 41),
     (''connect'', 42), (''accept'', 43), (''sendto'', 44), (''recvfrom'', 45),
     (''sendmsg'', 46), (''recvmsg'', 47), (''shutdown'', 48), (''bind'', 49), (''listen'', 50),
     (''getsockname'', 51), (''getpeername'', 52), (''socketpair'', 53), (''setsockopt'', 54),
     (''getsockopt'', 55), (''clone'', 56), (''fork'', 57), (''vfork'', 58), (''execve'', 59),
     (''exit'', 60), (''wait4'', 61), (''kill'', 62), (''uname'', 63), (''fcntl'', 72),
     (''flock'', 73), (''fsync'', 74), (''fdatasync'', 75), (''getcwd'', 79), (''chdir'', 80),
     (''mkdir'', 83), (''rmdir'', 84), (''unlink'', 87), (''chmod'', 90), (''fchmod'', 91),
     (''chown'', 92), (''gettimeofday'', 96), (''getrlimit'', 97), (''getrusage'', 98),
     (''sysinfo'', 99), (''ptrace'', 101), (''getuid'', 102), (''getgid'', 104),
     (''setuid'', 105), (''setgid'', 106), (''geteuid'', 107), (''getegid'', 108),
     (''sigaltstack'', 131), (''statfs'', 137), (''fstatfs'', 138), (''prctl'', 157),
     (''arch_prctl'', 158), (''setrlimit'', 160), (''chroot'', 161), (''sync'', 162),
     (''reboot'', 169), (''init_module'', 175), (''delete_module'', 176), (''gettid'', 186),
     (''futex'', 202), (''sched_setaffinity'', 203), (''sched_getaffinity'', 204),
     (''epoll_create'', 213), (''epoll_ctl'', 233), (''epoll_wait'', 232),
     (''set_tid_address'', 218), (''clock_gettime'', 228), (''clock_getres'', 229),
     (''clock_nanosleep'', 230), (''exit_group'', 231), (''tgkill'', 234), (''openat'', 257),
     (''mkdirat'', 258), (''mknodat'', 259), (''fchownat'', 260), (''fstatat'', 262),
     (''unlinkat'', 263), (''renameat'', 264), (''fchmodat'', 268), (''faccessat'', 269),
     (''pselect6'', 270), (''ppoll'', 271), (''unshare'', 272), (''splice'', 275),
     (''epoll_pwait'', 281), (''timerfd_create'', 283), (''eventfd'', 284),
     (''fallocate'', 285), (''timerfd_settime'', 286), (''accept4'', 288), (''signalfd4'', 289),
     (''eventfd2'', 290), (''epoll_create1'', 291), (''dup3'', 292), (''pipe2'', 293),
     (''inotify_init1'', 294), (''preadv'', 295), (''pwritev'', 296), (''prlimit64'', 302),
     (''name_to_handle_at'', 303), (''open_by_handle_at'', 304), (''getrandom'', 318),
     (''memfd_create'', 319), (''bpf'', 321), (''execveat'', 322), (''userfaultfd'', 323),
     (''copy_file_range'', 326), (''statx'', 332), (''io_uring_setup'', 425),
     (''io_uring_enter'', 426), (''io_uring_register'', 427), (''openat2'', 437),
     (''faccessat2'', 439), (''epoll_pwait2'', 441), (''landlock_create_ruleset'', 444),
     (''landlock_restrict_self'', 445)
   ]"

definition resolve_syscall_name :: "string \<Rightarrow> u32 option" where
  "resolve_syscall_name syscall_name = map_of s_syscall_name_map syscall_name"

text \<open>
  The loop that every list of names goes through: names the table does not know are skipped.
\<close>

primrec insert_resolved :: "string list \<Rightarrow> u32 list \<Rightarrow> u32 list" where
  "insert_resolved [] S = S"
| "insert_resolved (sys_name # names) S =
     (case resolve_syscall_name sys_name of
        Some sys_nr \<Rightarrow> insert_resolved names (List.insert sys_nr S)
      | None \<Rightarrow> insert_resolved names S)"

section \<open>The YAML reader\<close>

text \<open>The regular expressions.\<close>

definition is_name_char :: "char \<Rightarrow> bool" where
  "is_name_char c \<longleftrightarrow> is_alnum c \<or> c = CHR ''_'' \<or> c = CHR ''-''"

text \<open>A key, then \<open>\s*:\s*\<close>, then the value.\<close>

definition key_regex :: "string \<Rightarrow> rx \<Rightarrow> rx" where
  "key_regex k r = Lit k (Cat (StarCls is_space) (Cat (Chr CHR '':'') (Cat (StarCls is_space) r)))"

definition name_regex :: rx where
  "name_regex = key_regex ''policy_name'' (Cat (OptCls (\<lambda>c. c = quote))
     (Cat (Cap (PlusCls is_name_char)) (OptCls (\<lambda>c. c = quote))))"

definition bool_regex :: rx where
  "bool_regex = Cap (Alt (Lit ''true'' Eps) (Lit ''false'' Eps))"

definition block_net_regex :: rx where
  "block_net_regex = key_regex ''block_all_network_egress'' bool_regex"

definition block_meta_regex :: rx where
  "block_meta_regex = key_regex ''block_cloud_metadata_ips'' bool_regex"

definition timeout_regex :: rx where
  "timeout_regex = key_regex ''max_execution_time_sec'' (Cap (PlusCls is_digit))"

definition list_regex :: "string \<Rightarrow> rx" where
  "list_regex k = key_regex k (Cat (Chr CHR ''['')
     (Cat (Cap (PlusCls (\<lambda>c. c \<noteq> CHR '']''))) (Chr CHR '']'')))"

definition allowed_regex :: rx where
  "allowed_regex = list_regex ''allowed_sys_calls''"

definition blocked_regex :: rx where
  "blocked_regex = list_regex ''blocked_sys_calls''"

text \<open>
  \<open>std::stoul\<close> on a string of digits: \<open>unsigned long\<close> has 64 bits and a larger number
  throws. The cast to \<open>uint32_t\<close> keeps the low 32 bits.
\<close>

definition stoul :: "string \<Rightarrow> exn + u64" where
  "stoul s = (if int (dec_val s) < 2 ^ 64 then Inr (of_nat (dec_val s)) else Inl OutOfRange)"

text \<open>The list of names a list pattern captures, empty when the key has no such list.\<close>

definition yaml_names :: "rx \<Rightarrow> string \<Rightarrow> string list" where
  "yaml_names r content = (case rx_search r content of
      None \<Rightarrow> []
    | Some st \<Rightarrow> rx_captures token_regex (snd st))"

definition yaml_bool :: "rx \<Rightarrow> string \<Rightarrow> bool \<Rightarrow> bool" where
  "yaml_bool r content dflt = (case rx_search r content of
      None \<Rightarrow> dflt
    | Some st \<Rightarrow> snd st = ''true'')"

text \<open>From the contents of the file to the policy that is stored.\<close>

definition parse_policy :: "path \<Rightarrow> string \<Rightarrow> exn + SecurityPolicy" where
  "parse_policy yaml_path content = (
     let policy = new_SecurityPolicy;
         policy = policy\<lparr>policy_name :=
           (case rx_search name_regex content of Some st \<Rightarrow> snd st | None \<Rightarrow> path_stem yaml_path)\<rparr>;
         policy = policy\<lparr>network_rule := (network_rule policy)
           \<lparr>block_all_egress := yaml_bool block_net_regex content (block_all_egress (network_rule policy))\<rparr>\<rparr>;
         policy = policy\<lparr>network_rule := (network_rule policy)
           \<lparr>block_cloud_metadata :=
              yaml_bool block_meta_regex content (block_cloud_metadata (network_rule policy))\<rparr>\<rparr>
     in case (case rx_search timeout_regex content of
          None \<Rightarrow> Inr policy
        | Some st \<Rightarrow> (case stoul (snd st) of
            Inl e \<Rightarrow> Inl e
          | Inr n \<Rightarrow> Inr (policy\<lparr>max_execution_time_sec := ucast n\<rparr>))) of
       Inl e \<Rightarrow> Inl e
     | Inr policy \<Rightarrow>
         let rule = syscall_rule policy;
             rule = rule\<lparr>allowed_syscalls :=
               insert_resolved (yaml_names allowed_regex content) (allowed_syscalls rule)\<rparr>;
             rule = rule\<lparr>blocked_syscalls :=
               insert_resolved (yaml_names blocked_regex content) (blocked_syscalls rule)\<rparr>
         in Inr (policy\<lparr>syscall_rule := rule\<rparr>))"

definition store_policy :: "SecurityPolicy \<Rightarrow> PolicyEngine \<Rightarrow> PolicyEngine" where
  "store_policy policy e =
     e\<lparr>m_policies := AList.update (policy_name policy) policy (m_policies e)\<rparr>"

definition load_from_yaml :: "env \<Rightarrow> path \<Rightarrow> (PolicyEngine, Status) action" where
  "load_from_yaml E yaml_path = pe_locked (
     bindM (fs_exists E yaml_path) (\<lambda>found.
     if \<not> found then retM ErrPolicyViolation
     else bindM (sys (\<lambda>t. e_ifs_read E t yaml_path) (IfsRead yaml_path)) (\<lambda>file.
     case file of
       None \<Rightarrow> retM ErrPolicyViolation
     | Some content \<Rightarrow>
         (case parse_policy yaml_path content of
            Inl e \<Rightarrow> throwM e
          | Inr policy \<Rightarrow> seqM (assign (store_policy policy)) (retM Success)))))"

section \<open>The registry\<close>

definition register_policy :: "SecurityPolicy \<Rightarrow> (PolicyEngine, Status) action" where
  "register_policy policy = pe_locked (seqM (assign (store_policy policy)) (retM Success))"

text \<open>The argument of \<open>load_from_json\<close> is not read.\<close>

definition load_from_json :: "string \<Rightarrow> (PolicyEngine, Status) action" where
  "load_from_json json_str = register_policy (new_SecurityPolicy
     \<lparr>policy_name := ''json_imported_policy'',
      network_rule := (network_rule new_SecurityPolicy)\<lparr>block_cloud_metadata := True\<rparr>\<rparr>)"

definition get_policy :: "string \<Rightarrow> (PolicyEngine, SecurityPolicy option) action" where
  "get_policy name = pe_locked (self (\<lambda>e. map_of (m_policies e) name))"

definition strict_python_allowed :: "string list" where
  "strict_python_allowed = [
     ''read'', ''write'', ''openat'', ''close'', ''fstat'', ''mmap'', ''mprotect'', ''munmap'', ''brk'',
     ''rt_sigaction'', ''rt_sigprocmask'', ''ioctl'', ''access'', ''futex'', ''exit_group'',
     ''epoll_create1'', ''epoll_ctl'', ''epoll_wait'', ''getrandom'', ''statx'', ''fcntl'',
     ''getcwd'', ''getuid'', ''getgid'', ''geteuid'', ''getegid'', ''gettid'', ''lseek'']"

definition strict_python_blocked :: "string list" where
  "strict_python_blocked = [
     ''ptrace'', ''bpf'', ''init_module'', ''delete_module'', ''kexec_load'', ''pivot_root'',
     ''reboot'', ''chroot'', ''sysfs'', ''iopl'', ''ioperm'']"

definition strict_python_policy :: SecurityPolicy where
  "strict_python_policy =
     \<lparr>policy_name = ''strict_python'',
      syscall_rule = \<lparr>
        allowed_syscalls = insert_resolved strict_python_allowed [],
        blocked_syscalls = insert_resolved strict_python_blocked [],
        default_allow = False\<rparr>,
      network_rule = (network_rule new_SecurityPolicy)
        \<lparr>block_all_egress := False, block_cloud_metadata := True\<rparr>,
      max_execution_time_sec = 15\<rparr>"

definition register_default_strict_python_policy :: "(PolicyEngine, Status) action" where
  "register_default_strict_python_policy = register_policy strict_python_policy"

text \<open>The constructor, run on an empty registry and an empty trace.\<close>

definition new_PolicyEngine :: PolicyEngine where
  "new_PolicyEngine =
     fst (snd (register_default_strict_python_policy (\<lparr>pe_mutex = False, m_policies = []\<rparr>, [])))"

section \<open>Evaluation\<close>

definition eval_syscall :: "string \<Rightarrow> u32 \<Rightarrow> (PolicyEngine, bool) action" where
  "eval_syscall name syscall_nr = pe_locked (self (\<lambda>e.
     case map_of (m_policies e) name of
       None \<Rightarrow> False
     | Some p \<Rightarrow>
         let rule = syscall_rule p in
         if List.member (blocked_syscalls rule) syscall_nr then False
         else if List.member (allowed_syscalls rule) syscall_nr then True
         else default_allow rule))"

text \<open>
  \<open>inet_addr\<close> of a dotted quad on a little-endian machine: the first octet is the byte at the
  lowest address.
\<close>

definition inet_addr :: "nat \<Rightarrow> nat \<Rightarrow> nat \<Rightarrow> nat \<Rightarrow> u32" where
  "inet_addr a b c d = of_nat (a + 2 ^ 8 * b + 2 ^ 16 * c + 2 ^ 24 * d)"

definition metadata_ip :: u32 where
  "metadata_ip = inet_addr 169 254 169 254"

text \<open>The loop over the blocked addresses.\<close>

primrec ip_in_list :: "u32 \<Rightarrow> u32 list \<Rightarrow> bool" where
  "ip_in_list ip [] = False"
| "ip_in_list ip (blocked_ip # ips) = (if ip = blocked_ip then True else ip_in_list ip ips)"

definition eval_network_egress :: "string \<Rightarrow> u32 \<Rightarrow> (PolicyEngine, bool) action" where
  "eval_network_egress name ipv4_network_order = pe_locked (self (\<lambda>e.
     case map_of (m_policies e) name of
       None \<Rightarrow> False
     | Some p \<Rightarrow>
         let net_rule = network_rule p in
         if block_all_egress net_rule then False
         else if block_cloud_metadata net_rule \<and> ipv4_network_order = metadata_ip then False
         else if ip_in_list ipv4_network_order (blocked_ips_network_order net_rule) then False
         else True))"

lemmas policy_method_defs [method_defs] = load_from_yaml_def register_policy_def load_from_json_def
  get_policy_def register_default_strict_python_policy_def eval_syscall_def eval_network_egress_def


section \<open>Lookups and updates of the registry\<close>

interpretation pe: mutex_class pe_mutex "\<lambda>b. pe_mutex_update (\<lambda>_. b)"
  by unfold_locales simp_all

text \<open>What a policy stands for, and the registry as a partial function.\<close>

definition permits_syscall :: "SecurityPolicy \<Rightarrow> u32 \<Rightarrow> bool" where
  "permits_syscall p nr \<longleftrightarrow>
     nr \<notin> set (blocked_syscalls (syscall_rule p)) \<and>
     (nr \<in> set (allowed_syscalls (syscall_rule p)) \<or> default_allow (syscall_rule p))"

definition permits_egress :: "SecurityPolicy \<Rightarrow> u32 \<Rightarrow> bool" where
  "permits_egress p ip \<longleftrightarrow>
     \<not> block_all_egress (network_rule p) \<and>
     \<not> (block_cloud_metadata (network_rule p) \<and> ip = metadata_ip) \<and>
     ip \<notin> set (blocked_ips_network_order (network_rule p))"

abbreviation policies :: "PolicyEngine \<Rightarrow> string \<rightharpoonup> SecurityPolicy" where
  "policies e \<equiv> map_of (m_policies e)"

lemma ip_in_list_set [simp]: "ip_in_list ip ips \<longleftrightarrow> ip \<in> set ips"
  by (induction ips) auto

lemma policies_store [simp]: "policies (store_policy p e) = (policies e)(policy_name p \<mapsto> p)"
  by (rule ext) (simp add: store_policy_def um.find_insert)

lemma store_policy_mutex [simp]: "pe_mutex (store_policy p e) = pe_mutex e"
  by (simp add: store_policy_def)

lemma get_policy_run:
  "\<not> pe_mutex e \<Longrightarrow> get_policy name (e, t) = (Ret (policies e name), (e, t))"
  by (simp add: get_policy_def pe.guarded_reader)

lemma register_policy_run:
  "\<not> pe_mutex e \<Longrightarrow> register_policy p (e, t) = (Ret Success, (store_policy p e, t))"
  by (cases e) (simp add: register_policy_def guarded_def lock_guard_def seqM_def bindM_def
      assign_def retM_def store_policy_def)

lemma eval_syscall_run:
  "\<not> pe_mutex e \<Longrightarrow> eval_syscall name nr (e, t) =
     (Ret (case policies e name of None \<Rightarrow> False | Some p \<Rightarrow> permits_syscall p nr), (e, t))"
  by (auto simp: eval_syscall_def pe.guarded_reader permits_syscall_def Let_def split: option.split)

lemma eval_network_egress_run:
  "\<not> pe_mutex e \<Longrightarrow> eval_network_egress name ip (e, t) =
     (Ret (case policies e name of None \<Rightarrow> False | Some p \<Rightarrow> permits_egress p ip), (e, t))"
  by (auto simp: eval_network_egress_def pe.guarded_reader permits_egress_def Let_def
      split: option.split)

lemma new_PolicyEngine_eq:
  "new_PolicyEngine = \<lparr>pe_mutex = False, m_policies = [(''strict_python'', strict_python_policy)]\<rparr>"
  by (simp add: new_PolicyEngine_def register_default_strict_python_policy_def register_policy_run
      store_policy_def strict_python_policy_def)

lemma new_PolicyEngine_simps [simp]:
  "\<not> pe_mutex new_PolicyEngine"
  "policies new_PolicyEngine = [''strict_python'' \<mapsto> strict_python_policy]"
  by (simp_all add: new_PolicyEngine_eq)

section \<open>Names and numbers\<close>

lemma insert_resolved_set:
  "set (insert_resolved names S) = set S \<union> {nr. \<exists>n \<in> set names. resolve_syscall_name n = Some nr}"
  by (induction names arbitrary: S) (auto split: option.splits)

lemma insert_resolved_distinct: "distinct S \<Longrightarrow> distinct (insert_resolved names S)"
  by (induction names arbitrary: S) (auto split: option.splits)

lemma strict_python_blocked_numbers:
  "insert_resolved strict_python_blocked [] = [161, 169, 176, 175, 321, 101]"
  by code_simp

lemma strict_python_allowed_numbers:
  "insert_resolved strict_python_allowed [] =
    [8, 186, 108, 107, 104, 102, 79, 72, 332, 318, 232, 233, 291, 231, 202, 21, 16, 14, 13, 12, 11,
     10, 9, 5, 3, 257, 1, 0]"
  by code_simp


lemma syscall_table_sorted:
  "successively (<) (sort (map (\<lambda>p. uint (snd p)) s_syscall_name_map))"
  by code_simp

lemma syscall_table_numbers: "distinct (map snd s_syscall_name_map)"
proof -
  have "sorted_wrt (<) (sort (map (\<lambda>p. uint (snd p)) s_syscall_name_map))"
    using syscall_table_sorted by (simp add: successively_conv_sorted_wrt)
  then have "distinct (map (\<lambda>p. uint (snd p)) s_syscall_name_map)"
    by (metis distinct_sort strict_sorted_iff)
  then have "distinct (map uint (map snd s_syscall_name_map))"
    by (simp add: comp_def)
  then show ?thesis using distinct_map by blast
qed

lemma syscall_table_bound: "list_all (\<lambda>p. snd p < 512) s_syscall_name_map"
  by code_simp

lemma map_of_inj:
  assumes "distinct (map snd xs)" and "map_of xs a = Some v" and "map_of xs b = Some v"
  shows "a = b"
proof -
  have "inj_on snd (set xs)" using assms(1) by (simp add: distinct_map)
  moreover have "(a, v) \<in> set xs" "(b, v) \<in> set xs" using assms(2,3) by (simp_all add: map_of_SomeD)
  ultimately have "(a, v) = (b, v)"
    using inj_onD [of snd "set xs" "(a, v)" "(b, v)"] by simp
  then show ?thesis by simp
qed

section \<open>Reading a list from YAML\<close>

lemma not_space_colon [simp]: "\<not> is_space CHR '':''"
  by (simp add: is_space_def)

lemma not_space_bracket [simp]: "\<not> is_space CHR ''[''"
  by (simp add: is_space_def)

lemma first_key:
  assumes "\<forall>c \<in> set ws1. is_space c" and "\<forall>c \<in> set ws2. is_space c"
    and "v = [] \<or> \<not> is_space (hd v)" and "rx_first r (v, []) st"
  shows "rx_first (key_regex k r) (k @ ws1 @ CHR '':'' # ws2 @ v, []) st"
  unfolding key_regex_def
proof (rule first_Lit)
  have "rx_first (StarCls is_space) (ws1 @ CHR '':'' # ws2 @ v, []) (CHR '':'' # ws2 @ v, [])"
    using assms(1) by (intro first_Star_run) simp_all
  moreover have "rx_first (StarCls is_space) (ws2 @ v, []) (v, [])"
    using assms(2,3) by (rule first_Star_run)
  ultimately show "rx_first (Cat (StarCls is_space) (Cat (Chr CHR '':'') (Cat (StarCls is_space) r)))
      (ws1 @ CHR '':'' # ws2 @ v, []) st"
    using assms(4) by (blast intro: first_Cat first_Chr)
qed

lemma search_key:
  assumes "first_at k pre" and "k \<noteq> []"
    and "\<forall>c \<in> set ws1. is_space c" and "\<forall>c \<in> set ws2. is_space c"
    and "v = [] \<or> \<not> is_space (hd v)" and "rx_first r (v, []) st"
  shows "rx_search (key_regex k r) (pre @ k @ ws1 @ CHR '':'' # ws2 @ v) = Some st"
proof -
  have "rx_search (key_regex k r) (pre @ k @ ws1 @ CHR '':'' # ws2 @ v) =
      rx_search (key_regex k r) (k @ ws1 @ CHR '':'' # ws2 @ v)"
    unfolding key_regex_def using assms(1,2) by (rule rx_search_first)
  also have "\<dots> = Some st"
    by (rule rx_search_hit [OF first_key [OF assms(3-6)]])
  finally show ?thesis .
qed

text \<open>
  A flow list after the first occurrence of its key: the names are the maximal runs of word
  characters between the brackets.
\<close>

lemma yaml_names_flow:
  assumes "first_at k pre" and "k \<noteq> []"
    and "\<forall>c \<in> set ws1. is_space c" and "\<forall>c \<in> set ws2. is_space c"
    and "body \<noteq> []" and "CHR '']'' \<notin> set body"
  shows "yaml_names (list_regex k)
      (pre @ k @ ws1 @ CHR '':'' # ws2 @ CHR ''['' # body @ CHR '']'' # post) = word_runs body"
proof -
  have "rx_first (PlusCls (\<lambda>c. c \<noteq> CHR '']'')) (body @ CHR '']'' # post, []) (CHR '']'' # post, [])"
    using assms(5,6) by (intro first_Plus_run) auto
  then have "rx_first (Cap (PlusCls (\<lambda>c. c \<noteq> CHR '']''))) (body @ CHR '']'' # post, [])
      (CHR '']'' # post, body)"
    by (rule first_Cap)
  then have "rx_first (Cat (Chr CHR ''['') (Cat (Cap (PlusCls (\<lambda>c. c \<noteq> CHR '']''))) (Chr CHR '']'')))
      (CHR ''['' # body @ CHR '']'' # post, []) (post, body)"
    by (intro first_Cat [OF first_Chr] first_Cat [OF _ first_Chr])
  then have "rx_search (list_regex k)
      (pre @ k @ ws1 @ CHR '':'' # ws2 @ CHR ''['' # body @ CHR '']'' # post) = Some (post, body)"
    unfolding list_regex_def using assms(1-4) by (intro search_key) simp_all
  then show ?thesis by (simp add: yaml_names_def rx_captures_token)
qed

lemma yaml_names_none: "CHR ''['' \<notin> set content \<Longrightarrow> yaml_names (list_regex k) content = []"
  by (simp add: yaml_names_def list_regex_def key_regex_def Chr_def
      rx_search_needs [where c = "CHR ''[''"])

lemma parse_policy_Inr:
  "parse_policy p content = Inr pol \<Longrightarrow>
     allowed_syscalls (syscall_rule pol) = insert_resolved (yaml_names allowed_regex content) [] \<and>
     blocked_syscalls (syscall_rule pol) = insert_resolved (yaml_names blocked_regex content) [] \<and>
     \<not> default_allow (syscall_rule pol) \<and>
     blocked_ips_network_order (network_rule pol) = [] \<and>
     block_all_egress (network_rule pol) = yaml_bool block_net_regex content False \<and>
     block_cloud_metadata (network_rule pol) = yaml_bool block_meta_regex content True"
  by (auto simp: parse_policy_def Let_def new_SecurityPolicy_def
      split: option.splits sum.splits)


section \<open>Loading\<close>

lemma is_digit_not_space: "is_digit c \<Longrightarrow> \<not> is_space c"
  by (auto simp: is_digit_def is_space_def)

lemma search_timeout:
  assumes "first_at ''max_execution_time_sec'' pre"
    and "post = [] \<or> \<not> is_digit (hd post)"
  shows "rx_search timeout_regex (pre @ ''max_execution_time_sec: '' @ dec n @ post) = Some (post, dec n)"
proof -
  have "rx_first (PlusCls is_digit) (dec n @ post, []) (post, [])"
    using assms(2) dec_digits by (intro first_Plus_run) simp_all
  then have "rx_first (Cap (PlusCls is_digit)) (dec n @ post, []) (post, dec n)"
    by (rule first_Cap)
  moreover have "\<not> is_space (hd (dec n @ post))"
    using dec_digits [of "hd (dec n)" n] by (simp add: is_digit_not_space)
  ultimately show ?thesis
    using search_key [of "''max_execution_time_sec''" pre "[]" "'' ''" "dec n @ post"] assms(1)
    by (simp add: timeout_regex_def is_space_def)
qed

lemma parse_policy_timeout:
  assumes "rx_search timeout_regex content = Some (r, dec n)"
  shows "case parse_policy p content of
      Inl ex \<Rightarrow> ex = OutOfRange \<and> 2 ^ 64 \<le> n
    | Inr pol \<Rightarrow> n < 2 ^ 64 \<and> unat (max_execution_time_sec pol) = n mod 2 ^ 32"
proof -
  have "unat (ucast (of_nat n :: u64) :: u32) = n mod 2 ^ 32"
    by (simp add: unsigned_ucast_eq unat_of_nat take_bit_eq_mod mod_mod_cancel)
  moreover have "int n < 2 ^ 64 \<longleftrightarrow> n < 2 ^ 64"
    by (metis of_nat_less_iff of_nat_numeral of_nat_power)
  ultimately show ?thesis
    using assms by (simp add: parse_policy_def Let_def stoul_def)
qed

lemma load_from_yaml_run:
  assumes "\<not> pe_mutex e" and "e_exists E t p = FsYes"
    and "e_ifs_read E (t @ [Exists p FsYes]) p = Some content"
  shows "load_from_yaml E p (e, t) =
    (case parse_policy p content of
       Inl ex \<Rightarrow> (Throw ex, (e, t @ [Exists p FsYes, IfsRead p (Some content)]))
     | Inr pol \<Rightarrow> (Ret Success, (store_policy pol e, t @ [Exists p FsYes, IfsRead p (Some content)])))"
  using assms
  by (cases e) (simp add: load_from_yaml_def guarded_def lock_guard_def bindM_def seqM_def sys_def
      fs_exists_def assign_def retM_def throwM_def store_policy_def split: sum.split)

lemma dashed_doc_parses: "\<not> isl (parse_policy ''p.yaml'' ''blocked_sys_calls: - ptrace'')"
  by code_simp

section \<open>Properties\<close>

lemma small_doc_parses:
  "\<not> isl (parse_policy ''p.yaml'' ''blocked_sys_calls: [execve, no_such]'')"
  by code_simp

text \<open>The policy file of the unit test of the engine.\<close>

definition test_yaml :: string where
  "test_yaml =
     ''policy_name: '' @ [quote] @ ''test_custom'' @ [quote] @ ''\<newline>'' @
     ''max_execution_time_sec: 10\<newline>'' @
     ''network_rules:\<newline>'' @
     ''  block_all_network_egress: true\<newline>'' @
     ''  block_cloud_metadata_ips: true\<newline>'' @
     ''syscall_rules:\<newline>'' @
     ''  default_mode: '' @ [quote] @ ''strict_whitelist'' @ [quote] @ ''\<newline>'' @
     ''  allowed_sys_calls: ['' @ [quote] @ ''read'' @ [quote] @ '', '' @ [quote] @ ''write'' @ [quote] @ '']\<newline>'' @
     ''  blocked_sys_calls: ['' @ [quote] @ ''execve'' @ [quote] @ '']\<newline>''"

lemma test_yaml_parses:
  "parse_policy ''test_custom_policy.yaml'' test_yaml = Inr
    \<lparr>policy_name = ''test_custom'',
     syscall_rule = \<lparr>allowed_syscalls = [1, 0], blocked_syscalls = [59], default_allow = False\<rparr>,
     network_rule = \<lparr>block_all_egress = True, block_cloud_metadata = True,
       blocked_cidrs = [], blocked_ips_network_order = []\<rparr>,
     max_execution_time_sec = 10\<rparr>"
  by code_simp


text \<open>
  C14: Evaluating a system call after a policy was registered. Under the registered name the block
  list wins over the allow list, the allow list over the default mode; under every other name the
  verdict is the one the engine gave before, and an unknown name is denied. The engine is left
  with the new policy and a free mutex.
\<close>

theorem register_then_eval_syscall:
  assumes "\<not> pe_mutex e"
  shows "bindM (register_policy p) (\<lambda>_. eval_syscall name nr) (e, t) =
    (Ret (if name = policy_name p
          then nr \<notin> set (blocked_syscalls (syscall_rule p)) \<and>
            (nr \<in> set (allowed_syscalls (syscall_rule p)) \<or> default_allow (syscall_rule p))
          else eval_syscall name nr (e, t) = (Ret True, (e, t))),
     (store_policy p e, t))"
  using assms
  by (simp add: bindM_def register_policy_run eval_syscall_run permits_syscall_def)

theorem register_then_eval_syscall_witness:
  "\<not> pe_mutex new_PolicyEngine \<and>
   bindM (register_policy new_SecurityPolicy) (\<lambda>_. eval_syscall [] 59) (new_PolicyEngine, []) =
     (Ret False, (store_policy new_SecurityPolicy new_PolicyEngine, []))"
  using register_then_eval_syscall [of new_PolicyEngine new_SecurityPolicy "[]" 59 "[]"]
  by (simp add: new_SecurityPolicy_def)



text \<open>
  The engine a program starts with decides every system call number under
  \<open>strict_python\<close>: exactly these 28 are permitted. \<open>execve\<close> (59) is not among them, and
  neither are \<open>ptrace\<close>, \<open>bpf\<close>, \<open>init_module\<close>, \<open>reboot\<close> or \<open>kexec_load\<close>.
\<close>

theorem strict_python_verdicts:
  "eval_syscall ''strict_python'' nr (new_PolicyEngine, t) =
    (Ret (nr \<in> {0, 1, 3, 5, 8, 9, 10, 11, 12, 13, 14, 16, 21, 72, 79, 102, 104, 107, 108, 186, 202,
        231, 232, 233, 257, 291, 318, 332}), (new_PolicyEngine, t))"
  by (auto simp: eval_syscall_run permits_syscall_def strict_python_policy_def
      strict_python_allowed_numbers strict_python_blocked_numbers)

text \<open>
  What becomes of the list of explicitly blocked system calls of the built-in policy. The
  translation table knows six of the eleven names; the other five are dropped, so the block list
  does not hold \<open>kexec_load\<close>, \<open>pivot_root\<close>, \<open>sysfs\<close>, \<open>iopl\<close> and \<open>ioperm\<close>.
\<close>

theorem strict_python_block_list:
  "set (blocked_syscalls (syscall_rule strict_python_policy)) = {101, 321, 175, 176, 169, 161} \<and>
   filter (\<lambda>n. resolve_syscall_name n = None) strict_python_blocked =
     [''kexec_load'', ''pivot_root'', ''sysfs'', ''iopl'', ''ioperm'']"
proof
  show "set (blocked_syscalls (syscall_rule strict_python_policy)) = {101, 321, 175, 176, 169, 161}"
    by (auto simp: strict_python_policy_def strict_python_blocked_numbers)
  show "filter (\<lambda>n. resolve_syscall_name n = None) strict_python_blocked =
     [''kexec_load'', ''pivot_root'', ''sysfs'', ''iopl'', ''ioperm'']"
    by code_simp
qed



text \<open>
  C38: Reading the block list of a YAML file written with a flow list. When the key is followed by a
  bracketed list at its first occurrence, the policy blocks exactly the numbers of the known names
  among the runs of letters, digits and underscores between the brackets.
\<close>

theorem yaml_flow_block_list:
  assumes "first_at ''blocked_sys_calls'' pre" and "\<forall>c \<in> set ws. is_space c"
    and "body \<noteq> []" and "CHR '']'' \<notin> set body"
    and "parse_policy p (pre @ ''blocked_sys_calls:'' @ ws @ ''['' @ body @ '']'' @ post) = Inr pol"
  shows "set (blocked_syscalls (syscall_rule pol)) =
    {nr. \<exists>n \<in> set (word_runs body). resolve_syscall_name n = Some nr}"
proof -
  have "yaml_names blocked_regex (pre @ ''blocked_sys_calls:'' @ ws @ ''['' @ body @ '']'' @ post) =
      word_runs body"
    using yaml_names_flow [of "''blocked_sys_calls''" pre "[]" ws body post] assms(1-4)
    by (simp add: blocked_regex_def)
  with parse_policy_Inr [OF assms(5)] show ?thesis by (simp add: insert_resolved_set)
qed

theorem yaml_flow_block_list_witness:
  "\<exists>pol. parse_policy ''p.yaml'' ''blocked_sys_calls: [execve, no_such]'' = Inr pol \<and>
     set (blocked_syscalls (syscall_rule pol)) = {59}"
proof -
  let ?c = "''blocked_sys_calls: [execve, no_such]''"
  obtain pol where pol: "parse_policy ''p.yaml'' ?c = Inr pol"
    by (cases "parse_policy ''p.yaml'' ?c") (use small_doc_parses in simp_all)
  have runs: "word_runs ''execve, no_such'' = [''execve'', ''no_such'']" by code_simp
  have res: "resolve_syscall_name ''execve'' = Some 59" "resolve_syscall_name ''no_such'' = None"
    by code_simp+
  have "set (blocked_syscalls (syscall_rule pol)) =
    {nr. \<exists>n \<in> set (word_runs ''execve, no_such''). resolve_syscall_name n = Some nr}"
    using yaml_flow_block_list [of "[]" "'' ''" "''execve, no_such''" "''p.yaml''" "[]" pol] pol
    by (simp add: first_at_def is_space_def)
  then show ?thesis using pol by (auto simp: runs res)
qed

text \<open>
  A YAML file without an opening bracket, such as one that writes its lists as dashed lines,
  yields a policy with no system call rules at all: nothing is allowed and nothing is blocked.
\<close>

theorem yaml_block_style_lists_ignored:
  assumes "CHR ''['' \<notin> set content" and "parse_policy p content = Inr pol"
  shows "allowed_syscalls (syscall_rule pol) = [] \<and> blocked_syscalls (syscall_rule pol) = []"
  using parse_policy_Inr [OF assms(2)] assms(1)
  by (simp add: yaml_names_none allowed_regex_def blocked_regex_def)


theorem yaml_block_style_lists_ignored_witness:
  "\<exists>pol. parse_policy ''p.yaml'' ''blocked_sys_calls: - ptrace'' = Inr pol \<and>
     CHR ''['' \<notin> set ''blocked_sys_calls: - ptrace'' \<and>
     allowed_syscalls (syscall_rule pol) = [] \<and> blocked_syscalls (syscall_rule pol) = []"
proof -
  let ?c = "''blocked_sys_calls: - ptrace''"
  have h: "CHR ''['' \<notin> set ?c" by simp
  obtain pol where pol: "parse_policy ''p.yaml'' ?c = Inr pol"
    by (cases "parse_policy ''p.yaml'' ?c") (use dashed_doc_parses in simp_all)
  show ?thesis using h pol yaml_block_style_lists_ignored [OF h pol] by blast
qed

text \<open>
  The execution time limit of a YAML file: a number of up to 64 bits is cut to its low 32 bits,
  and a larger one makes the loader throw.
\<close>

theorem yaml_timeout:
  assumes "first_at ''max_execution_time_sec'' pre"
    and "post = [] \<or> \<not> is_digit (hd post)"
  shows "case parse_policy p (pre @ ''max_execution_time_sec: '' @ dec n @ post) of
      Inl ex \<Rightarrow> ex = OutOfRange \<and> 2 ^ 64 \<le> n
    | Inr pol \<Rightarrow> n < 2 ^ 64 \<and> unat (max_execution_time_sec pol) = n mod 2 ^ 32"
  using search_timeout [OF assms, of n] by (rule parse_policy_timeout)

theorem yaml_timeout_witness:
  "case parse_policy ''p'' (''max_execution_time_sec: '' @ dec 4294967311 @ ''\<newline>'') of
      Inl ex \<Rightarrow> False | Inr pol \<Rightarrow> max_execution_time_sec pol = 15"
proof -
  have "case parse_policy ''p'' (''max_execution_time_sec: '' @ dec 4294967311 @ ''\<newline>'') of
      Inl ex \<Rightarrow> False | Inr pol \<Rightarrow> unat (max_execution_time_sec pol) = 15"
    using yaml_timeout [where pre = "[]" and post = "''\<newline>''" and p = "''p''" and n = 4294967311]
    by (auto simp: first_at_def is_digit_def split: sum.splits)
  then show ?thesis
    by (auto simp: word_unat_eq_iff split: sum.splits)
qed

end
