(* ===== verification/Shipped_Policy.thy ===== *)
theory Shipped_Policy
  imports Policy_Engine
begin

text \<open>
  The policy file \<open>policy/strict_python.yaml\<close> as data, and what the loader of
  \<open>src/policy/policy_engine.cpp\<close> makes of it.
\<close>

text \<open>The lines before the name, the name, the description, the time limit and the rest.\<close>

definition shipped_head :: string where
  \<open>shipped_head = concat [
     ''# policy/strict_python.yaml\<newline>'',
     ''# Production Security Policy for Python 3.11 AI Agent Execution in aegis-sandbox\<newline>'',
     ''# Author: Kamran Saberifard\<newline>'',
     ''# License: Apache 2.0\<newline>'',
     ''\<newline>'']\<close>

definition shipped_description :: string where
  \<open>shipped_description = concat [
     ''description: "Strict whitelisting policy for Python 3.11 AI agents. Blocks kernel manipulation, debugging, and cloud metadata exfiltration."\<newline>'']\<close>

definition shipped_rules :: string where
  \<open>shipped_rules = concat [
     ''\<newline>'',
     ''\<newline>'',
     ''# ------------------------------------------------------------------------------\<newline>'',
     ''# 1. Network Egress Rules (Anti-SSRF Protection)\<newline>'',
     ''# ------------------------------------------------------------------------------\<newline>'',
     ''network_rules:\<newline>'',
     ''  block_all_network_egress: false\<newline>'',
     ''  block_cloud_metadata_ips: true # Drops connections to 169.254.169.254\<newline>'',
     ''  \<newline>'',
     ''  blocked_cidrs:\<newline>'',
     ''    - "169.254.169.254/32"  # AWS / Azure / GCP Metadata Instance IP\<newline>'',
     ''    - "10.0.0.0/8"          # RFC 1918 Private Subnet\<newline>'',
     ''    - "172.16.0.0/12"       # RFC 1918 Private Subnet\<newline>'',
     ''    - "192.168.0.0/16"      # RFC 1918 Private Subnet\<newline>'',
     ''\<newline>'',
     ''# ------------------------------------------------------------------------------\<newline>'',
     ''# 2. Linux System Call Rules (x86_64 eBPF Kernel Policy)\<newline>'',
     ''# ------------------------------------------------------------------------------\<newline>'',
     ''syscall_rules:\<newline>'',
     ''  default_mode: "strict_whitelist" # Deny any syscall not explicitly whitelisted\<newline>'',
     ''\<newline>'',
     ''  # Whitelisted Syscalls required for Python 3.11 execution\<newline>'',
     ''  allowed_sys_calls:\<newline>'',
     ''    # Memory Management & File I/O\<newline>'',
     ''    - "read"\<newline>'',
     ''    - "write"\<newline>'',
     ''    - "openat"\<newline>'',
     ''    - "close"\<newline>'',
     ''    - "fstat"\<newline>'',
     ''    - "lseek"\<newline>'',
     ''    - "mmap"\<newline>'',
     ''    - "mprotect"\<newline>'',
     ''    - "munmap"\<newline>'',
     ''    - "brk"\<newline>'',
     ''    - "fcntl"\<newline>'',
     ''    - "getcwd"\<newline>'',
     ''    - "chdir"\<newline>'',
     ''    - "statx"\<newline>'',
     ''    - "access"\<newline>'',
     ''\<newline>'',
     ''    # Signal Handling & Process Execution\<newline>'',
     ''    - "rt_sigaction"\<newline>'',
     ''    - "rt_sigprocmask"\<newline>'',
     ''    - "sigaltstack"\<newline>'',
     ''    - "ioctl"\<newline>'',
     ''    - "futex"\<newline>'',
     ''    - "exit_group"\<newline>'',
     ''    - "exit"\<newline>'',
     ''    - "getrandom"\<newline>'',
     ''\<newline>'',
     ''    # Process Identity & Threading\<newline>'',
     ''    - "getuid"\<newline>'',
     ''    - "getgid"\<newline>'',
     ''    - "geteuid"\<newline>'',
     ''    - "getegid"\<newline>'',
     ''    - "getpid"\<newline>'',
     ''    - "getppid"\<newline>'',
     ''    - "gettid"\<newline>'',
     ''\<newline>'',
     ''    # I/O Multiplexing & Networking\<newline>'',
     ''    - "epoll_create1"\<newline>'',
     ''    - "epoll_ctl"\<newline>'',
     ''    - "epoll_wait"\<newline>'',
     ''    - "poll"\<newline>'',
     ''    - "select"\<newline>'',
     ''    - "pselect6"\<newline>'',
     ''    - "socket"\<newline>'',
     ''    - "connect"\<newline>'',
     ''    - "recvfrom"\<newline>'',
     ''    - "sendto"\<newline>'',
     ''    - "getsockopt"\<newline>'',
     ''    - "setsockopt"\<newline>'',
     ''\<newline>'',
     ''  # Explicitly Blocked High-Risk Syscalls (Triggers eBPF SIGKILL)\<newline>'',
     ''  blocked_sys_calls:\<newline>'',
     ''    - "ptrace"            # Prevent process memory injection & debugging\<newline>'',
     ''    - "bpf"               # Prevent eBPF map/program manipulation from inside microVM\<newline>'',
     ''    - "init_module"       # Block kernel module loading\<newline>'',
     ''    - "finit_module"      # Block kernel module loading from FD\<newline>'',
     ''    - "delete_module"     # Block kernel module unloading\<newline>'',
     ''    - "kexec_load"        # Block kernel replacement\<newline>'',
     ''    - "kexec_file_load"   # Block kernel replacement\<newline>'',
     ''    - "pivot_root"        # Prevent filesystem root escapes\<newline>'',
     ''    - "chroot"            # Prevent directory escapes\<newline>'',
     ''    - "reboot"            # Block microVM reboot command\<newline>'',
     ''    - "sysfs"             # Block direct kernel sysfs inspection\<newline>'',
     ''    - "iopl"              # Block hardware port I/O access\<newline>'',
     ''    - "ioperm"            # Block hardware port permission alteration'']\<close>

definition strict_python_yaml :: string where
  "strict_python_yaml =
     shipped_head @ ''policy_name: '' @ quote # ''strict_python'' @ quote # ''\<newline>'' @
     shipped_description @ ''max_execution_time_sec: 15'' @ shipped_rules"

lemma no_bracket_head: "CHR ''['' \<notin> set (shipped_head @ shipped_description)"
  by (simp add: shipped_head_def shipped_description_def)

lemma no_bracket_rules: "CHR ''['' \<notin> set shipped_rules"
  by (simp add: shipped_rules_def)

lemma no_bracket: "CHR ''['' \<notin> set strict_python_yaml"
  using no_bracket_head no_bracket_rules by (simp add: strict_python_yaml_def quote_def)

lemma shipped_name: "\<exists>r. rx_search name_regex strict_python_yaml = Some (r, ''strict_python'')"
proof -
  let ?post = "quote # ''\<newline>'' @ shipped_description @ ''max_execution_time_sec: 15'' @ shipped_rules"
  have "rx_first (PlusCls is_name_char) (''strict_python'' @ ?post, []) (?post, [])"
    by (rule first_Plus_run) (simp_all add: is_name_char_def is_alnum_def is_digit_def quote_def)
  then have "rx_first (Cap (PlusCls is_name_char)) (''strict_python'' @ ?post, []) (?post, ''strict_python'')"
    by (rule first_Cap)
  then have "rx_first (Cat (OptCls (\<lambda>c. c = quote)) (Cat (Cap (PlusCls is_name_char)) (OptCls (\<lambda>c. c = quote))))
      (quote # ''strict_python'' @ ?post, []) (tl ?post, ''strict_python'')"
    by (intro first_Cat [OF first_Opt_hit] first_Cat [OF _ first_Opt_hit]) simp_all
  then have "rx_search name_regex (shipped_head @ ''policy_name'' @ [] @ CHR '':'' # '' '' @
      quote # ''strict_python'' @ ?post) = Some (tl ?post, ''strict_python'')"
    unfolding name_regex_def
    by (intro search_key) (simp_all add: shipped_head_def first_at_def is_space_def quote_def)
  then show ?thesis by (simp add: strict_python_yaml_def)
qed

lemma shipped_timeout:
  "rx_search timeout_regex strict_python_yaml = Some (shipped_rules, dec 15)"
proof -
  have "first_at ''max_execution_time_sec''
      (shipped_head @ ''policy_name: '' @ quote # ''strict_python'' @ quote # ''\<newline>'' @ shipped_description)"
    by (simp add: first_at_def shipped_head_def shipped_description_def quote_def)
  moreover have "\<not> is_digit (hd shipped_rules)"
    by (simp add: shipped_rules_def is_digit_def)
  moreover have "dec 15 = ''15''" by code_simp
  ultimately show ?thesis
    using search_timeout [where n = 15 and post = shipped_rules] by (fastforce simp: strict_python_yaml_def)
qed

lemma parse_shipped_policy:
  "\<exists>pol. parse_policy p strict_python_yaml = Inr pol \<and>
    policy_name pol = ''strict_python'' \<and> max_execution_time_sec pol = 15 \<and>
    allowed_syscalls (syscall_rule pol) = [] \<and> blocked_syscalls (syscall_rule pol) = []"
proof -
  have "stoul (dec 15) = Inr 15" by (simp add: stoul_def)
  then show ?thesis
    using shipped_name shipped_timeout yaml_names_none [OF no_bracket]
    by (auto simp: parse_policy_def Let_def new_SecurityPolicy_def allowed_regex_def blocked_regex_def)
qed

text \<open>
  C40: Loading the policy file that ships with the program. The call succeeds and replaces the
  policy \<open>strict_python\<close> by one whose allow list and block list are both empty.
\<close>

theorem load_shipped_policy:
  assumes "\<not> pe_mutex e" and "e_exists E t p = FsYes"
    and "e_ifs_read E (t @ [Exists p FsYes]) p = Some strict_python_yaml"
  shows "\<exists>pol. load_from_yaml E p (e, t) =
      (Ret Success, (store_policy pol e, t @ [Exists p FsYes, IfsRead p (Some strict_python_yaml)])) \<and>
    policy_name pol = ''strict_python'' \<and> max_execution_time_sec pol = 15 \<and>
    allowed_syscalls (syscall_rule pol) = [] \<and> blocked_syscalls (syscall_rule pol) = []"
  using load_from_yaml_run [OF assms] parse_shipped_policy [of p] by auto

theorem load_shipped_policy_witness:
  "\<exists>pol. load_from_yaml (good_env\<lparr>e_ifs_read := (\<lambda>t p. Some strict_python_yaml)\<rparr>) ''p'' (new_PolicyEngine, []) =
      (Ret Success, (store_policy pol new_PolicyEngine,
        [Exists ''p'' FsYes, IfsRead ''p'' (Some strict_python_yaml)])) \<and>
    policy_name pol = ''strict_python'' \<and> max_execution_time_sec pol = 15 \<and>
    allowed_syscalls (syscall_rule pol) = [] \<and> blocked_syscalls (syscall_rule pol) = []"
  using load_shipped_policy [of new_PolicyEngine
      "good_env\<lparr>e_ifs_read := (\<lambda>t p. Some strict_python_yaml)\<rparr>" "[]" "''p''"]
  by (simp add: good_env_def)

end
