(* ===== verification/Kernel_Probes.thy ===== *)
theory Kernel_Probes
  imports Aegis_Core
begin

text \<open>
  The maps and the three BPF programs: \<open>ebpf/sys_filter.bpf.c\<close>, \<open>ebpf/net_filter.bpf.c\<close> and
  \<open>ebpf/process_monitor.bpf.c\<close>. A program runs to completion on one event; its inputs are what
  the kernel helpers return (\<open>kernel_ctx\<close>) and the contents of the maps, its effects are the
  return value, the records it submits to its ring buffer and the signals it sends to the current
  task. A record that could not be reserved is a failed \<open>bpf_ringbuf_reserve\<close>.
\<close>

section \<open>Helpers\<close>

text \<open>
  \<open>k_comm\<close> is the array \<open>bpf_get_current_comm\<close> fills; \<open>k_read_user_str buf p\<close> is the buffer
  after \<open>bpf_probe_read_user_str\<close>, and \<open>k_filename_buf\<close> what the reserved memory held before.
  \<open>k_reread\<close> is what a byte of a record is read as after the record was submitted.
  \<open>k_ntohs\<close> and \<open>k_hltonl\<close> stand for \<open>bpf_ntohs\<close> and for the identifier \<open>bpf_hltonl\<close> the
  network filter calls, which is not defined in the repository.
\<close>

record kernel_ctx =
  k_cgroup_id :: u64
  k_pid_tgid :: u64
  k_uid_gid :: u64
  k_time_ns :: u64
  k_comm :: "u8 list"
  k_parent_tgid :: u32
  k_reserve :: bool
  k_read_user_str :: "u8 list \<Rightarrow> u64 \<Rightarrow> u8 list"
  k_filename_buf :: "u8 list"
  k_reread :: "u8 \<Rightarrow> u8"
  k_ntohs :: "u16 \<Rightarrow> u16"
  k_hltonl :: "u32 \<Rightarrow> u32"

definition SIGKILL :: nat where
  "SIGKILL = 9"

record 'e probe_effect =
  ret_value :: int
  submitted :: "'e list"
  signals :: "nat list"

section \<open>Maps\<close>

text \<open>The declarations of the maps, with the sizes of keys and values in bytes.\<close>

datatype bpf_map_type = BPF_MAP_TYPE_HASH | BPF_MAP_TYPE_ARRAY | BPF_MAP_TYPE_RINGBUF

record bpf_map_def =
  map_name :: string
  map_type :: bpf_map_type
  max_entries :: nat
  key_size :: nat
  value_size :: nat

definition aegis_monitored_cgroups_map :: bpf_map_def where
  "aegis_monitored_cgroups_map = \<lparr>map_name = ''aegis_monitored_cgroups'', map_type = BPF_MAP_TYPE_HASH,
     max_entries = 1024, key_size = 8, value_size = 1\<rparr>"

definition aegis_syscall_policy_map :: bpf_map_def where
  "aegis_syscall_policy_map = \<lparr>map_name = ''aegis_syscall_policy'', map_type = BPF_MAP_TYPE_ARRAY,
     max_entries = 512, key_size = 4, value_size = 1\<rparr>"

definition aegis_security_events_map :: bpf_map_def where
  "aegis_security_events_map = \<lparr>map_name = ''aegis_security_events'', map_type = BPF_MAP_TYPE_RINGBUF,
     max_entries = 256 * 1024, key_size = 0, value_size = 0\<rparr>"

definition aegis_blocked_ips_map :: bpf_map_def where
  "aegis_blocked_ips_map = \<lparr>map_name = ''aegis_blocked_ips'', map_type = BPF_MAP_TYPE_HASH,
     max_entries = 4096, key_size = 4, value_size = 1\<rparr>"

definition aegis_net_events_map :: bpf_map_def where
  "aegis_net_events_map = \<lparr>map_name = ''aegis_net_events'', map_type = BPF_MAP_TYPE_RINGBUF,
     max_entries = 256 * 1024, key_size = 0, value_size = 0\<rparr>"

definition aegis_monitored_cgroups_proc_map :: bpf_map_def where
  "aegis_monitored_cgroups_proc_map = \<lparr>map_name = ''aegis_monitored_cgroups_proc'', map_type = BPF_MAP_TYPE_HASH,
     max_entries = 1024, key_size = 8, value_size = 1\<rparr>"

definition aegis_process_events_map :: bpf_map_def where
  "aegis_process_events_map = \<lparr>map_name = ''aegis_process_events'', map_type = BPF_MAP_TYPE_RINGBUF,
     max_entries = 256 * 1024, key_size = 0, value_size = 0\<rparr>"

text \<open>Each source file is compiled to an object of its own, with the maps it declares.\<close>

datatype bpf_source = Sys_Filter | Net_Filter | Process_Monitor

fun object_maps :: "bpf_source \<Rightarrow> bpf_map_def list" where
  "object_maps Sys_Filter = [aegis_monitored_cgroups_map, aegis_syscall_policy_map, aegis_security_events_map]"
| "object_maps Net_Filter = [aegis_blocked_ips_map, aegis_net_events_map]"
| "object_maps Process_Monitor = [aegis_monitored_cgroups_proc_map, aegis_process_events_map]"

lemmas map_defs = aegis_monitored_cgroups_map_def aegis_syscall_policy_map_def aegis_security_events_map_def
  aegis_blocked_ips_map_def aegis_net_events_map_def aegis_monitored_cgroups_proc_map_def aegis_process_events_map_def

section \<open>System call filter\<close>

record security_event =
  se_timestamp_ns :: u64
  se_pid :: u32
  se_tgid :: u32
  se_cgroup_id :: u32
  se_syscall_nr :: u32
  se_comm :: "u8 list"
  se_action_taken :: u8

text \<open>\<open>id\<close> is the \<open>long\<close> of the tracepoint; it is cut to 32 bits.\<close>

definition handle_sys_enter ::
    "kernel_ctx \<Rightarrow> (u64 \<rightharpoonup> u8) \<Rightarrow> (u32 \<rightharpoonup> u8) \<Rightarrow> u64 \<Rightarrow> security_event probe_effect" where
  "handle_sys_enter K aegis_monitored_cgroups aegis_syscall_policy ctx_id =
     (let cgroup_id = k_cgroup_id K;
          skip = \<lparr>ret_value = 0, submitted = [], signals = []\<rparr> in
      case aegis_monitored_cgroups cgroup_id of
        None \<Rightarrow> skip
      | Some is_monitored \<Rightarrow>
          if is_monitored = 0 then skip
          else let syscall_nr = (ucast ctx_id :: u32) in
            case aegis_syscall_policy syscall_nr of
              None \<Rightarrow> skip
            | Some policy_action \<Rightarrow>
                if policy_action = 1
                then \<lparr>ret_value = 0,
                   submitted = (if k_reserve K then
                     [\<lparr>se_timestamp_ns = k_time_ns K,
                       se_pid = ucast (drop_bit 32 (k_pid_tgid K)),
                       se_tgid = ucast (k_pid_tgid K),
                       se_cgroup_id = ucast cgroup_id,
                       se_syscall_nr = syscall_nr,
                       se_comm = k_comm K,
                       se_action_taken = 1\<rparr>] else []),
                   signals = [SIGKILL]\<rparr>
                else skip)"

section \<open>Network filter\<close>

record net_security_event =
  ne_timestamp_ns :: u64
  ne_pid :: u32
  ne_tgid :: u32
  ne_cgroup_id :: u32
  ne_dst_ip :: u32
  ne_dst_port :: u16
  ne_proto :: u8
  ne_action_taken :: u8
  ne_comm :: "u8 list"

record bpf_sock_addr =
  sa_family :: u32
  user_ip4 :: u32
  user_port :: u32
  sa_protocol :: u32

definition AF_INET :: u32 where
  "AF_INET = 2"

definition aegis_cgroup_connect4 ::
    "kernel_ctx \<Rightarrow> (u32 \<rightharpoonup> u8) \<Rightarrow> bpf_sock_addr \<Rightarrow> net_security_event probe_effect" where
  "aegis_cgroup_connect4 K aegis_blocked_ips ctx =
     (if sa_family ctx \<noteq> AF_INET then \<lparr>ret_value = 1, submitted = [], signals = []\<rparr>
      else let dst_ip = user_ip4 ctx;
               dst_port = k_ntohs K (ucast (user_port ctx));
               metadata_ip = k_hltonl K 0xA9FEA9FE;
               is_blocked = (if dst_ip = metadata_ip then True
                 else case aegis_blocked_ips dst_ip of None \<Rightarrow> False | Some policy \<Rightarrow> policy = 1) in
        if is_blocked
        then \<lparr>ret_value = 0,
           submitted = (if k_reserve K then
             [\<lparr>ne_timestamp_ns = k_time_ns K,
               ne_pid = ucast (drop_bit 32 (k_pid_tgid K)),
               ne_tgid = ucast (k_pid_tgid K),
               ne_cgroup_id = ucast (k_cgroup_id K),
               ne_dst_ip = dst_ip,
               ne_dst_port = dst_port,
               ne_proto = ucast (sa_protocol ctx),
               ne_action_taken = 1,
               ne_comm = k_comm K\<rparr>] else []),
           signals = []\<rparr>
        else \<lparr>ret_value = 1, submitted = [], signals = []\<rparr>)"

section \<open>Process monitor\<close>

record process_exec_event =
  xe_timestamp_ns :: u64
  xe_pid :: u32
  xe_tgid :: u32
  xe_ppid :: u32
  xe_cgroup_id :: u32
  xe_uid :: u32
  xe_gid :: u32
  xe_is_privilege_escalation :: u8
  xe_action_taken :: u8
  xe_comm :: "u8 list"
  xe_filename :: "u8 list"

text \<open>A filename pointer of 0 is null.\<close>

definition handle_execve_enter ::
    "kernel_ctx \<Rightarrow> (u64 \<rightharpoonup> u8) \<Rightarrow> u64 \<Rightarrow> process_exec_event probe_effect" where
  "handle_execve_enter K aegis_monitored_cgroups_proc ctx_filename =
     (let cgroup_id = k_cgroup_id K;
          skip = \<lparr>ret_value = 0, submitted = [], signals = []\<rparr> in
      case aegis_monitored_cgroups_proc cgroup_id of
        None \<Rightarrow> skip
      | Some is_monitored \<Rightarrow>
          if is_monitored = 0 then skip
          else if \<not> k_reserve K then skip
          else let uid = (ucast (k_uid_gid K) :: u32);
                   escalation = (if uid = 0 then 1 else 0 :: u8);
                   event = \<lparr>xe_timestamp_ns = k_time_ns K,
                     xe_pid = ucast (drop_bit 32 (k_pid_tgid K)),
                     xe_tgid = ucast (k_pid_tgid K),
                     xe_ppid = k_parent_tgid K,
                     xe_cgroup_id = ucast cgroup_id,
                     xe_uid = uid,
                     xe_gid = ucast (drop_bit 32 (k_uid_gid K)),
                     xe_is_privilege_escalation = escalation,
                     xe_action_taken = (if uid = 0 then 1 else 0),
                     xe_comm = k_comm K,
                     xe_filename = (if ctx_filename \<noteq> 0
                       then k_read_user_str K (k_filename_buf K) ctx_filename
                       else (k_filename_buf K)[0 := 0])\<rparr> in
            \<lparr>ret_value = 0, submitted = [event],
             signals = (if k_reread K (xe_is_privilege_escalation event) \<noteq> 0 then [SIGKILL] else [])\<rparr>)"

section \<open>Verdicts\<close>

text \<open>
  The decisions, apart from the records: a task is killed at a system call, a connection is
  refused, a task is killed at \<open>execve\<close>.
\<close>

definition byte_swap32 :: "u32 \<Rightarrow> u32" where
  "byte_swap32 w = of_nat (
     unat w div 2 ^ 24 + unat w div 2 ^ 16 mod 2 ^ 8 * 2 ^ 8 +
     unat w div 2 ^ 8 mod 2 ^ 8 * 2 ^ 16 + unat w mod 2 ^ 8 * 2 ^ 24)"

definition example_ctx :: kernel_ctx where
  "example_ctx = \<lparr>k_cgroup_id = 77, k_pid_tgid = 0x0000109200001093, k_uid_gid = 0, k_time_ns = 5,
     k_comm = [112, 121, 0, 0, 0, 0, 0, 0, 0, 0, 0, 0, 0, 0, 0, 0], k_parent_tgid = 1,
     k_reserve = True, k_read_user_str = (\<lambda>buf p. buf), k_filename_buf = replicate 256 0,
     k_reread = (\<lambda>b. b), k_ntohs = (\<lambda>w. w), k_hltonl = byte_swap32\<rparr>"

section \<open>Properties\<close>

text \<open>
  C23: The system call filter kills the current task exactly when its cgroup is monitored and the
  policy map marks the call with 1; the signal does not depend on room in the ring buffer. Then at
  most one record is submitted, and it carries the number of the call, the low half of the cgroup
  number, and the thread group id in its field \<open>pid\<close>.
\<close>

theorem sys_enter_verdict:
  "signals (handle_sys_enter K cgs pol nr) =
     (if (\<exists>m. cgs (k_cgroup_id K) = Some m \<and> m \<noteq> 0) \<and> pol (ucast nr) = Some 1 then [SIGKILL] else []) \<and>
   ret_value (handle_sys_enter K cgs pol nr) = 0 \<and>
   map (\<lambda>e. (se_syscall_nr e, se_cgroup_id e, se_pid e, se_tgid e)) (submitted (handle_sys_enter K cgs pol nr)) =
     (if signals (handle_sys_enter K cgs pol nr) = [SIGKILL] \<and> k_reserve K
      then [(ucast nr, ucast (k_cgroup_id K), ucast (drop_bit 32 (k_pid_tgid K)), ucast (k_pid_tgid K))]
      else [])"
  by (auto simp: handle_sys_enter_def Let_def split: option.split)





end
