(* ===== verification/Ring_Buffer_Reader.thy ===== *)
theory Ring_Buffer_Reader
  imports System_Interface Kernel_Probes
begin

text \<open>
  The reader of the BPF ring buffers: \<open>include/aegis/ebpf/ring_buffer_reader.hpp\<close> and
  \<open>src/ebpf/ring_buffer_reader.cpp\<close>. Both sides of a record are modelled at the level of bytes:
  the kernel program stores its fields into the reserved memory, the reader casts the same memory
  to a struct of its own. The offsets and sizes come from the layout rules of the C ABI. The last
  part is the background thread, as a step relation of the polling thread and its owner.
\<close>

section \<open>Struct layout\<close>

text \<open>A field is given by its size and its alignment.\<close>

type_synonym c_field = "nat \<times> nat"

definition align_up :: "nat \<Rightarrow> nat \<Rightarrow> nat" where
  "align_up a n = (n + a - 1) div a * a"

primrec field_offsets :: "nat \<Rightarrow> c_field list \<Rightarrow> nat list" where
  "field_offsets off [] = []"
| "field_offsets off (f # fs) = align_up (snd f) off # field_offsets (align_up (snd f) off + fst f) fs"

primrec fields_end :: "nat \<Rightarrow> c_field list \<Rightarrow> nat" where
  "fields_end off [] = off"
| "fields_end off (f # fs) = fields_end (align_up (snd f) off + fst f) fs"

definition c_sizeof :: "c_field list \<Rightarrow> nat" where
  "c_sizeof fs = align_up (foldr max (map snd fs) 1) (fields_end 0 fs)"

definition RawSyscallEvent :: "c_field list" where
  "RawSyscallEvent = [(8, 8), (4, 4), (4, 4), (4, 4), (4, 4), (16, 1), (1, 1)]"

definition RawNetworkEvent :: "c_field list" where
  "RawNetworkEvent = [(8, 8), (4, 4), (4, 4), (4, 4), (4, 4), (2, 2), (1, 1), (1, 1), (16, 1)]"

definition RawProcessEvent :: "c_field list" where
  "RawProcessEvent =
     [(8, 8), (4, 4), (4, 4), (4, 4), (4, 4), (4, 4), (4, 4), (1, 1), (1, 1), (16, 1), (256, 1)]"

section \<open>Memory\<close>

text \<open>Integers are stored with the least significant byte first.\<close>

primrec bytes_of :: "nat \<Rightarrow> 'a::len word \<Rightarrow> u8 list" where
  "bytes_of 0 w = []"
| "bytes_of (Suc n) w = ucast w # bytes_of n (drop_bit 8 w)"

primrec word_of :: "u8 list \<Rightarrow> 'a::len word" where
  "word_of [] = 0"
| "word_of (b # bs) = or (ucast b) (push_bit 8 (word_of bs))"

definition write_at :: "nat \<Rightarrow> u8 list \<Rightarrow> u8 list \<Rightarrow> u8 list" where
  "write_at off bs mem = take off mem @ bs @ drop (off + length bs) mem"

definition read_at :: "nat \<Rightarrow> nat \<Rightarrow> u8 list \<Rightarrow> u8 list" where
  "read_at off n mem = take n (drop off mem)"

primrec store_fields :: "nat list \<Rightarrow> u8 list list \<Rightarrow> u8 list \<Rightarrow> u8 list" where
  "store_fields offs [] mem = mem"
| "store_fields offs (bs # bss) mem = store_fields (tl offs) bss (write_at (hd offs) bs mem)"

definition field :: "c_field list \<Rightarrow> nat \<Rightarrow> u8 list \<Rightarrow> u8 list" where
  "field fs i mem = read_at (field_offsets 0 fs ! i) (fst (fs ! i)) mem"

text \<open>The memory of a submitted record; what was not stored keeps what the buffer held before.\<close>

definition store_security_event :: "security_event \<Rightarrow> u8 list \<Rightarrow> u8 list" where
  "store_security_event e = store_fields (field_offsets 0 RawSyscallEvent)
     [bytes_of 8 (se_timestamp_ns e), bytes_of 4 (se_pid e), bytes_of 4 (se_tgid e),
      bytes_of 4 (se_cgroup_id e), bytes_of 4 (se_syscall_nr e), se_comm e, [se_action_taken e]]"

definition store_net_security_event :: "net_security_event \<Rightarrow> u8 list \<Rightarrow> u8 list" where
  "store_net_security_event e = store_fields (field_offsets 0 RawNetworkEvent)
     [bytes_of 8 (ne_timestamp_ns e), bytes_of 4 (ne_pid e), bytes_of 4 (ne_tgid e),
      bytes_of 4 (ne_cgroup_id e), bytes_of 4 (ne_dst_ip e), bytes_of 2 (ne_dst_port e),
      [ne_proto e], [ne_action_taken e], ne_comm e]"

definition store_process_exec_event :: "process_exec_event \<Rightarrow> u8 list \<Rightarrow> u8 list" where
  "store_process_exec_event e = store_fields (field_offsets 0 RawProcessEvent)
     [bytes_of 8 (xe_timestamp_ns e), bytes_of 4 (xe_pid e), bytes_of 4 (xe_tgid e),
      bytes_of 4 (xe_ppid e), bytes_of 4 (xe_cgroup_id e), bytes_of 4 (xe_uid e),
      bytes_of 4 (xe_gid e), [xe_is_privilege_escalation e], [xe_action_taken e],
      xe_comm e, xe_filename e]"

section \<open>Decoding\<close>

record SecuritySyscallEvent =
  sy_timestamp_ns :: u64
  sy_pid :: u32
  sy_tgid :: u32
  sy_cgroup_id :: u32
  sy_syscall_nr :: u32
  sy_comm :: string
  sy_action_taken :: u8

record SecurityNetworkEvent =
  nw_timestamp_ns :: u64
  nw_pid :: u32
  nw_tgid :: u32
  nw_cgroup_id :: u32
  nw_dst_ip_network_order :: u32
  nw_dst_port :: u16
  nw_protocol :: u8
  nw_action_taken :: u8
  nw_comm :: string

record SecurityProcessEvent =
  px_timestamp_ns :: u64
  px_pid :: u32
  px_tgid :: u32
  px_ppid :: u32
  px_cgroup_id :: u32
  px_uid :: u32
  px_gid :: u32
  px_is_privilege_escalation :: bool
  px_action_taken :: u8
  px_comm :: string
  px_filename :: string

datatype SecurityEventVariant =
    SyscallEvent SecuritySyscallEvent
  | NetworkEvent SecurityNetworkEvent
  | ProcessEvent SecurityProcessEvent

text \<open>\<open>std::string(p, strnlen(p, n))\<close>.\<close>

definition char_array :: "u8 list \<Rightarrow> string" where
  "char_array bs = map (\<lambda>b. char_of (unat b)) (takeWhile (\<lambda>b. b \<noteq> 0) bs)"

text \<open>What \<open>dispatch_event\<close> hands to the callback; \<open>None\<close> when it calls nothing.\<close>

definition decode_event :: "u8 list \<Rightarrow> SecurityEventVariant option" where
  "decode_event mem =
     (if length mem = c_sizeof RawSyscallEvent
      then let raw = (\<lambda>i. field RawSyscallEvent i mem) in
        Some (SyscallEvent \<lparr>sy_timestamp_ns = word_of (raw 0), sy_pid = word_of (raw 1),
          sy_tgid = word_of (raw 2), sy_cgroup_id = word_of (raw 3), sy_syscall_nr = word_of (raw 4),
          sy_comm = char_array (raw 5), sy_action_taken = word_of (raw 6)\<rparr>)
      else if length mem = c_sizeof RawNetworkEvent
      then let raw = (\<lambda>i. field RawNetworkEvent i mem) in
        Some (NetworkEvent \<lparr>nw_timestamp_ns = word_of (raw 0), nw_pid = word_of (raw 1),
          nw_tgid = word_of (raw 2), nw_cgroup_id = word_of (raw 3),
          nw_dst_ip_network_order = word_of (raw 4), nw_dst_port = word_of (raw 5),
          nw_protocol = word_of (raw 6), nw_action_taken = word_of (raw 7),
          nw_comm = char_array (raw 8)\<rparr>)
      else if length mem = c_sizeof RawProcessEvent
      then let raw = (\<lambda>i. field RawProcessEvent i mem) in
        Some (ProcessEvent \<lparr>px_timestamp_ns = word_of (raw 0), px_pid = word_of (raw 1),
          px_tgid = word_of (raw 2), px_ppid = word_of (raw 3), px_cgroup_id = word_of (raw 4),
          px_uid = word_of (raw 5), px_gid = word_of (raw 6),
          px_is_privilege_escalation = ((word_of (raw 7) :: u8) \<noteq> 0),
          px_action_taken = word_of (raw 8), px_comm = char_array (raw 9),
          px_filename = char_array (raw 10)\<rparr>)
      else None)"

section \<open>Lemmas on memory and layout\<close>

lemma sizeof_events [simp]:
  "c_sizeof RawSyscallEvent = 48" "c_sizeof RawNetworkEvent = 48" "c_sizeof RawProcessEvent = 312"
  by code_simp+

lemma offsets_events [simp]:
  "field_offsets 0 RawSyscallEvent = [0, 8, 12, 16, 20, 24, 40]"
  "field_offsets 0 RawNetworkEvent = [0, 8, 12, 16, 20, 24, 26, 27, 28]"
  "field_offsets 0 RawProcessEvent = [0, 8, 12, 16, 20, 24, 28, 32, 33, 34, 50]"
  by code_simp+

lemma length_bytes_of [simp]: "length (bytes_of n w) = n"
  by (induction n arbitrary: w) simp_all

lemma word_of_bytes_of: "word_of (bytes_of n w) = take_bit (8 * n) w"
proof (induction n arbitrary: w)
  case (Suc n)
  show ?case
    by (rule bit_eqI) (auto simp: Suc.IH bit_simps)
qed simp

lemma word_of_bytes [simp]:
  "word_of (bytes_of 8 (a :: u64)) = a" "word_of (bytes_of 4 (b :: u32)) = b"
  "word_of (bytes_of 2 (c :: u16)) = c" "word_of [d] = (d :: u8)"
  by (simp_all add: word_of_bytes_of take_bit_word_eq_self)

lemma length_write_at [simp]:
  "off + length bs \<le> length mem \<Longrightarrow> length (write_at off bs mem) = length mem"
  by (simp add: write_at_def)

lemma read_write_same:
  "off + length bs \<le> length mem \<Longrightarrow> n = length bs \<Longrightarrow> read_at off n (write_at off bs mem) = bs"
  by (simp add: read_at_def write_at_def)

lemma read_write_other:
  assumes "off + length bs \<le> length mem" and "o' + n \<le> off \<or> off + length bs \<le> o'"
  shows "read_at o' n (write_at off bs mem) = read_at o' n mem"
proof (rule nth_equalityI)
  show "length (read_at o' n (write_at off bs mem)) = length (read_at o' n mem)"
    using assms by (simp add: read_at_def)
  show "read_at o' n (write_at off bs mem) ! i = read_at o' n mem ! i"
    if "i < length (read_at o' n (write_at off bs mem))" for i
    using assms that by (auto simp: read_at_def write_at_def nth_append)
qed

lemma read_write_sub:
  assumes "off + length bs \<le> length mem" and "off \<le> o'" and "o' + n \<le> off + length bs"
  shows "read_at o' n (write_at off bs mem) = read_at (o' - off) n bs"
  using assms by (simp add: read_at_def write_at_def)

lemma read_at_split: "read_at off (m + n) mem = read_at off m mem @ read_at (off + m) n mem"
  by (simp add: read_at_def take_add add.commute)

section \<open>The reader\<close>

text \<open>
  \<open>m_user_callback\<close> says whether a callback is set, \<open>rb_delivered\<close> lists what it was called
  with, \<open>rb_joinable\<close> whether \<open>m_polling_thread\<close> stands for a thread.
\<close>

record RingBufferReader =
  rb_mutex :: bool
  m_ring_buf :: "nat option"
  m_user_callback :: bool
  m_is_polling :: bool
  rb_joinable :: bool
  rb_delivered :: "SecurityEventVariant list"

definition new_RingBufferReader :: RingBufferReader where
  "new_RingBufferReader = \<lparr>rb_mutex = False, m_ring_buf = None, m_user_callback = False,
     m_is_polling = False, rb_joinable = False, rb_delivered = []\<rparr>"

abbreviation rb_locked :: "(RingBufferReader, 'a) action \<Rightarrow> (RingBufferReader, 'a) action" where
  "rb_locked body \<equiv> guarded rb_mutex (\<lambda>b. rb_mutex_update (\<lambda>_. b)) body"

interpretation rb: mutex_class rb_mutex "\<lambda>b. rb_mutex_update (\<lambda>_. b)"
  by unfold_locales simp_all

definition init :: "env \<Rightarrow> int \<Rightarrow> bool \<Rightarrow> (RingBufferReader, Status) action" where
  "init E ring_buffer_map_fd callback = rb_locked (
     if ring_buffer_map_fd < 0 \<or> \<not> callback then retM ErrEBPFProbeLoadFailed
     else seqM (assign (\<lambda>rb. rb\<lparr>m_user_callback := True\<rparr>))
         (bindM (sys (\<lambda>t. e_ring_new E t ring_buffer_map_fd) (RingNew ring_buffer_map_fd)) (\<lambda>ring.
          seqM (assign (\<lambda>rb. rb\<lparr>m_ring_buf := ring\<rparr>))
               (if ring = None then retM ErrEBPFProbeLoadFailed else retM Success))))"

definition dispatch_event :: "u8 list \<Rightarrow> (RingBufferReader, unit) action" where
  "dispatch_event mem =
     bindM (self m_user_callback) (\<lambda>set.
     if \<not> set then retM ()
     else case decode_event mem of
       None \<Rightarrow> retM ()
     | Some ev \<Rightarrow> assign (\<lambda>rb. rb\<lparr>rb_delivered := rb_delivered rb @ [ev]\<rparr>))"

definition raw_sample_callback :: "u8 list \<Rightarrow> (RingBufferReader, int) action" where
  "raw_sample_callback mem =
     (if mem = [] then retM 0 else seqM (dispatch_event mem) (retM 0))"

definition poll :: "env \<Rightarrow> int \<Rightarrow> (RingBufferReader, int) action" where
  "poll E timeout_ms =
     bindM (self m_ring_buf) (\<lambda>ring.
     case ring of
       None \<Rightarrow> retM (-1)
     | Some rb \<Rightarrow>
         bindM (sys (\<lambda>t. e_ring_poll E t rb timeout_ms) (\<lambda>(r, samples). RingPoll rb timeout_ms r))
           (\<lambda>(err, samples). seqM (forM samples raw_sample_callback) (retM err)))"

definition start_polling :: "(RingBufferReader, Status) action" where
  "start_polling = rb_locked (
     bindM (self (\<lambda>rb. m_is_polling rb \<or> m_ring_buf rb = None)) (\<lambda>refused.
     if refused then retM ErrEBPFProbeLoadFailed
     else seqM (assign (\<lambda>rb. rb\<lparr>m_is_polling := True, rb_joinable := True\<rparr>)) (retM Success)))"

text \<open>One iteration of the thread's loop.\<close>

definition polling_iteration :: "env \<Rightarrow> (RingBufferReader, unit) action" where
  "polling_iteration E =
     bindM (poll E 100) (\<lambda>err.
     bindM (self m_is_polling) (\<lambda>polling.
     if err < 0 \<and> polling then sleep_ms 50 else retM ()))"

definition stop_polling :: "(RingBufferReader, unit) action" where
  "stop_polling =
     bindM (self m_is_polling) (\<lambda>was_polling.
     seqM (assign (\<lambda>rb. rb\<lparr>m_is_polling := False\<rparr>))
          (if was_polling then assign (\<lambda>rb. rb\<lparr>rb_joinable := False\<rparr>) else retM ()))"

definition destruct_RingBufferReader :: "(RingBufferReader, unit) action" where
  "destruct_RingBufferReader =
     seqM stop_polling
    (bindM (self m_ring_buf) (\<lambda>ring.
     case ring of
       None \<Rightarrow> retM ()
     | Some rb \<Rightarrow> seqM (sys (\<lambda>t. ()) (\<lambda>_. RingFree rb)) (assign (\<lambda>ob. ob\<lparr>m_ring_buf := None\<rparr>))))"

lemmas reader_method_defs [method_defs] = init_def start_polling_def

lemma raw_sample_run:
  assumes "m_user_callback rb"
  shows "raw_sample_callback mem (rb, t) =
    (Ret 0, (rb\<lparr>rb_delivered := rb_delivered rb @
       (case decode_event mem of None \<Rightarrow> [] | Some ev \<Rightarrow> [ev])\<rparr>, t))"
proof -
  have "decode_event [] = None" by (simp add: decode_event_def)
  then show ?thesis
    using assms by (cases rb) (simp add: raw_sample_callback_def dispatch_event_def seqM_def bindM_def
        retM_def self_def assign_def split: option.split)
qed

lemma samples_run:
  "m_user_callback rb \<Longrightarrow> forM samples raw_sample_callback (rb, t) =
    (Ret (), (rb\<lparr>rb_delivered := rb_delivered rb @ List.map_filter decode_event samples\<rparr>, t))"
  by (induction samples arbitrary: rb)
    (auto simp: bindM_def retM_def raw_sample_run List.map_filter_def split: option.split)

section \<open>The polling thread\<close>

text \<open>
  Where the thread stands in its loop: before the test of the flag, inside the poll, after a poll
  that failed, asleep, at its end. Where the owner stands: outside, waiting in \<open>join\<close> (from
  \<open>stop_polling\<close> or from the destructor), past the join of the destructor, past the release of the
  ring buffer.
\<close>

datatype poller_pc = NotStarted | AtTest | InPoll | PollFailed | Sleeping | Finished

datatype owner_pc = Outside | Joining bool | Joined | Released

record poll_state =
  ps_flag :: bool
  ps_poller :: poller_pc
  ps_owner :: owner_pc

inductive poller_step :: "poll_state \<Rightarrow> poll_state \<Rightarrow> bool" where
  test_on: "ps_poller s = AtTest \<Longrightarrow> ps_flag s \<Longrightarrow> poller_step s (s\<lparr>ps_poller := InPoll\<rparr>)"
| test_off: "ps_poller s = AtTest \<Longrightarrow> \<not> ps_flag s \<Longrightarrow> poller_step s (s\<lparr>ps_poller := Finished\<rparr>)"
| poll_ok: "ps_poller s = InPoll \<Longrightarrow> poller_step s (s\<lparr>ps_poller := AtTest\<rparr>)"
| poll_err: "ps_poller s = InPoll \<Longrightarrow> poller_step s (s\<lparr>ps_poller := PollFailed\<rparr>)"
| err_sleep: "ps_poller s = PollFailed \<Longrightarrow> ps_flag s \<Longrightarrow> poller_step s (s\<lparr>ps_poller := Sleeping\<rparr>)"
| err_retry: "ps_poller s = PollFailed \<Longrightarrow> \<not> ps_flag s \<Longrightarrow> poller_step s (s\<lparr>ps_poller := AtTest\<rparr>)"
| wake: "ps_poller s = Sleeping \<Longrightarrow> poller_step s (s\<lparr>ps_poller := AtTest\<rparr>)"

inductive owner_step :: "poll_state \<Rightarrow> poll_state \<Rightarrow> bool" where
  start: "ps_owner s = Outside \<Longrightarrow> \<not> ps_flag s \<Longrightarrow>
    owner_step s (s\<lparr>ps_flag := True, ps_poller := AtTest\<rparr>)"
| stop: "ps_owner s = Outside \<Longrightarrow> ps_flag s \<Longrightarrow>
    owner_step s (s\<lparr>ps_flag := False, ps_owner := Joining dtor\<rparr>)"
| stop_idle: "ps_owner s = Outside \<Longrightarrow> \<not> ps_flag s \<Longrightarrow> owner_step s (s\<lparr>ps_owner := Joined\<rparr>)"
| join: "ps_owner s = Joining dtor \<Longrightarrow> ps_poller s = Finished \<Longrightarrow>
    owner_step s (s\<lparr>ps_owner := (if dtor then Joined else Outside)\<rparr>)"
| release: "ps_owner s = Joined \<Longrightarrow> owner_step s (s\<lparr>ps_owner := Released\<rparr>)"

inductive poll_run :: "poll_state \<Rightarrow> bool" where
  initial: "poll_run \<lparr>ps_flag = False, ps_poller = NotStarted, ps_owner = Outside\<rparr>"
| poller: "poll_run s \<Longrightarrow> poller_step s s' \<Longrightarrow> poll_run s'"
| owner: "poll_run s \<Longrightarrow> owner_step s s' \<Longrightarrow> poll_run s'"

inductive_cases poller_stepE: "poller_step s s'"
inductive_cases owner_stepE: "owner_step s s'"

definition idle :: "poll_state \<Rightarrow> bool" where
  "idle s \<longleftrightarrow> ps_poller s = NotStarted \<or> ps_poller s = Finished"

definition poll_inv :: "poll_state \<Rightarrow> bool" where
  "poll_inv s \<longleftrightarrow> (case ps_owner s of
     Outside \<Rightarrow> idle s \<longleftrightarrow> \<not> ps_flag s
   | Joining dtor \<Rightarrow> \<not> ps_flag s \<and> ps_poller s \<noteq> NotStarted
   | Joined \<Rightarrow> \<not> ps_flag s \<and> idle s
   | Released \<Rightarrow> \<not> ps_flag s \<and> idle s)"

lemma poll_run_inv: "poll_run s \<Longrightarrow> poll_inv s"
proof (induction rule: poll_run.induct)
  case initial
  then show ?case by (simp add: poll_inv_def idle_def)
next
  case (poller s s')
  from poller(2,3) show ?case
    by (auto elim!: poller_stepE simp: poll_inv_def idle_def split: owner_pc.splits)
next
  case (owner s s')
  from owner(2,3) show ?case
    by (auto elim!: owner_stepE simp: poll_inv_def idle_def split: owner_pc.splits)
qed

fun steps_left :: "poller_pc \<Rightarrow> nat" where
  "steps_left NotStarted = 0"
| "steps_left Finished = 0"
| "steps_left AtTest = 1"
| "steps_left PollFailed = 2"
| "steps_left Sleeping = 2"
| "steps_left InPoll = 3"

lemma poller_step_decreases:
  "poller_step s s' \<Longrightarrow> \<not> ps_flag s \<Longrightarrow>
    steps_left (ps_poller s') < steps_left (ps_poller s) \<and> \<not> ps_flag s' \<and> ps_owner s' = ps_owner s"
  by (auto elim!: poller_stepE)

lemma poller_steps_bound:
  "(poller_step ^^ n) s s' \<Longrightarrow> \<not> ps_flag s \<Longrightarrow>
    n + steps_left (ps_poller s') \<le> steps_left (ps_poller s) \<and> \<not> ps_flag s' \<and> ps_owner s' = ps_owner s"
proof (induction n arbitrary: s')
  case (Suc n)
  then obtain y where "(poller_step ^^ n) s y" "poller_step y s'" by auto
  then show ?case using Suc.IH [of y] Suc.prems(2) poller_step_decreases [of y s'] by auto
qed simp

lemma poller_not_stuck: "\<not> idle s \<Longrightarrow> \<exists>s'. poller_step s s'"
  by (cases "ps_poller s"; cases "ps_flag s") (auto simp: idle_def intro: poller_step.intros)

section \<open>Properties\<close>



text \<open>
  A record of the process monitor arrives unchanged in the same sense, with the escalation
  byte read as a truth value.
\<close>

theorem process_event_roundtrip:
  assumes "length mem = c_sizeof RawProcessEvent" and "length (xe_comm e) = 16"
    and "length (xe_filename e) = 256"
  shows "decode_event (store_process_exec_event e mem) = Some (ProcessEvent
    \<lparr>px_timestamp_ns = xe_timestamp_ns e, px_pid = xe_pid e, px_tgid = xe_tgid e,
     px_ppid = xe_ppid e, px_cgroup_id = xe_cgroup_id e, px_uid = xe_uid e, px_gid = xe_gid e,
     px_is_privilege_escalation = (xe_is_privilege_escalation e \<noteq> 0),
     px_action_taken = xe_action_taken e, px_comm = char_array (xe_comm e),
     px_filename = char_array (xe_filename e)\<rparr>)"
  using assms
  by (simp add: decode_event_def store_process_exec_event_def field_def read_write_same read_write_other)
     (simp add: RawProcessEvent_def read_write_same read_write_other)

theorem process_event_roundtrip_witness:
  "\<exists>ev. decode_event (store_process_exec_event
     (hd (submitted (handle_execve_enter example_ctx (\<lambda>_. Some 1) 4096))) (replicate 312 255)) =
     Some (ProcessEvent ev) \<and> px_uid ev = 0 \<and> px_is_privilege_escalation ev"
  using process_event_roundtrip [of "replicate 312 255"
      "hd (submitted (handle_execve_enter example_ctx (\<lambda>_. Some 1) 4096))"]
  by (simp add: handle_execve_enter_def example_ctx_def Let_def)

text \<open>
  C27: The reader cannot tell a network record from a system call record, because both have 48
  bytes: no memory is decoded to a network event, and a network record is reported as a system
  call event whose number is the destination address and whose name starts with the port.
\<close>

theorem network_event_misread:
  assumes "length mem = c_sizeof RawNetworkEvent" and "length (ne_comm e) = 16"
  shows "decode_event (store_net_security_event e mem) = Some (SyscallEvent
    \<lparr>sy_timestamp_ns = ne_timestamp_ns e, sy_pid = ne_pid e, sy_tgid = ne_tgid e,
     sy_cgroup_id = ne_cgroup_id e, sy_syscall_nr = ne_dst_ip e,
     sy_comm = char_array (bytes_of 2 (ne_dst_port e) @ [ne_proto e, ne_action_taken e] @ take 12 (ne_comm e)),
     sy_action_taken = ne_comm e ! 12\<rparr>) \<and>
   (\<forall>bs n. decode_event bs \<noteq> Some (NetworkEvent n))"
proof
  let ?net = "store_net_security_event e mem"
  have mem: "length mem = 48" using assms(1) by simp
  have len: "length ?net = 48"
    using mem assms(2) by (simp add: store_net_security_event_def)
  have head: "read_at 0 8 ?net = bytes_of 8 (ne_timestamp_ns e)" "read_at 8 4 ?net = bytes_of 4 (ne_pid e)"
    "read_at 12 4 ?net = bytes_of 4 (ne_tgid e)" "read_at 16 4 ?net = bytes_of 4 (ne_cgroup_id e)"
    "read_at 20 4 ?net = bytes_of 4 (ne_dst_ip e)" "read_at 24 2 ?net = bytes_of 2 (ne_dst_port e)"
    "read_at 26 1 ?net = [ne_proto e]" "read_at 27 1 ?net = [ne_action_taken e]"
    using mem assms(2)
    by (simp_all add: store_net_security_event_def read_write_same read_write_other)
  have tail: "read_at 28 12 ?net = take 12 (ne_comm e)" "read_at 40 1 ?net = [ne_comm e ! 12]"
    using mem assms(2)
    by (simp_all add: store_net_security_event_def read_write_sub)
      (simp_all add: read_at_def take_Suc_conv_app_nth hd_drop_conv_nth take_Suc)
  have "read_at 24 16 ?net = read_at 24 2 ?net @ read_at 26 1 ?net @ read_at 27 1 ?net @ read_at 28 12 ?net"
    using read_at_split [of 24 2 14 ?net] read_at_split [of 26 1 13 ?net] read_at_split [of 27 1 12 ?net]
    by simp
  then show "decode_event ?net = Some (SyscallEvent
    \<lparr>sy_timestamp_ns = ne_timestamp_ns e, sy_pid = ne_pid e, sy_tgid = ne_tgid e,
     sy_cgroup_id = ne_cgroup_id e, sy_syscall_nr = ne_dst_ip e,
     sy_comm = char_array (bytes_of 2 (ne_dst_port e) @ [ne_proto e, ne_action_taken e] @ take 12 (ne_comm e)),
     sy_action_taken = ne_comm e ! 12\<rparr>)"
    using len head tail by (simp add: decode_event_def field_def) (simp add: RawSyscallEvent_def)
  show "\<forall>bs n. decode_event bs \<noteq> Some (NetworkEvent n)"
    by (simp add: decode_event_def Let_def)
qed

theorem network_event_misread_witness:
  "\<exists>ev. decode_event (store_net_security_event
     \<lparr>ne_timestamp_ns = 5, ne_pid = 6, ne_tgid = 7, ne_cgroup_id = 8, ne_dst_ip = 0xFEA9FEA9,
      ne_dst_port = 80, ne_proto = 6, ne_action_taken = 1, ne_comm = 65 # replicate 15 0\<rparr>
     (replicate 48 0)) = Some (SyscallEvent ev) \<and> sy_syscall_nr ev = 0xFEA9FEA9"
  using network_event_misread [of "replicate 48 0"
      "\<lparr>ne_timestamp_ns = 5, ne_pid = 6, ne_tgid = 7, ne_cgroup_id = 8, ne_dst_ip = 0xFEA9FEA9,
      ne_dst_port = 80, ne_proto = 6, ne_action_taken = 1, ne_comm = 65 # replicate 15 0\<rparr>"]
  by simp

text \<open>
  C28: A poll on an initialised reader returns the result of libbpf and calls the callback once for
  each sample that has the size of a known record, in the order of the samples.
\<close>

theorem poll_delivers:
  assumes "m_ring_buf rb = Some r" and "m_user_callback rb" and "e_ring_poll E t r ms = (err, samples)"
  shows "poll E ms (rb, t) =
    (Ret err, (rb\<lparr>rb_delivered := rb_delivered rb @ List.map_filter decode_event samples\<rparr>,
               t @ [RingPoll r ms err]))"
  using assms by (simp add: poll_def bindM_def seqM_def self_def sys_def retM_def samples_run)

theorem poll_delivers_witness:
  "poll (good_env\<lparr>e_ring_poll := \<lambda>t r ms. (2, [replicate 7 0, replicate 48 0])\<rparr>) 100
     (new_RingBufferReader\<lparr>m_ring_buf := Some 1, m_user_callback := True\<rparr>, []) =
   (Ret 2, (new_RingBufferReader\<lparr>m_ring_buf := Some 1, m_user_callback := True,
      rb_delivered := List.map_filter decode_event [replicate 7 0, replicate 48 0]\<rparr>, [RingPoll 1 100 2]))"
  using poll_delivers [of "new_RingBufferReader\<lparr>m_ring_buf := Some 1, m_user_callback := True\<rparr>" 1
      "good_env\<lparr>e_ring_poll := \<lambda>t r ms. (2, [replicate 7 0, replicate 48 0])\<rparr>" "[]" 100 2
      "[replicate 7 0, replicate 48 0]"]
  by (simp add: new_RingBufferReader_def)



end
