(* ===== verification/Cgroup_Manager.thy ===== *)
theory Cgroup_Manager
  imports System_Interface
begin

text \<open>
  The cgroup manager: \<open>include/aegis/runtime/cgroup_manager.hpp\<close> and
  \<open>src/runtime/cgroup_manager.cpp\<close>. Each sandbox gets a directory below the root cgroup, three
  limit files, its inode number and an open descriptor of the directory. The invariant accounts
  for every descriptor: what was opened is what was closed and what the table still holds.
\<close>

section \<open>Data\<close>

record CgroupLimits =
  cpu_cores :: u32
  memory_mb :: u32
  vram_mb :: u32
  max_pids :: u32

definition new_CgroupLimits :: CgroupLimits where
  "new_CgroupLimits = \<lparr>cpu_cores = 1, memory_mb = 512, vram_mb = 0, max_pids = 100\<rparr>"

record CgroupInfo =
  ci_sandbox_id :: string
  cgroup_path :: path
  cgroup_id :: u64
  cgroup_fd :: int
  ci_limits :: CgroupLimits

record CgroupManager =
  cm_mutex :: bool
  m_root_path :: path
  m_cgroups :: "(string \<times> CgroupInfo) list"

abbreviation cm_locked :: "(CgroupManager, 'a) action \<Rightarrow> (CgroupManager, 'a) action" where
  "cm_locked body \<equiv> guarded cm_mutex (\<lambda>b. cm_mutex_update (\<lambda>_. b)) body"

interpretation cm: mutex_class cm_mutex "\<lambda>b. cm_mutex_update (\<lambda>_. b)"
  by unfold_locales simp_all

lemma cm_unlock [simp]: "\<not> cm_mutex cm \<Longrightarrow> cm\<lparr>cm_mutex := False\<rparr> = cm"
  by (rule cm.set_same) simp

section \<open>Operations\<close>

text \<open>
  \<open>good()\<close> is read before the stream's destructor flushes the buffer, so the result of the
  flush, recorded by \<open>OfsClose\<close>, does not reach the caller.
\<close>

definition write_sysfs_file :: "env \<Rightarrow> path \<Rightarrow> string \<Rightarrow> ('o, bool) action" where
  "write_sysfs_file E file_path value =
     bindM (sys (\<lambda>t. e_ofs_open E t file_path) (OfsOpen file_path)) (\<lambda>is_open.
     if \<not> is_open then retM False
     else bindM (sys (\<lambda>t. e_ofs_put E t file_path value) (OfsPut file_path value)) (\<lambda>good.
          seqM (sys (\<lambda>t. e_ofs_close E t file_path) (OfsClose file_path)) (retM good)))"

text \<open>The constructor: the members, then the body.\<close>

definition init_CgroupManager :: "path \<Rightarrow> CgroupManager" where
  "init_CgroupManager root = \<lparr>cm_mutex = False, m_root_path = root, m_cgroups = []\<rparr>"

definition construct_CgroupManager :: "env \<Rightarrow> (CgroupManager, unit) action" where
  "construct_CgroupManager E =
     bindM (self m_root_path) (\<lambda>root.
     bindM (fs_create_directories E root) (\<lambda>ok.
     if \<not> ok then retM ()
     else seqM (write_sysfs_file E (path_append (parent_path root) ''cgroup.subtree_control'')
                 ''+cpu +memory +pids'')
               (retM ())))"

definition apply_limits :: "env \<Rightarrow> path \<Rightarrow> CgroupLimits \<Rightarrow> ('o, Status) action" where
  "apply_limits E dir limits =
     (let cpu_quota = (ucast (cpu_cores limits) :: u64) * 100000;
          memory_bytes = (ucast (memory_mb limits) :: u64) * 1024 * 1024 in
      bindM (write_sysfs_file E (path_append dir ''cpu.max'') (dec (unat cpu_quota) @ '' 100000'')) (\<lambda>ok.
      if \<not> ok then retM ErrCgroupQuotaExceeded
      else bindM (write_sysfs_file E (path_append dir ''memory.max'') (dec (unat memory_bytes))) (\<lambda>ok.
      if \<not> ok then retM ErrCgroupQuotaExceeded
      else bindM (write_sysfs_file E (path_append dir ''pids.max'') (dec (unat (max_pids limits)))) (\<lambda>ok.
      if \<not> ok then retM ErrCgroupQuotaExceeded
      else retM Success))))"

definition fetch_inode_id :: "env \<Rightarrow> path \<Rightarrow> ('o, u64) action" where
  "fetch_inode_id E dir = bindM (c_stat E dir) (\<lambda>st.
     case st of Some ino \<Rightarrow> retM ino | None \<Rightarrow> retM 0)"

definition create_cgroup :: "env \<Rightarrow> string \<Rightarrow> CgroupLimits \<Rightarrow> (CgroupManager, Status) action" where
  "create_cgroup E sbx_id limits = cm_locked (
     bindM (self (\<lambda>cm. map_of (m_cgroups cm) sbx_id \<noteq> None)) (\<lambda>known.
     if known then retM ErrInvalidSandboxID
     else bindM (self (\<lambda>cm. path_append (m_root_path cm) sbx_id)) (\<lambda>dir.
     bindM (fs_create_directories E dir) (\<lambda>ok.
     if \<not> ok then retM ErrCgroupQuotaExceeded
     else bindM (apply_limits E dir limits) (\<lambda>status.
     if status \<noteq> Success then seqM (fs_remove_all dir) (retM status)
     else bindM (fetch_inode_id E dir) (\<lambda>ino.
     if ino = 0 then seqM (fs_remove_all dir) (retM ErrCgroupQuotaExceeded)
     else bindM (c_open E dir) (\<lambda>fd.
     if fd < 0 then seqM (fs_remove_all dir) (retM ErrCgroupQuotaExceeded)
     else seqM (assign (\<lambda>cm. cm\<lparr>m_cgroups := AList.update sbx_id
                  \<lparr>ci_sandbox_id = sbx_id, cgroup_path = dir, cgroup_id = ino, cgroup_fd = fd,
                   ci_limits = limits\<rparr> (m_cgroups cm)\<rparr>))
               (retM Success))))))))"

definition attach_pid :: "env \<Rightarrow> string \<Rightarrow> int \<Rightarrow> (CgroupManager, Status) action" where
  "attach_pid E sbx_id pid = cm_locked (
     bindM (self (\<lambda>cm. map_of (m_cgroups cm) sbx_id)) (\<lambda>it.
     case it of
       None \<Rightarrow> retM ErrInvalidSandboxID
     | Some info \<Rightarrow>
         bindM (write_sysfs_file E (path_append (cgroup_path info) ''cgroup.procs'') (dec_int pid)) (\<lambda>ok.
         if \<not> ok then retM ErrCgroupQuotaExceeded else retM Success)))"

definition destroy_cgroup :: "string \<Rightarrow> (CgroupManager, Status) action" where
  "destroy_cgroup sbx_id = cm_locked (
     bindM (self (\<lambda>cm. map_of (m_cgroups cm) sbx_id)) (\<lambda>it.
     case it of
       None \<Rightarrow> retM ErrInvalidSandboxID
     | Some info \<Rightarrow>
         seqM (if cgroup_fd info \<ge> 0 then c_close (cgroup_fd info) else retM ())
        (seqM (fs_remove_all (cgroup_path info))
        (seqM (assign (\<lambda>cm. cm\<lparr>m_cgroups := AList.delete sbx_id (m_cgroups cm)\<rparr>))
              (retM Success)))))"

definition get_cgroup_id :: "string \<Rightarrow> (CgroupManager, u64) action" where
  "get_cgroup_id sbx_id = cm_locked (self (\<lambda>cm.
     case map_of (m_cgroups cm) sbx_id of Some info \<Rightarrow> cgroup_id info | None \<Rightarrow> 0))"

definition get_cgroup_fd :: "string \<Rightarrow> (CgroupManager, int) action" where
  "get_cgroup_fd sbx_id = cm_locked (self (\<lambda>cm.
     case map_of (m_cgroups cm) sbx_id of Some info \<Rightarrow> cgroup_fd info | None \<Rightarrow> -1))"

definition get_cgroup_info :: "string \<Rightarrow> (CgroupManager, CgroupInfo option) action" where
  "get_cgroup_info sbx_id = cm_locked (self (\<lambda>cm. map_of (m_cgroups cm) sbx_id))"

text \<open>The loop body works on the entry in place; the table is cleared after the loop.\<close>

definition destroy_entry :: "string \<Rightarrow> (CgroupManager, unit) action" where
  "destroy_entry sbx_id =
     bindM (self (\<lambda>cm. map_of (m_cgroups cm) sbx_id)) (\<lambda>it.
     case it of
       None \<Rightarrow> retM ()
     | Some info \<Rightarrow>
         seqM (if cgroup_fd info \<ge> 0
               then seqM (c_close (cgroup_fd info))
                 (assign (\<lambda>cm. cm\<lparr>m_cgroups :=
                    AList.update sbx_id (info\<lparr>cgroup_fd := -1\<rparr>) (m_cgroups cm)\<rparr>))
               else retM ())
              (fs_remove_all (cgroup_path info)))"

definition destroy_all :: "env \<Rightarrow> (CgroupManager, unit) action" where
  "destroy_all E = cm_locked (
     bindM (getM (\<lambda>(cm, t). e_iter_strings E t (um_keys (m_cgroups cm)))) (\<lambda>ids.
     seqM (forM ids destroy_entry)
          (assign (\<lambda>cm. cm\<lparr>m_cgroups := []\<rparr>))))"

definition destruct_CgroupManager :: "env \<Rightarrow> (CgroupManager, unit) action" where
  "destruct_CgroupManager E = destroy_all E"

lemmas cgroup_method_defs [method_defs] = create_cgroup_def attach_pid_def destroy_cgroup_def
  get_cgroup_id_def get_cgroup_fd_def get_cgroup_info_def destroy_all_def

section \<open>What each operation does\<close>

text \<open>The writes of one limit file and of all three, when every one was accepted.\<close>

definition sysfs_write :: "path \<Rightarrow> string \<Rightarrow> bool \<Rightarrow> trace" where
  "sysfs_write p v flushed = [OfsOpen p True, OfsPut p v True, OfsClose p flushed]"

definition limit_writes :: "path \<Rightarrow> CgroupLimits \<Rightarrow> bool \<Rightarrow> bool \<Rightarrow> bool \<Rightarrow> trace" where
  "limit_writes dir l c1 c2 c3 =
     sysfs_write (path_append dir ''cpu.max'') (dec (unat (cpu_cores l) * 100000) @ '' 100000'') c1 @
     sysfs_write (path_append dir ''memory.max'') (dec (unat (memory_mb l) * 1048576)) c2 @
     sysfs_write (path_append dir ''pids.max'') (dec (unat (max_pids l))) c3"

definition make_info :: "string \<Rightarrow> path \<Rightarrow> u64 \<Rightarrow> int \<Rightarrow> CgroupLimits \<Rightarrow> CgroupInfo" where
  "make_info sbx_id dir ino fd l =
     \<lparr>ci_sandbox_id = sbx_id, cgroup_path = dir, cgroup_id = ino, cgroup_fd = fd, ci_limits = l\<rparr>"

lemma fs_event_writes [simp]:
  "list_all fs_event (sysfs_write p v c)"
  "list_all fs_event (limit_writes dir l c1 c2 c3)"
  by (simp_all add: sysfs_write_def limit_writes_def fs_event_def)

lemma write_sysfs_rule:
  assumes "\<And>c. Q (Ret True) (ob, t @ sysfs_write p v c)"
    and "\<And>u. list_all fs_event u \<Longrightarrow> Q (Ret False) (ob, t @ u)"
  shows "wp (write_sysfs_file E p v) Q (ob, t)"
proof (cases "e_ofs_open E t p")
  case False
  then show ?thesis
    using assms(2) [of "[OfsOpen p False]"]
    by (simp add: write_sysfs_file_def wp_simps fs_event_def)
next
  case True
  let ?good = "e_ofs_put E (t @ [OfsOpen p True]) p v"
  let ?c = "e_ofs_close E (t @ [OfsOpen p True, OfsPut p v ?good]) p"
  show ?thesis
    using True assms(1) [of ?c] assms(2) [of "[OfsOpen p True, OfsPut p v ?good, OfsClose p ?c]"]
    by (cases ?good) (simp_all add: write_sysfs_file_def wp_simps fs_event_def sysfs_write_def)
qed

text \<open>The products are computed in 64 bits and cannot wrap.\<close>

lemma unat_cpu_quota: "unat ((ucast (c :: u32) :: u64) * 100000) = unat c * 100000"
proof -
  have "unat c < 2 ^ 32" using unsigned_less [of c, where ?'a = nat] by simp
  then show ?thesis by (simp add: unat_word_ariths unsigned_ucast_eq take_bit_eq_mod)
qed

lemma unat_memory_bytes: "unat (1048576 * (ucast (c :: u32) :: u64)) = unat c * 1048576"
proof -
  have "unat c < 2 ^ 32" using unsigned_less [of c, where ?'a = nat] by simp
  then show ?thesis by (simp add: unat_word_ariths unsigned_ucast_eq take_bit_eq_mod)
qed

lemma apply_limits_rule:
  assumes ok: "\<And>c1 c2 c3. Q (Ret Success) (ob, t @ limit_writes dir l c1 c2 c3)"
    and err: "\<And>u. list_all fs_event u \<Longrightarrow> Q (Ret ErrCgroupQuotaExceeded) (ob, t @ u)"
  shows "wp (apply_limits E dir l) Q (ob, t)"
  using ok
  by (auto intro!: write_sysfs_rule err
      simp: apply_limits_def Let_def wp_simps unat_cpu_quota unat_memory_bytes limit_writes_def)

lemma create_cgroup_rule:
  fixes cm :: CgroupManager and sbx_id :: string
  defines "dir \<equiv> path_append (m_root_path cm) sbx_id"
  assumes free: "\<not> cm_mutex cm"
    and known: "map_of (m_cgroups cm) sbx_id \<noteq> None \<Longrightarrow> Q (Ret ErrInvalidSandboxID) (cm, t)"
    and nodir: "map_of (m_cgroups cm) sbx_id = None \<Longrightarrow>
      Q (Ret ErrCgroupQuotaExceeded) (cm, t @ [CreateDirectories dir False])"
    and undone: "\<And>u. map_of (m_cgroups cm) sbx_id = None \<Longrightarrow> list_all fs_event u \<Longrightarrow>
      Q (Ret ErrCgroupQuotaExceeded) (cm, t @ CreateDirectories dir True # u @ [RemoveAll dir])"
    and made: "\<And>c1 c2 c3 ino fd. map_of (m_cgroups cm) sbx_id = None \<Longrightarrow> ino \<noteq> 0 \<Longrightarrow> fd \<ge> 0 \<Longrightarrow>
      Q (Ret Success)
        (cm\<lparr>m_cgroups := AList.update sbx_id (make_info sbx_id dir ino fd l) (m_cgroups cm)\<rparr>,
         t @ CreateDirectories dir True # limit_writes dir l c1 c2 c3 @ [Stat dir (Some ino), Open dir fd])"
  shows "wp (create_cgroup E sbx_id l) Q (cm, t)"
proof (cases "map_of (m_cgroups cm) sbx_id")
  case (Some i)
  then show ?thesis using free known by (simp add: create_cgroup_def wp_simps)
next
  case None
  let ?cm = "cm\<lparr>cm_mutex := True\<rparr>"
  have stat: "wp (fetch_inode_id E dir) Q' (ob, t') \<longleftrightarrow>
      Q' (Ret (case e_stat E t' dir of Some ino \<Rightarrow> ino | None \<Rightarrow> 0)) (ob, t' @ [Stat dir (e_stat E t' dir)])"
    for Q' and ob :: CgroupManager and t'
    by (simp add: fetch_inode_id_def wp_simps split: option.split)
  have fail: "Q (Ret ErrCgroupQuotaExceeded) (cm, t @ CreateDirectories dir True # u @ [RemoveAll dir])"
    if "list_all fs_event u" for u
    using undone [OF None that] .
  show ?thesis
  proof (cases "e_create_directories E t dir")
    case False
    then show ?thesis using free None nodir [OF None]
      by (simp add: create_cgroup_def wp_simps dir_def)
  next
    case True
    let ?w = "\<lambda>c1 c2 c3. limit_writes dir l c1 c2 c3"
    let ?t = "\<lambda>c1 c2 c3. t @ CreateDirectories dir True # ?w c1 c2 c3"
    show ?thesis
      using free None True
      apply (simp add: create_cgroup_def wp_guarded wp_bindM wp_seqM wp_self wp_retM wp_if
          fs_create_directories_def wp_sys dir_def [symmetric])
      apply (rule apply_limits_rule)
      subgoal for c1 c2 c3
        using made [OF None, of _ "e_open E (?t c1 c2 c3 @ [Stat dir (e_stat E (?t c1 c2 c3) dir)]) dir" c1 c2 c3]
          fail [of "?w c1 c2 c3 @ [Stat dir (e_stat E (?t c1 c2 c3) dir)]"]
          fail [of "?w c1 c2 c3 @ [Stat dir (e_stat E (?t c1 c2 c3) dir),
            Open dir (e_open E (?t c1 c2 c3 @ [Stat dir (e_stat E (?t c1 c2 c3) dir)]) dir)]"]
        by (cases "e_stat E (?t c1 c2 c3) dir") (auto simp: wp_simps stat fs_event_def make_info_def)
      subgoal for u
        using fail [of u] by (simp add: wp_simps)
      done
  qed
qed

lemma attach_pid_rule:
  assumes "\<not> cm_mutex cm"
    and "map_of (m_cgroups cm) sbx_id = None \<Longrightarrow> Q (Ret ErrInvalidSandboxID) (cm, t)"
    and "\<And>info u. map_of (m_cgroups cm) sbx_id = Some info \<Longrightarrow> list_all fs_event u \<Longrightarrow>
      Q (Ret ErrCgroupQuotaExceeded) (cm, t @ u)"
    and "\<And>info c. map_of (m_cgroups cm) sbx_id = Some info \<Longrightarrow>
      Q (Ret Success)
        (cm, t @ sysfs_write (path_append (cgroup_path info) ''cgroup.procs'') (dec_int pid) c)"
  shows "wp (attach_pid E sbx_id pid) Q (cm, t)"
  using assms
  by (cases "map_of (m_cgroups cm) sbx_id")
    (auto intro!: write_sysfs_rule simp: attach_pid_def wp_simps)

definition destroy_events :: "CgroupInfo \<Rightarrow> trace" where
  "destroy_events info =
     (if cgroup_fd info \<ge> 0 then [Close (cgroup_fd info)] else []) @ [RemoveAll (cgroup_path info)]"

lemma destroy_cgroup_run:
  assumes "\<not> cm_mutex cm"
  shows "destroy_cgroup sbx_id (cm, t) =
    (case map_of (m_cgroups cm) sbx_id of
       None \<Rightarrow> (Ret ErrInvalidSandboxID, (cm, t))
     | Some info \<Rightarrow> (Ret Success, (cm\<lparr>m_cgroups := AList.delete sbx_id (m_cgroups cm)\<rparr>,
                       t @ destroy_events info)))"
proof -
  have "wp (destroy_cgroup sbx_id) (\<lambda>r s. (r, s) =
     (case map_of (m_cgroups cm) sbx_id of
       None \<Rightarrow> (Ret ErrInvalidSandboxID, (cm, t))
     | Some info \<Rightarrow> (Ret Success, (cm\<lparr>m_cgroups := AList.delete sbx_id (m_cgroups cm)\<rparr>,
                       t @ destroy_events info)))) (cm, t)"
    using assms
    by (cases "map_of (m_cgroups cm) sbx_id")
      (auto simp: destroy_cgroup_def wp_simps destroy_events_def)
  then show ?thesis by (simp add: wp_def split: prod.splits)
qed

lemma get_cgroup_id_run:
  "\<not> cm_mutex cm \<Longrightarrow> get_cgroup_id sbx_id (cm, t) =
    (Ret (case map_of (m_cgroups cm) sbx_id of Some info \<Rightarrow> cgroup_id info | None \<Rightarrow> 0), (cm, t))"
  by (simp add: get_cgroup_id_def cm.guarded_reader)

lemma destroy_entries_run:
  assumes "distinct ids"
    and "\<And>sbx_id. sbx_id \<in> set ids \<Longrightarrow> map_of (m_cgroups cm) sbx_id = Some (info sbx_id)"
  shows "\<exists>m. forM ids destroy_entry (cm, t) =
    (Ret (), (cm\<lparr>m_cgroups := m\<rparr>, t @ concat (map (\<lambda>k. destroy_events (info k)) ids)))"
  using assms
proof (induction ids arbitrary: cm t)
  case Nil
  then show ?case by (intro exI [of _ "m_cgroups cm"]) (simp add: retM_def)
next
  case (Cons a ids)
  have a: "map_of (m_cgroups cm) a = Some (info a)" using Cons.prems by simp
  obtain m where run: "destroy_entry a (cm, t) = (Ret (), (cm\<lparr>m_cgroups := m\<rparr>, t @ destroy_events (info a)))"
    and rest: "\<And>b. b \<noteq> a \<Longrightarrow> map_of m b = map_of (m_cgroups cm) b"
  proof (cases "cgroup_fd (info a) \<ge> 0")
    case True
    show thesis
      by (rule that [of "AList.update a ((info a)\<lparr>cgroup_fd := -1\<rparr>) (m_cgroups cm)"])
        (simp_all add: True a destroy_entry_def destroy_events_def bindM_def seqM_def self_def
          assign_def retM_def c_close_def fs_remove_all_def sys_def um.find_insert_other)
  next
    case False
    show thesis
      by (rule that [of "m_cgroups cm"])
        (simp_all add: False a destroy_entry_def destroy_events_def bindM_def seqM_def self_def
          retM_def fs_remove_all_def sys_def)
  qed
  have "map_of (m_cgroups (cm\<lparr>m_cgroups := m\<rparr>)) b = Some (info b)" if "b \<in> set ids" for b
    using that Cons.prems rest [of b] by auto
  then obtain m' where "forM ids destroy_entry (cm\<lparr>m_cgroups := m\<rparr>, t @ destroy_events (info a)) =
      (Ret (), (cm\<lparr>m_cgroups := m'\<rparr>, t @ destroy_events (info a) @ concat (map (\<lambda>k. destroy_events (info k)) ids)))"
    using Cons.IH [of "cm\<lparr>m_cgroups := m\<rparr>" "t @ destroy_events (info a)"] Cons.prems(1) by auto
  with run show ?case by (auto simp: bindM_def)
qed

lemma destroy_all_run:
  assumes free: "\<not> cm_mutex cm" and wf: "um_wf (m_cgroups cm)" and it: "iterates E"
  shows "destroy_all E (cm, t) = (Ret (), (cm\<lparr>m_cgroups := []\<rparr>,
    t @ concat (map (\<lambda>k. destroy_events (the (map_of (m_cgroups cm) k)))
                  (e_iter_strings E t (um_keys (m_cgroups cm))))))"
proof -
  let ?ids = "e_iter_strings E t (um_keys (m_cgroups cm))"
  let ?info = "\<lambda>k. the (map_of (m_cgroups cm) k)"
  have "distinct ?ids" using wf it by (simp add: iterates_distinct um.wf_distinct)
  moreover have "map_of (m_cgroups (cm\<lparr>cm_mutex := True\<rparr>)) k = Some (?info k)" if "k \<in> set ?ids" for k
    using that um.keys_find [of k "m_cgroups cm"] by (auto simp: iterates_set [OF it])
  ultimately obtain m where "forM ?ids destroy_entry (cm\<lparr>cm_mutex := True\<rparr>, t) =
      (Ret (), (cm\<lparr>cm_mutex := True, m_cgroups := m\<rparr>, t @ concat (map (\<lambda>k. destroy_events (?info k)) ?ids)))"
    using destroy_entries_run [of ?ids "cm\<lparr>cm_mutex := True\<rparr>" ?info t] by auto
  then show ?thesis
    using free by (cases cm)
      (simp add: destroy_all_def guarded_def lock_guard_def bindM_def seqM_def getM_def assign_def comp_def)
qed

section \<open>The invariant\<close>

text \<open>
  \<open>others\<close> are descriptors other components hold. Every entry is filed under its own name, lies
  below the root directory, has a nonzero inode number and an open descriptor.
\<close>

definition cg_fds :: "CgroupManager \<Rightarrow> int multiset" where
  "cg_fds cm = image_mset (\<lambda>(k, info). cgroup_fd info) (mset (m_cgroups cm))"

definition cg_entry_ok :: "path \<Rightarrow> string \<Rightarrow> CgroupInfo \<Rightarrow> bool" where
  "cg_entry_ok root k info \<longleftrightarrow>
     ci_sandbox_id info = k \<and> cgroup_path info = path_append root k \<and>
     cgroup_id info \<noteq> 0 \<and> cgroup_fd info \<ge> 0"

definition cg_ok :: "path \<Rightarrow> CgroupManager \<Rightarrow> bool" where
  "cg_ok root cm \<longleftrightarrow>
     \<not> cm_mutex cm \<and> m_root_path cm = root \<and> um_wf (m_cgroups cm) \<and>
     (\<forall>k info. map_of (m_cgroups cm) k = Some info \<longrightarrow> cg_entry_ok root k info)"

definition cg_inv :: "path \<Rightarrow> int multiset \<Rightarrow> CgroupManager \<times> trace \<Rightarrow> bool" where
  "cg_inv root others = (\<lambda>(cm, t).
     cg_ok root cm \<and> opened_fds t = closed_fds t + cg_fds cm + others)"

lemma cg_okD:
  assumes "cg_ok root cm"
  shows "\<not> cm_mutex cm" and "m_root_path cm = root" and "um_wf (m_cgroups cm)"
    and "map_of (m_cgroups cm) k = Some info \<Longrightarrow> cg_entry_ok root k info"
  using assms by (auto simp: cg_ok_def)

lemma cg_ok_insert:
  "cg_ok root cm \<Longrightarrow> cg_entry_ok root k info \<Longrightarrow>
    cg_ok root (cm\<lparr>m_cgroups := AList.update k info (m_cgroups cm)\<rparr>)"
  by (auto simp: cg_ok_def um.find_insert um.wf_insert split: if_splits)

lemma cg_ok_erase:
  "cg_ok root cm \<Longrightarrow> cg_ok root (cm\<lparr>m_cgroups := AList.delete k (m_cgroups cm)\<rparr>)"
  by (auto simp: cg_ok_def um.find_erase um.wf_erase split: if_splits)

lemma cg_fds_insert:
  "map_of (m_cgroups cm) k = None \<Longrightarrow>
    cg_fds (cm\<lparr>m_cgroups := AList.update k info (m_cgroups cm)\<rparr>) = add_mset (cgroup_fd info) (cg_fds cm)"
  by (simp add: cg_fds_def update_new)

lemma cg_fds_erase:
  "um_wf (m_cgroups cm) \<Longrightarrow> map_of (m_cgroups cm) k = Some info \<Longrightarrow>
    cg_fds cm = add_mset (cgroup_fd info) (cg_fds (cm\<lparr>m_cgroups := AList.delete k (m_cgroups cm)\<rparr>))"
  using mset_map_delete [of "m_cgroups cm" k info "\<lambda>(k, info). cgroup_fd info"]
  by (simp add: cg_fds_def)

lemma destroy_events_fds [simp]:
  "opened_fds (destroy_events info) = {#}"
  "closed_fds (destroy_events info) = (if cgroup_fd info \<ge> 0 then {#cgroup_fd info#} else {#})"
  by (simp_all add: destroy_events_def)

lemma destroy_concat_fds:
  assumes "\<And>k. k \<in> set ks \<Longrightarrow> cgroup_fd (info k) \<ge> 0"
  shows "opened_fds (concat (map (\<lambda>k. destroy_events (info k)) ks)) = {#}"
    and "closed_fds (concat (map (\<lambda>k. destroy_events (info k)) ks)) =
      image_mset (\<lambda>k. cgroup_fd (info k)) (mset ks)"
  using assms by (induction ks) auto

lemma create_cgroup_inv:
  assumes "cg_inv root X (cm, t)"
  shows "wp (create_cgroup E sbx_id l) (\<lambda>r s. (\<exists>st. r = Ret st) \<and> cg_inv root X s) (cm, t)"
  using assms
  by (intro create_cgroup_rule)
    (auto simp: cg_inv_def cg_okD cg_ok_insert cg_fds_insert make_info_def cg_entry_ok_def fs_event_quiet)

lemma attach_pid_inv:
  assumes "cg_inv root X (cm, t)"
  shows "wp (attach_pid E sbx_id pid) (\<lambda>r s. (\<exists>st. r = Ret st) \<and> cg_inv root X s) (cm, t)"
  using assms
  by (intro attach_pid_rule) (auto simp: cg_inv_def cg_okD fs_event_quiet)

lemma destroy_cgroup_inv:
  assumes "cg_inv root X (cm, t)"
  shows "wp (destroy_cgroup sbx_id) (\<lambda>r s. (\<exists>st. r = Ret st) \<and> cg_inv root X s) (cm, t)"
proof -
  have ok: "cg_ok root cm" using assms by (simp add: cg_inv_def)
  show ?thesis
  proof (cases "map_of (m_cgroups cm) sbx_id")
    case None
    then show ?thesis using assms by (simp add: wp_def cg_okD [OF ok] destroy_cgroup_run)
  next
    case (Some info)
    have "cgroup_fd info \<ge> 0" using cg_okD(4) [OF ok Some] by (simp add: cg_entry_ok_def)
    then show ?thesis
      using assms Some cg_fds_erase [OF cg_okD(3) [OF ok] Some]
      by (simp add: wp_def cg_inv_def cg_okD [OF ok] destroy_cgroup_run cg_ok_erase)
  qed
qed

lemma destroy_all_fds:
  assumes ok: "cg_ok root cm" and it: "iterates E"
  shows "closed_fds (concat (map (\<lambda>k. destroy_events (the (map_of (m_cgroups cm) k)))
      (e_iter_strings E t (um_keys (m_cgroups cm))))) = cg_fds cm"
    and "opened_fds (concat (map (\<lambda>k. destroy_events (the (map_of (m_cgroups cm) k)))
      (e_iter_strings E t (um_keys (m_cgroups cm))))) = {#}"
proof -
  let ?ids = "e_iter_strings E t (um_keys (m_cgroups cm))"
  let ?info = "\<lambda>k. the (map_of (m_cgroups cm) k)"
  have pos: "cgroup_fd (?info k) \<ge> 0" if "k \<in> set ?ids" for k
    using that um.keys_find [of k "m_cgroups cm"] cg_okD(4) [OF ok, of k]
    by (auto simp: iterates_set [OF it] cg_entry_ok_def)
  show "opened_fds (concat (map (\<lambda>k. destroy_events (?info k)) ?ids)) = {#}"
    by (rule destroy_concat_fds(1)) (rule pos)
  have "mset ?ids = mset (um_keys (m_cgroups cm))" using it by (simp add: iterates_def)
  then show "closed_fds (concat (map (\<lambda>k. destroy_events (?info k)) ?ids)) = cg_fds cm"
    using destroy_concat_fds(2) [of ?ids ?info, OF pos]
      mset_map_keys [OF cg_okD(3) [OF ok], of "\<lambda>(k, info). cgroup_fd info"]
    by (simp add: cg_fds_def)
qed

lemma destroy_all_inv:
  assumes inv: "cg_inv root X (cm, t)" and it: "iterates E"
  shows "wp (destroy_all E) (\<lambda>r s. r = Ret () \<and> cg_inv root X s \<and> m_cgroups (fst s) = []) (cm, t)"
proof -
  have ok: "cg_ok root cm" using inv by (simp add: cg_inv_def)
  have "cg_ok root (cm\<lparr>m_cgroups := []\<rparr>)" using ok by (simp add: cg_ok_def um.wf_empty)
  moreover have "cg_fds (cm\<lparr>m_cgroups := []\<rparr>) = {#}" by (simp add: cg_fds_def)
  ultimately show ?thesis
    using inv destroy_all_run [OF cg_okD(1) [OF ok] cg_okD(3) [OF ok] it, of t]
      destroy_all_fds [OF ok it, of t]
    by (simp add: wp_def cg_inv_def)
qed

section \<open>Sequences of calls and the abstract contract\<close>

datatype CgroupCall =
    CreateCgroup string CgroupLimits
  | AttachPid string int
  | DestroyCgroup string
  | DestroyAll

primrec cg_call :: "env \<Rightarrow> CgroupCall \<Rightarrow> (CgroupManager, Status) action" where
  "cg_call E (CreateCgroup k l) = create_cgroup E k l"
| "cg_call E (AttachPid k pid) = attach_pid E k pid"
| "cg_call E (DestroyCgroup k) = destroy_cgroup k"
| "cg_call E DestroyAll = seqM (destroy_all E) (retM Success)"

definition cg_start :: "env \<Rightarrow> path \<Rightarrow> CgroupManager \<times> trace" where
  "cg_start E root = snd (construct_CgroupManager E (init_CgroupManager root, []))"

text \<open>
  The manager as its clients see it: a partial function from names to limits. A creation either
  enters the name or changes nothing, and a name is never entered twice.
\<close>

definition cg_abs :: "CgroupManager \<Rightarrow> string \<rightharpoonup> CgroupLimits" where
  "cg_abs cm = map_option ci_limits \<circ> map_of (m_cgroups cm)"

inductive cg_spec ::
    "CgroupCall \<Rightarrow> Status \<Rightarrow> (string \<rightharpoonup> CgroupLimits) \<Rightarrow> (string \<rightharpoonup> CgroupLimits) \<Rightarrow> bool" where
  created: "m k = None \<Longrightarrow> cg_spec (CreateCgroup k l) Success m (m(k \<mapsto> l))"
| refused: "m k = None \<Longrightarrow> cg_spec (CreateCgroup k l) ErrCgroupQuotaExceeded m m"
| duplicate: "m k \<noteq> None \<Longrightarrow> cg_spec (CreateCgroup k l) ErrInvalidSandboxID m m"
| attached: "m k \<noteq> None \<Longrightarrow> cg_spec (AttachPid k pid) Success m m"
| unattached: "m k \<noteq> None \<Longrightarrow> cg_spec (AttachPid k pid) ErrCgroupQuotaExceeded m m"
| attach_unknown: "m k = None \<Longrightarrow> cg_spec (AttachPid k pid) ErrInvalidSandboxID m m"
| destroyed: "m k \<noteq> None \<Longrightarrow> cg_spec (DestroyCgroup k) Success m (m(k := None))"
| destroy_unknown: "m k = None \<Longrightarrow> cg_spec (DestroyCgroup k) ErrInvalidSandboxID m m"
| cleared: "cg_spec DestroyAll Success m Map.empty"

inductive_simps cg_spec_simps:
  "cg_spec (CreateCgroup k l) st m m'"
  "cg_spec (AttachPid k pid) st m m'"
  "cg_spec (DestroyCgroup k) st m m'"
  "cg_spec DestroyAll st m m'"

lemma cg_start_inv: "cg_inv root {#} (cg_start E root)"
proof -
  have "wp (construct_CgroupManager E) (\<lambda>r s. cg_inv root {#} s) (init_CgroupManager root, [])"
    by (auto intro!: write_sysfs_rule simp: construct_CgroupManager_def wp_simps init_CgroupManager_def
        cg_inv_def cg_ok_def cg_fds_def um.wf_empty fs_event_quiet)
  then show ?thesis by (simp add: cg_start_def wp_def split: prod.splits)
qed

lemma cg_call_inv:
  assumes "cg_inv root X s" and it: "iterates E"
  shows "wp (cg_call E c) (\<lambda>r s'. (\<exists>st. r = Ret st) \<and> cg_inv root X s') s"
proof -
  obtain cm t where s: "s = (cm, t)" by (cases s)
  show ?thesis
  proof (cases c)
    case DestroyAll
    then show ?thesis
      using destroy_all_inv [OF assms(1) [unfolded s] it]
      by (auto simp: s wp_def seqM_def bindM_def retM_def split: prod.splits)
  qed (use assms in \<open>simp_all add: s create_cgroup_inv attach_pid_inv destroy_cgroup_inv\<close>)
qed

interpretation cg: class_invariant "cg_call E" "cg_start E root" "\<lambda>s. iterates E \<longrightarrow> cg_inv root {#} s"
  for E root
proof unfold_locales
  show "iterates E \<longrightarrow> cg_inv root {#} (cg_start E root)" by (simp add: cg_start_inv)
  show "wp (cg_call E c) (\<lambda>r s'. (\<exists>x. r = Ret x) \<or> (\<exists>e. r = Throw e) \<longrightarrow> iterates E \<longrightarrow> cg_inv root {#} s') s"
    if "iterates E \<longrightarrow> cg_inv root {#} s" for s c
    using that cg_call_inv [of root "{#}" s E c] by (auto simp: wp_def split: prod.splits)
qed

lemma cg_abs_simps [simp]:
  "cg_abs (cm\<lparr>m_cgroups := AList.update k info m\<rparr>) = (cg_abs (cm\<lparr>m_cgroups := m\<rparr>))(k \<mapsto> ci_limits info)"
  "cg_abs (cm\<lparr>m_cgroups := AList.delete k m\<rparr>) = (cg_abs (cm\<lparr>m_cgroups := m\<rparr>))(k := None)"
  "cg_abs (cm\<lparr>m_cgroups := []\<rparr>) = Map.empty"
  by (auto simp: cg_abs_def update_conv' delete_conv')

text \<open>Creation when every call succeeds, and a manager that has created one cgroup.\<close>

lemma good_create_run:
  fixes cm :: CgroupManager and k :: string
  defines "dir \<equiv> path_append (m_root_path cm) k"
  assumes "\<not> cm_mutex cm" and "map_of (m_cgroups cm) k = None"
  shows "create_cgroup good_env k l (cm, t) =
    (Ret Success, (cm\<lparr>m_cgroups := AList.update k (make_info k dir 77 3 l) (m_cgroups cm)\<rparr>,
      t @ CreateDirectories dir True # limit_writes dir l True True True @
        [Stat dir (Some 77), Open dir 3]))"
  using assms
  by (cases cm) (simp add: create_cgroup_def apply_limits_def write_sysfs_file_def fetch_inode_id_def
      call_defs guarded_def lock_guard_def bindM_def seqM_def retM_def self_def assign_def sys_def
      good_env_def Let_def make_info_def limit_writes_def sysfs_write_def unat_cpu_quota
      unat_memory_bytes)

lemma good_reachable:
  "\<exists>cm t info. reachable (cg_call good_env) (cg_start good_env ''/sys/fs/cgroup/aegis'') (cm, t) \<and>
     map_of (m_cgroups cm) ''sbx-1'' = Some info"
proof -
  let ?s = "cg_start good_env ''/sys/fs/cgroup/aegis''"
  have cm: "fst ?s = init_CgroupManager ''/sys/fs/cgroup/aegis''"
    by (simp add: cg_start_def construct_CgroupManager_def write_sysfs_file_def call_defs bindM_def
        seqM_def retM_def self_def sys_def good_env_def)
  then obtain t where s: "?s = (init_CgroupManager ''/sys/fs/cgroup/aegis'', t)" by (cases ?s) simp
  have new: "\<not> cm_mutex (init_CgroupManager r)" "map_of (m_cgroups (init_CgroupManager r)) k = None" for r k
    by (simp_all add: init_CgroupManager_def)
  have "reachable (cg_call good_env) ?s (snd (cg_call good_env (CreateCgroup ''sbx-1'' new_CgroupLimits) ?s))"
    by (rule reachable.returns [OF reachable.start, where c = "CreateCgroup ''sbx-1'' new_CgroupLimits"])
      (simp add: s good_create_run [OF new])
  then show ?thesis
    by (fastforce simp: s good_create_run [OF new] um.find_insert_same)
qed

section \<open>Properties\<close>



text \<open>
  C13: A creation always returns, and one that fails changes nothing in the table. A known name is
  refused without touching the system; in every other case a directory that was created is removed
  again as the last step.
\<close>

theorem create_cgroup_failure:
  assumes "\<not> cm_mutex cm"
  shows "\<exists>st cm' t'. create_cgroup E sbx_id l (cm, t) = (Ret st, (cm', t')) \<and>
    (st \<noteq> Success \<longrightarrow> cm' = cm \<and>
      (if map_of (m_cgroups cm) sbx_id \<noteq> None then st = ErrInvalidSandboxID \<and> t' = t
       else st = ErrCgroupQuotaExceeded \<and>
         (t' = t @ [CreateDirectories (path_append (m_root_path cm) sbx_id) False] \<or>
          (\<exists>u. list_all fs_event u \<and>
             t' = t @ CreateDirectories (path_append (m_root_path cm) sbx_id) True # u @
               [RemoveAll (path_append (m_root_path cm) sbx_id)]))))"
  (is "\<exists>st cm' t'. ?run st cm' t' \<and> ?P st cm' t'")
proof -
  have "wp (create_cgroup E sbx_id l) (\<lambda>r (cm', t'). \<exists>st. r = Ret st \<and> ?P st cm' t') (cm, t)"
    by (rule create_cgroup_rule [OF assms]) auto
  then show ?thesis by (rule wp_returns)
qed

theorem create_cgroup_failure_witness:
  "\<exists>t'. create_cgroup (good_env\<lparr>e_stat := \<lambda>t p. None\<rparr>) ''sbx-1'' new_CgroupLimits
       (init_CgroupManager ''/sys/fs/cgroup/aegis'', []) =
     (Ret ErrCgroupQuotaExceeded, (init_CgroupManager ''/sys/fs/cgroup/aegis'', t'))"
proof -
  let ?cm = "init_CgroupManager ''/sys/fs/cgroup/aegis''" and ?E = "good_env\<lparr>e_stat := \<lambda>t p. None\<rparr>"
  have "\<not> cm_mutex ?cm" by (simp add: init_CgroupManager_def)
  moreover have "fst (create_cgroup ?E ''sbx-1'' new_CgroupLimits (?cm, [])) = Ret ErrCgroupQuotaExceeded"
    by (simp add: create_cgroup_def apply_limits_def write_sysfs_file_def fetch_inode_id_def call_defs
        guarded_def lock_guard_def bindM_def seqM_def retM_def self_def sys_def
        init_CgroupManager_def good_env_def Let_def)
  ultimately show ?thesis
    using create_cgroup_failure [of ?cm ?E "''sbx-1''" new_CgroupLimits "[]"] by auto
qed

text \<open>
  C17: Whatever sequence of calls a manager has served, every descriptor it opened was closed once
  or is held by the table once, and every entry is filed under its own name, lies below the root
  directory and has a nonzero inode number and a valid descriptor.
\<close>

theorem cgroup_descriptors_balance:
  assumes "iterates E" and "reachable (cg_call E) (cg_start E root) (cm, t)"
  shows "opened_fds t = closed_fds t + cg_fds cm \<and>
    (\<forall>k info. map_of (m_cgroups cm) k = Some info \<longrightarrow>
       ci_sandbox_id info = k \<and> cgroup_path info = path_append root k \<and>
       cgroup_id info \<noteq> 0 \<and> cgroup_fd info \<ge> 0)"
  using cg.reachable_inv [OF assms(2)] assms(1)
  by (auto simp: cg_inv_def cg_ok_def cg_entry_ok_def)

theorem cgroup_descriptors_balance_witness:
  "\<exists>cm t info. reachable (cg_call good_env) (cg_start good_env ''/sys/fs/cgroup/aegis'') (cm, t) \<and>
     map_of (m_cgroups cm) ''sbx-1'' = Some info \<and>
     opened_fds t = closed_fds t + cg_fds cm \<and>
     cgroup_path info = path_append ''/sys/fs/cgroup/aegis'' ''sbx-1''"
  using good_reachable cgroup_descriptors_balance [OF good_env_iterates] by blast

text \<open>
  C18: The destructor releases everything: from every state the manager can reach it returns with
  an empty table, each descriptor that was ever opened closed, and a removal of the directory of
  every entry.
\<close>

theorem destruct_releases_all:
  assumes "iterates E" and "reachable (cg_call E) (cg_start E root) (cm, t)"
  shows "\<exists>u. destruct_CgroupManager E (cm, t) = (Ret (), (cm\<lparr>m_cgroups := []\<rparr>, t @ u)) \<and>
    opened_fds (t @ u) = closed_fds (t @ u) \<and>
    (\<forall>k \<in> dom (map_of (m_cgroups cm)). RemoveAll (path_append root k) \<in> set u)"
proof -
  have inv: "cg_inv root {#} (cm, t)" using cg.reachable_inv [OF assms(2)] assms(1) by simp
  then have ok: "cg_ok root cm" by (simp add: cg_inv_def)
  let ?ids = "e_iter_strings E t (um_keys (m_cgroups cm))"
  let ?u = "concat (map (\<lambda>k. destroy_events (the (map_of (m_cgroups cm) k))) ?ids)"
  have "RemoveAll (path_append root k) \<in> set ?u" if "map_of (m_cgroups cm) k = Some info" for k info
  proof -
    have "k \<in> set ?ids" using that by (simp add: iterates_set [OF assms(1)] um.keys_find)
    moreover have "RemoveAll (path_append root k) \<in> set (destroy_events (the (map_of (m_cgroups cm) k)))"
      using that cg_okD(4) [OF ok that] by (simp add: destroy_events_def cg_entry_ok_def)
    ultimately show ?thesis by auto
  qed
  then show ?thesis
    using inv destroy_all_run [OF cg_okD(1) [OF ok] cg_okD(3) [OF ok] assms(1), of t]
      destroy_all_fds [OF ok assms(1), of t]
    by (auto simp: destruct_CgroupManager_def cg_inv_def)
qed

theorem destruct_releases_all_witness:
  "\<exists>cm t u. destruct_CgroupManager good_env (cm, t) = (Ret (), (cm\<lparr>m_cgroups := []\<rparr>, t @ u)) \<and>
     opened_fds (t @ u) = closed_fds (t @ u) \<and>
     RemoveAll (path_append ''/sys/fs/cgroup/aegis'' ''sbx-1'') \<in> set u"
  using good_reachable destruct_releases_all [OF good_env_iterates, of "''/sys/fs/cgroup/aegis''"] by blast

text \<open>
  C11: The manager refines its contract: every call returns, with a status and an effect on the
  table of limits that the contract allows.
\<close>

theorem cgroup_refines_spec:
  assumes "iterates E" and "reachable (cg_call E) (cg_start E root) (cm, t)"
  shows "\<exists>st cm' t'. cg_call E c (cm, t) = (Ret st, (cm', t')) \<and> cg_spec c st (cg_abs cm) (cg_abs cm')"
proof -
  have "cg_ok root cm" using cg.reachable_inv [OF assms(2)] assms(1) by (simp add: cg_inv_def)
  then have free: "\<not> cm_mutex cm" and wf: "um_wf (m_cgroups cm)" by (simp_all add: cg_okD)
  have abs: "cg_abs cm k = None \<longleftrightarrow> map_of (m_cgroups cm) k = None"
    "(\<exists>y. cg_abs cm k = Some y) \<longleftrightarrow> (\<exists>y. map_of (m_cgroups cm) k = Some y)" for k
    by (auto simp: cg_abs_def)
  have "wp (cg_call E c) (\<lambda>r (cm', t'). \<exists>st. r = Ret st \<and> cg_spec c st (cg_abs cm) (cg_abs cm')) (cm, t)"
  proof (cases c)
    case (CreateCgroup k l)
    show ?thesis
      unfolding CreateCgroup cg_call.simps
      by (rule create_cgroup_rule [OF free]) (simp_all add: cg_spec_simps abs make_info_def)
  next
    case (AttachPid k pid)
    show ?thesis
      unfolding AttachPid cg_call.simps
      by (rule attach_pid_rule [OF free]) (simp_all add: cg_spec_simps abs)
  next
    case (DestroyCgroup k)
    then show ?thesis
      by (simp add: wp_def destroy_cgroup_run [OF free] cg_spec_simps abs split: option.split)
  next
    case DestroyAll
    then show ?thesis
      by (simp add: wp_def seqM_def bindM_def retM_def destroy_all_run [OF free wf assms(1)] cg_spec_simps)
  qed
  then show ?thesis by (rule wp_returns)
qed

theorem cgroup_refines_spec_witness:
  "\<exists>cm t st cm' t'. cg_call good_env (DestroyCgroup ''sbx-1'') (cm, t) = (Ret st, (cm', t')) \<and>
     cg_spec (DestroyCgroup ''sbx-1'') st (cg_abs cm) (cg_abs cm')"
  using good_reachable cgroup_refines_spec [OF good_env_iterates] by blast

text \<open>
  A limit that never reached the kernel is reported as success. When the flush of every limit
  file fails, creation still returns success: \<open>good()\<close> is read before the buffer is written.
\<close>

theorem create_cgroup_unflushed:
  "\<exists>cm' t'. create_cgroup (good_env\<lparr>e_ofs_close := \<lambda>t p. False\<rparr>) sbx_id l (init_CgroupManager root, []) =
     (Ret Success, (cm', t')) \<and>
   OfsClose (path_append (path_append root sbx_id) ''memory.max'') False \<in> set t' \<and>
   (\<forall>p. OfsClose p True \<notin> set t')"
  by (simp add: create_cgroup_def apply_limits_def write_sysfs_file_def fetch_inode_id_def call_defs
      guarded_def lock_guard_def bindM_def seqM_def retM_def self_def assign_def sys_def
      init_CgroupManager_def good_env_def Let_def)

end
