(* ===== verification/EBPF_Loader.thy ===== *)
theory EBPF_Loader
  imports System_Interface
begin

text \<open>
  The BPF loader: \<open>include/aegis/ebpf/ebpf_loader.hpp\<close> and \<open>src/ebpf/ebpf_loader.cpp\<close>. A
  pointer to a libbpf object, link or program is the number the environment handed out, a null
  pointer is \<open>None\<close>. The lemmas account for the links and objects the loader acquires and
  describe what each setter leaves in the maps of the kernel.
\<close>

section \<open>Data\<close>

record EBPFProgramMetadata =
  program_name :: string
  object_file_path :: path
  is_loaded :: bool
  is_attached :: bool

record EBPFLoader =
  el_mutex :: bool
  m_bpf_obj :: "nat option"
  m_bpf_links :: "nat list"
  m_programs :: "(string \<times> EBPFProgramMetadata) list"
  m_is_loaded :: bool

definition new_EBPFLoader :: EBPFLoader where
  "new_EBPFLoader =
     \<lparr>el_mutex = False, m_bpf_obj = None, m_bpf_links = [], m_programs = [], m_is_loaded = False\<rparr>"

abbreviation el_locked :: "(EBPFLoader, 'a) action \<Rightarrow> (EBPFLoader, 'a) action" where
  "el_locked body \<equiv> guarded el_mutex (\<lambda>b. el_mutex_update (\<lambda>_. b)) body"

interpretation el: mutex_class el_mutex "\<lambda>b. el_mutex_update (\<lambda>_. b)"
  by unfold_locales simp_all

lemma el_unlock [simp]: "\<not> el_mutex el \<Longrightarrow> el\<lparr>el_mutex := False\<rparr> = el"
  by (rule el.set_same) simp

section \<open>Operations\<close>

text \<open>
  The loop over the programs of an object. A program without a name is skipped. Only the member
  \<open>m_bpf_obj\<close> remembers the object: an object that was loaded before is overwritten.
\<close>

primrec enter_programs ::
    "path \<Rightarrow> string option list \<Rightarrow> (string \<times> EBPFProgramMetadata) list \<Rightarrow>
     (string \<times> EBPFProgramMetadata) list" where
  "enter_programs p [] m = m"
| "enter_programs p (prog # progs) m =
     enter_programs p progs (case prog of
       None \<Rightarrow> m
     | Some n \<Rightarrow> AList.update n
         \<lparr>program_name = n, object_file_path = p, is_loaded = True, is_attached = False\<rparr> m)"

definition load_bpf_object :: "env \<Rightarrow> path \<Rightarrow> (EBPFLoader, Status) action" where
  "load_bpf_object E object_path = el_locked (
     bindM (fs_exists E object_path) (\<lambda>found.
     if \<not> found then retM ErrEBPFProbeLoadFailed
     else bindM (sys (\<lambda>t. e_obj_open E t object_path) (ObjOpen object_path)) (\<lambda>obj.
     seqM (assign (\<lambda>el. el\<lparr>m_bpf_obj := obj\<rparr>))
     (case obj of
        None \<Rightarrow> retM ErrEBPFProbeLoadFailed
      | Some ob \<Rightarrow>
          bindM (sys (\<lambda>t. e_obj_load E t ob) (ObjLoad ob)) (\<lambda>err.
          if err < 0
          then seqM (sys (\<lambda>t. ()) (\<lambda>_. ObjClose ob))
              (seqM (assign (\<lambda>el. el\<lparr>m_bpf_obj := None\<rparr>))
                    (retM ErrEBPFProbeLoadFailed))
          else bindM (getM (\<lambda>(el, t). e_programs E t ob)) (\<lambda>progs.
               seqM (assign (\<lambda>el. el\<lparr>m_programs := enter_programs object_path progs (m_programs el),
                                       m_is_loaded := True\<rparr>))
                    (retM Success)))))))"

text \<open>The programs are looked up by their C string, the table by the whole name.\<close>

definition mark_attached :: "string \<Rightarrow> EBPFLoader \<Rightarrow> EBPFLoader" where
  "mark_attached n el = (case map_of (m_programs el) n of
     None \<Rightarrow> el
   | Some meta \<Rightarrow> el\<lparr>m_programs := AList.update n (meta\<lparr>is_attached := True\<rparr>) (m_programs el)\<rparr>)"

definition find_program :: "env \<Rightarrow> nat \<Rightarrow> string \<Rightarrow> ('o, nat option) action" where
  "find_program E ob n = sys (\<lambda>t. e_find_program E t ob (c_str n)) (FindProgram ob (c_str n))"

definition attach_tracepoint :: "env \<Rightarrow> string \<Rightarrow> string \<Rightarrow> string \<Rightarrow> (EBPFLoader, Status) action" where
  "attach_tracepoint E prog_name tp_category tp_name = el_locked (
     bindM (self (\<lambda>el. (m_bpf_obj el, m_is_loaded el))) (\<lambda>(obj, loaded).
     case obj of
       None \<Rightarrow> retM ErrEBPFProbeLoadFailed
     | Some ob \<Rightarrow>
         if \<not> loaded then retM ErrEBPFProbeLoadFailed
         else bindM (find_program E ob prog_name) (\<lambda>prog.
         case prog of
           None \<Rightarrow> retM ErrEBPFProbeLoadFailed
         | Some pr \<Rightarrow>
             bindM (sys (\<lambda>t. e_attach_tracepoint E t pr (c_str tp_category) (c_str tp_name))
                     (AttachTracepoint pr (c_str tp_category) (c_str tp_name))) (\<lambda>link.
             case link of
               None \<Rightarrow> retM ErrEBPFProbeLoadFailed
             | Some l \<Rightarrow>
                 seqM (assign (\<lambda>el. mark_attached prog_name (el\<lparr>m_bpf_links := m_bpf_links el @ [l]\<rparr>)))
                      (retM Success)))))"

definition attach_cgroup_connect4 :: "env \<Rightarrow> string \<Rightarrow> int \<Rightarrow> (EBPFLoader, Status) action" where
  "attach_cgroup_connect4 E prog_name fd = el_locked (
     bindM (self (\<lambda>el. (m_bpf_obj el, m_is_loaded el))) (\<lambda>(obj, loaded).
     case obj of
       None \<Rightarrow> retM ErrEBPFProbeLoadFailed
     | Some ob \<Rightarrow>
         if \<not> loaded \<or> fd < 0 then retM ErrEBPFProbeLoadFailed
         else bindM (find_program E ob prog_name) (\<lambda>prog.
         case prog of
           None \<Rightarrow> retM ErrEBPFProbeLoadFailed
         | Some pr \<Rightarrow>
             bindM (sys (\<lambda>t. e_attach_cgroup E t pr fd) (AttachCgroup pr fd)) (\<lambda>link.
             case link of
               None \<Rightarrow> retM ErrEBPFProbeLoadFailed
             | Some l \<Rightarrow>
                 seqM (assign (\<lambda>el. mark_attached prog_name (el\<lparr>m_bpf_links := m_bpf_links el @ [l]\<rparr>)))
                      (retM Success)))))"

text \<open>\<open>get_map_fd\<close> takes no lock; the setters call it with the mutex held.\<close>

definition get_map_fd :: "env \<Rightarrow> string \<Rightarrow> (EBPFLoader, int) action" where
  "get_map_fd E map_name =
     bindM (self m_bpf_obj) (\<lambda>obj.
     case obj of
       None \<Rightarrow> retM (-1)
     | Some ob \<Rightarrow>
         bindM (sys (\<lambda>t. e_find_map E t ob (c_str map_name)) (FindMap ob (c_str map_name))) (\<lambda>m.
         case m of None \<Rightarrow> retM (-1) | Some fd \<Rightarrow> retM fd))"

definition bpf_map_update_elem :: "env \<Rightarrow> int \<Rightarrow> bpf_key \<Rightarrow> u8 \<Rightarrow> ('o, int) action" where
  "bpf_map_update_elem E fd k v = sys (\<lambda>t. e_map_update E t fd k v) (MapUpdate fd k v)"

definition set_cgroup_monitored :: "env \<Rightarrow> u64 \<Rightarrow> bool \<Rightarrow> (EBPFLoader, Status) action" where
  "set_cgroup_monitored E cg is_monitored = el_locked (
     bindM (get_map_fd E ''aegis_monitored_cgroups'') (\<lambda>fd1.
     bindM (if fd1 < 0 then get_map_fd E ''aegis_monitored_cgroups_proc'' else retM fd1) (\<lambda>map_fd.
     if map_fd < 0 then retM ErrEBPFProbeLoadFailed
     else bindM (bpf_map_update_elem E map_fd (K64 cg) (if is_monitored then 1 else 0)) (\<lambda>err.
          if err \<noteq> 0 then retM ErrEBPFProbeLoadFailed else retM Success))))"

definition set_syscall_policy :: "env \<Rightarrow> u32 \<Rightarrow> u8 \<Rightarrow> (EBPFLoader, Status) action" where
  "set_syscall_policy E syscall_nr is_blocked = el_locked (
     bindM (get_map_fd E ''aegis_syscall_policy'') (\<lambda>map_fd.
     if map_fd < 0 then retM ErrEBPFProbeLoadFailed
     else bindM (bpf_map_update_elem E map_fd (K32 syscall_nr) is_blocked) (\<lambda>err.
          if err \<noteq> 0 then retM ErrEBPFProbeLoadFailed else retM Success)))"

definition set_blocked_ip :: "env \<Rightarrow> u32 \<Rightarrow> bool \<Rightarrow> (EBPFLoader, Status) action" where
  "set_blocked_ip E ipv4_network_order is_blocked = el_locked (
     bindM (get_map_fd E ''aegis_blocked_ips'') (\<lambda>map_fd.
     if map_fd < 0 then retM ErrEBPFProbeLoadFailed
     else bindM (bpf_map_update_elem E map_fd (K32 ipv4_network_order) (if is_blocked then 1 else 0)) (\<lambda>err.
          if err \<noteq> 0 then retM ErrEBPFProbeLoadFailed else retM Success)))"

definition detach_all :: "(EBPFLoader, unit) action" where
  "detach_all = el_locked (
     bindM (self m_bpf_links) (\<lambda>links.
     seqM (forM links (\<lambda>l. sys (\<lambda>t. ()) (\<lambda>_. LinkDestroy l)))
    (seqM (assign (\<lambda>el. el\<lparr>m_bpf_links := []\<rparr>))
     (bindM (self m_bpf_obj) (\<lambda>obj.
      seqM (case obj of
              None \<Rightarrow> retM ()
            | Some ob \<Rightarrow> seqM (sys (\<lambda>t. ()) (\<lambda>_. ObjClose ob)) (assign (\<lambda>el. el\<lparr>m_bpf_obj := None\<rparr>)))
           (assign (\<lambda>el. el\<lparr>
              m_programs := map (\<lambda>(n, meta). (n, meta\<lparr>is_attached := False, is_loaded := False\<rparr>)) (m_programs el),
              m_is_loaded := False\<rparr>)))))))"

definition destruct_EBPFLoader :: "(EBPFLoader, unit) action" where
  "destruct_EBPFLoader = detach_all"

lemmas loader_method_defs [method_defs] = load_bpf_object_def attach_tracepoint_def
  attach_cgroup_connect4_def set_cgroup_monitored_def set_syscall_policy_def set_blocked_ip_def
  detach_all_def

section \<open>What the setters do\<close>

text \<open>Looking up maps, and updates that failed, leave the maps as they were.\<close>

definition lookup_event :: "event \<Rightarrow> bool" where
  "lookup_event e = (case e of FindMap ob n r \<Rightarrow> True | MapUpdate fd k v err \<Rightarrow> err \<noteq> 0 | _ \<Rightarrow> False)"

lemma lookup_event_quiet:
  assumes "list_all lookup_event u"
  shows "opened_fds u = {#}" and "closed_fds u = {#}" and "forked_pids u = {#}"
    and "killed_pids u = {#}" and "attached_links u = {#}" and "destroyed_links u = {#}"
    and "opened_objs u = {#}" and "closed_objs u = {#}" and "map_value fd k u v = v"
  using assms
  by (induction u arbitrary: v) (auto simp: lookup_event_def split: event.splits)

definition map_fd_of :: "env \<Rightarrow> EBPFLoader \<Rightarrow> string \<Rightarrow> int \<Rightarrow> bool" where
  "map_fd_of E el n fd \<longleftrightarrow>
     fd \<ge> 0 \<and> (\<exists>ob t. m_bpf_obj el = Some ob \<and> e_find_map E t ob n = Some fd)"

lemma get_map_fd_rule:
  assumes "\<And>fd u. list_all lookup_event u \<Longrightarrow> fd < 0 \<or> map_fd_of E el (c_str n) fd \<Longrightarrow>
      Q (Ret fd) (el, t @ u)"
  shows "wp (get_map_fd E n) Q (el, t)"
proof (cases "m_bpf_obj el")
  case None
  then show ?thesis using assms [of "[]" "-1"] by (simp add: get_map_fd_def wp_simps)
next
  case (Some ob)
  let ?r = "e_find_map E t ob (c_str n)"
  let ?fd = "case ?r of None \<Rightarrow> -1 | Some fd \<Rightarrow> fd"
  have "?fd < 0 \<or> map_fd_of E el (c_str n) ?fd"
    using Some by (auto simp: map_fd_of_def split: option.split)
  then have "Q (Ret ?fd) (el, t @ [FindMap ob (c_str n) ?r])"
    using assms [of "[FindMap ob (c_str n) ?r]" ?fd] by (simp add: lookup_event_def)
  with Some show ?thesis
    by (cases ?r) (simp_all add: get_map_fd_def wp_simps)
qed

text \<open>The end of every setter: the update and the test of its result.\<close>

lemma map_update_rule:
  assumes "\<And>u. list_all lookup_event u \<Longrightarrow> Q (Ret ErrEBPFProbeLoadFailed) (el, t @ u)"
    and "Q (Ret Success) (el, t @ [MapUpdate fd k v 0])"
  shows "wp (bindM (bpf_map_update_elem E fd k v)
    (\<lambda>err. if err \<noteq> 0 then retM ErrEBPFProbeLoadFailed else retM Success)) Q (el, t)"
  using assms(1) [of "[MapUpdate fd k v (e_map_update E t fd k v)]"] assms(2)
  by (auto simp: bpf_map_update_elem_def wp_simps lookup_event_def)

text \<open>
  A setter with the names of its map, its key and its value: it fails and leaves every map as it
  is, or it succeeds and has stored the value in a map of one of these names.
\<close>

definition setter_post ::
    "env \<Rightarrow> EBPFLoader \<Rightarrow> trace \<Rightarrow> string list \<Rightarrow> bpf_key \<Rightarrow> u8 \<Rightarrow>
     (Status outcome \<Rightarrow> EBPFLoader \<times> trace \<Rightarrow> bool) \<Rightarrow> bool" where
  "setter_post E el t ns k v Q \<longleftrightarrow>
     (\<forall>u. list_all lookup_event u \<longrightarrow> Q (Ret ErrEBPFProbeLoadFailed) (el, t @ u)) \<and>
     (\<forall>u n fd. list_all lookup_event u \<and> n \<in> set ns \<and> map_fd_of E el n fd \<longrightarrow>
        Q (Ret Success) (el, t @ u @ [MapUpdate fd k v 0]))"

lemma map_fd_of_unlock [simp]: "map_fd_of E (el\<lparr>el_mutex := b\<rparr>) n fd = map_fd_of E el n fd"
  by (simp add: map_fd_of_def)

lemma set_syscall_policy_rule:
  assumes "\<not> el_mutex el" and "setter_post E el t [''aegis_syscall_policy''] (K32 nr) v Q"
  shows "wp (set_syscall_policy E nr v) Q (el, t)"
  using assms
  by (auto simp: set_syscall_policy_def wp_guarded wp_bindM [of "get_map_fd E n" for n] setter_post_def
      wp_retM c_str_def intro!: get_map_fd_rule map_update_rule)

lemma set_blocked_ip_rule:
  assumes "\<not> el_mutex el"
    and "setter_post E el t [''aegis_blocked_ips''] (K32 ip) (if b then 1 else 0) Q"
  shows "wp (set_blocked_ip E ip b) Q (el, t)"
  using assms
  by (auto simp: set_blocked_ip_def wp_guarded wp_bindM [of "get_map_fd E n" for n] setter_post_def
      wp_retM c_str_def intro!: get_map_fd_rule map_update_rule)

lemma set_cgroup_monitored_rule:
  assumes "\<not> el_mutex el"
    and "setter_post E el t [''aegis_monitored_cgroups'', ''aegis_monitored_cgroups_proc''] (K64 cg)
      (if b then 1 else 0) Q"
  shows "wp (set_cgroup_monitored E cg b) Q (el, t)"
proof -
  have err: "Q (Ret ErrEBPFProbeLoadFailed) (el, t @ u)" if "list_all lookup_event u" for u
    using assms(2) that by (simp add: setter_post_def)
  have ok: "Q (Ret Success) (el, t @ u @ [MapUpdate fd (K64 cg) (if b then 1 else 0) 0])"
    if "list_all lookup_event u" "map_fd_of E el n fd"
      "n = ''aegis_monitored_cgroups'' \<or> n = ''aegis_monitored_cgroups_proc''" for u n fd
    using assms(2) that by (auto simp: setter_post_def)
  have ok2: "Q (Ret Success) (el, t @ u @ u' @ [MapUpdate fd (K64 cg) (if b then 1 else 0) 0])"
    if "list_all lookup_event u" "list_all lookup_event u'" "map_fd_of E el ''aegis_monitored_cgroups_proc'' fd" for u u' fd
    using ok [of "u @ u'" "''aegis_monitored_cgroups_proc''" fd] that by simp
  have bind_ret: "bindM (retM x) f = f x" for x :: int and f :: "int \<Rightarrow> (EBPFLoader, Status) action"
    by (simp add: bindM_def retM_def)
  show ?thesis
    using assms(1) err ok ok2
    by (auto simp: set_cgroup_monitored_def wp_guarded wp_bindM [of "get_map_fd E n" for n] bind_ret
        wp_retM c_str_def if_distrib [of "\<lambda>m. wp (bindM m _) _ _"] intro!: get_map_fd_rule map_update_rule)
qed

lemmas setter_rules = set_syscall_policy_rule set_blocked_ip_rule set_cgroup_monitored_rule

section \<open>Links and objects\<close>

definition el_ok :: "EBPFLoader \<Rightarrow> bool" where
  "el_ok el \<longleftrightarrow> \<not> el_mutex el \<and> um_wf (m_programs el)"

definition el_objs :: "EBPFLoader \<Rightarrow> nat multiset" where
  "el_objs el = (case m_bpf_obj el of None \<Rightarrow> {#} | Some ob \<Rightarrow> {#ob#})"

definition el_inv :: "EBPFLoader \<times> trace \<Rightarrow> bool" where
  "el_inv = (\<lambda>(el, t). el_ok el \<and>
     attached_links t = destroyed_links t + mset (m_bpf_links el) \<and>
     closed_objs t + el_objs el \<subseteq># opened_objs t)"

lemma enter_programs_wf: "um_wf m \<Longrightarrow> um_wf (enter_programs p progs m)"
  by (induction progs arbitrary: m) (auto simp: um.wf_insert split: option.split)

lemma mark_attached_simps [simp]:
  "el_mutex (mark_attached n el) = el_mutex el"
  "m_bpf_obj (mark_attached n el) = m_bpf_obj el"
  "m_bpf_links (mark_attached n el) = m_bpf_links el"
  "um_wf (m_programs el) \<Longrightarrow> um_wf (m_programs (mark_attached n el))"
  by (auto simp: mark_attached_def um.wf_insert split: option.split)

lemma setter_inv:
  assumes "el_inv (el, t)"
  shows "setter_post E el t ns k v (\<lambda>r s. (\<exists>st. r = Ret st) \<and> el_inv s)"
  using assms by (auto simp: setter_post_def el_inv_def lookup_event_quiet)

lemma load_bpf_object_inv:
  assumes "el_inv (el, t)"
  shows "wp (load_bpf_object E p) (\<lambda>r s. ((\<exists>x. r = Ret x) \<or> (\<exists>e. r = Throw e)) \<and> el_inv s) (el, t)"
proof -
  have free: "\<not> el_mutex el" using assms by (simp add: el_inv_def el_ok_def)
  have sub: "closed_objs t \<subseteq># opened_objs t"
    using assms subset_mset.dual_order.trans mset_subset_eq_add_left by (fastforce simp: el_inv_def)
  show ?thesis
    using assms sub
    by (auto simp: load_bpf_object_def wp_simps free Let_def el_inv_def el_ok_def el_objs_def
        enter_programs_wf split: fs_status.splits option.splits)
qed

lemma attach_inv:
  assumes "el_inv (el, t)"
  shows "wp (attach_tracepoint E n c tp) (\<lambda>r s. (\<exists>x. r = Ret x) \<and> el_inv s) (el, t)"
    and "wp (attach_cgroup_connect4 E n fd) (\<lambda>r s. (\<exists>x. r = Ret x) \<and> el_inv s) (el, t)"
proof -
  have free: "\<not> el_mutex el" using assms by (simp add: el_inv_def el_ok_def)
  show "wp (attach_tracepoint E n c tp) (\<lambda>r s. (\<exists>x. r = Ret x) \<and> el_inv s) (el, t)"
    using assms
    by (auto simp: attach_tracepoint_def find_program_def wp_simps free el_inv_def el_ok_def el_objs_def
        split: option.splits)
  show "wp (attach_cgroup_connect4 E n fd) (\<lambda>r s. (\<exists>x. r = Ret x) \<and> el_inv s) (el, t)"
    using assms
    by (auto simp: attach_cgroup_connect4_def find_program_def wp_simps free el_inv_def el_ok_def el_objs_def
        split: option.splits)
qed

lemma destroy_links_run:
  "forM ls (\<lambda>l. sys (\<lambda>t. ()) (\<lambda>_. LinkDestroy l)) (ob, t) = (Ret (), (ob, t @ map LinkDestroy ls))"
  by (induction ls arbitrary: t) (simp_all add: retM_def bindM_def sys_def)

definition detached :: "EBPFLoader \<Rightarrow> EBPFLoader" where
  "detached el = el\<lparr>m_bpf_obj := None, m_bpf_links := [], m_is_loaded := False,
     m_programs := map (\<lambda>(n, meta). (n, meta\<lparr>is_attached := False, is_loaded := False\<rparr>)) (m_programs el)\<rparr>"

definition detach_events :: "EBPFLoader \<Rightarrow> trace" where
  "detach_events el = map LinkDestroy (m_bpf_links el) @
     (case m_bpf_obj el of None \<Rightarrow> [] | Some ob \<Rightarrow> [ObjClose ob])"

lemma detach_all_run:
  "\<not> el_mutex el \<Longrightarrow> detach_all (el, t) = (Ret (), (detached el, t @ detach_events el))"
  by (cases el; cases "m_bpf_obj el")
    (simp_all add: detach_all_def guarded_def lock_guard_def bindM_def seqM_def self_def assign_def
      destroy_links_run [unfolded sys_def] sys_def retM_def detached_def detach_events_def)

lemma detach_events_simps [simp]:
  "attached_links (detach_events el) = {#}"
  "destroyed_links (detach_events el) = mset (m_bpf_links el)"
  "opened_objs (detach_events el) = {#}"
  "closed_objs (detach_events el) = el_objs el"
proof -
  have "attached_links (map LinkDestroy ls) = {#}" "destroyed_links (map LinkDestroy ls) = mset ls"
    "opened_objs (map LinkDestroy ls) = {#}" "closed_objs (map LinkDestroy ls) = {#}" for ls
    by (induction ls) simp_all
  then show "attached_links (detach_events el) = {#}"
    "destroyed_links (detach_events el) = mset (m_bpf_links el)"
    "opened_objs (detach_events el) = {#}"
    "closed_objs (detach_events el) = el_objs el"
    by (simp_all add: detach_events_def el_objs_def split: option.split)
qed

lemma detach_events_closes: "m_bpf_obj el = Some ob \<Longrightarrow> ObjClose ob \<in> set (detach_events el)"
  by (simp add: detach_events_def)

lemma detached_simps [simp]:
  "el_mutex (detached el) = el_mutex el" "m_bpf_links (detached el) = []" "el_objs (detached el) = {#}"
  "m_bpf_obj (detached el) = None" "m_is_loaded (detached el) = False"
  "um_wf (m_programs (detached el)) = um_wf (m_programs el)"
  by (simp_all add: detached_def el_objs_def um_wf_def comp_def case_prod_unfold)

lemma detach_all_inv:
  "el_inv (el, t) \<Longrightarrow> wp detach_all (\<lambda>r s. r = Ret () \<and> el_inv s) (el, t)"
  by (auto simp: wp_def el_inv_def el_ok_def detach_all_run)

section \<open>Sequences of calls\<close>

datatype LoaderCall =
    LoadBpfObject path
  | AttachTp string string string
  | AttachConnect4 string int
  | SetCgroupMonitored u64 bool
  | SetSyscallPolicy u32 u8
  | SetBlockedIp u32 bool
  | DetachAll

primrec el_call :: "env \<Rightarrow> LoaderCall \<Rightarrow> (EBPFLoader, Status) action" where
  "el_call E (LoadBpfObject p) = load_bpf_object E p"
| "el_call E (AttachTp n c tp) = attach_tracepoint E n c tp"
| "el_call E (AttachConnect4 n fd) = attach_cgroup_connect4 E n fd"
| "el_call E (SetCgroupMonitored cg b) = set_cgroup_monitored E cg b"
| "el_call E (SetSyscallPolicy nr v) = set_syscall_policy E nr v"
| "el_call E (SetBlockedIp ip b) = set_blocked_ip E ip b"
| "el_call E DetachAll = seqM detach_all (retM Success)"

lemma el_call_inv:
  assumes "el_inv s"
  shows "wp (el_call E c) (\<lambda>r s'. ((\<exists>x. r = Ret x) \<or> (\<exists>e. r = Throw e)) \<and> el_inv s') s"
proof -
  obtain el t where s: "s = (el, t)" by (cases s)
  have free: "\<not> el_mutex el" using assms by (simp add: s el_inv_def el_ok_def)
  have weaken: "wp m (\<lambda>r s. ((\<exists>x. r = Ret x) \<or> (\<exists>e. r = Throw e)) \<and> el_inv s) (el, t)"
    if "wp m (\<lambda>r s. (\<exists>x. r = Ret x) \<and> el_inv s) (el, t)" for m :: "(EBPFLoader, Status) action"
    using that by (rule wp_mono) blast
  note inv = assms [unfolded s]
  show ?thesis
  proof (cases c)
    case DetachAll
    then show ?thesis
      using detach_all_inv [OF inv] by (auto simp: s wp_def seqM_def bindM_def retM_def split: prod.splits)
  qed (simp_all add: s load_bpf_object_inv [OF inv] weaken attach_inv [OF inv] setter_rules [OF free]
      setter_inv [OF inv])
qed

interpretation el: class_invariant "el_call E" "(new_EBPFLoader, [])" el_inv for E
proof unfold_locales
  show "el_inv (new_EBPFLoader, [])"
    by (simp add: el_inv_def el_ok_def new_EBPFLoader_def el_objs_def um.wf_empty)
  show "wp (el_call E c) (\<lambda>r s'. (\<exists>x. r = Ret x) \<or> (\<exists>e. r = Throw e) \<longrightarrow> el_inv s') s" if "el_inv s" for s c
    using el_call_inv [OF that] by (rule wp_mono) simp
qed

text \<open>A loader that has loaded one object, when every call succeeds.\<close>

definition loaded_el :: "path \<Rightarrow> EBPFLoader" where
  "loaded_el p = \<lparr>el_mutex = False, m_bpf_obj = Some 1, m_bpf_links = [],
     m_programs = enter_programs p [Some ''handle_sys_enter''] [], m_is_loaded = True\<rparr>"

lemma good_load_run:
  "load_bpf_object good_env p (new_EBPFLoader, []) =
    (Ret Success, (loaded_el p, [Exists p FsYes, ObjOpen p (Some 1), ObjLoad 1 0]))"
  by (simp add: load_bpf_object_def guarded_def lock_guard_def bindM_def seqM_def self_def assign_def
      sys_def retM_def getM_def fs_exists_def good_env_def new_EBPFLoader_def loaded_el_def)

lemma good_attach_reachable:
  "\<exists>el t. reachable (el_call good_env) (new_EBPFLoader, []) (el, t) \<and> m_bpf_links el \<noteq> []"
proof -
  let ?c = "AttachTp ''handle_sys_enter'' ''raw_syscalls'' ''sys_enter''"
  let ?s = "(loaded_el ''f.o'', [Exists ''f.o'' FsYes, ObjOpen ''f.o'' (Some 1), ObjLoad 1 0])"
  have "reachable (el_call good_env) (new_EBPFLoader, []) ?s"
    by (rule reachable.returns [OF reachable.start, where c = "LoadBpfObject ''f.o''"])
      (simp add: good_load_run)
  moreover have "\<exists>el t. el_call good_env ?c ?s = (Ret Success, (el, t)) \<and> m_bpf_links el \<noteq> []"
    by (simp add: attach_tracepoint_def find_program_def guarded_def lock_guard_def bindM_def seqM_def
        self_def assign_def sys_def retM_def good_env_def loaded_el_def mark_attached_def)
  ultimately show ?thesis by (blast intro: reachable.returns)
qed

section \<open>Properties\<close>

text \<open>
  C19: Whatever sequence of calls a loader has served, each BPF link it attached was destroyed once
  or is still recorded once, and its destructor destroys every recorded link, closes the current
  object and leaves the loader empty.
\<close>

theorem loader_links_balance:
  assumes "reachable (el_call E) (new_EBPFLoader, []) (el, t)"
  shows "attached_links t = destroyed_links t + mset (m_bpf_links el) \<and>
    (\<exists>el' u. detach_all (el, t) = (Ret (), (el', t @ u)) \<and>
       attached_links (t @ u) = destroyed_links (t @ u) \<and>
       m_bpf_links el' = [] \<and> m_bpf_obj el' = None \<and> \<not> m_is_loaded el' \<and>
       (\<forall>ob. m_bpf_obj el = Some ob \<longrightarrow> ObjClose ob \<in> set u))"
  using el.reachable_inv [OF assms]
  by (auto simp: el_inv_def el_ok_def detach_all_run detach_events_closes)

theorem loader_links_balance_witness:
  "\<exists>el t. reachable (el_call good_env) (new_EBPFLoader, []) (el, t) \<and> m_bpf_links el \<noteq> [] \<and>
     attached_links t = destroyed_links t + mset (m_bpf_links el)"
  using good_attach_reachable loader_links_balance by blast

text \<open>
  A loader keeps one object only. When a second object file is opened while a first object is
  loaded, the destructor closes what the second load opened and nothing else: the first object
  stays open.
\<close>

theorem reload_leaks_object:
  assumes "\<not> el_mutex el" and "m_bpf_obj el = Some old" and "e_exists E t p = FsYes"
    and "opened_objs t = closed_objs t + {#old#}"
  shows "\<exists>el' t'. bindM (load_bpf_object E p) (\<lambda>_. detach_all) (el, t) = (Ret (), (el', t')) \<and>
    m_bpf_obj el' = None \<and> opened_objs t' = closed_objs t' + {#old#}"
proof -
  have "wp (load_bpf_object E p) (\<lambda>r (el', t'). \<exists>st. r = Ret st \<and> \<not> el_mutex el' \<and>
      opened_objs t' = closed_objs t' + el_objs el' + {#old#}) (el, t)"
    using assms
    by (auto simp: load_bpf_object_def wp_simps el_objs_def split: option.splits)
  from wp_returns [OF this] obtain st el' t' where
    "load_bpf_object E p (el, t) = (Ret st, (el', t'))" "\<not> el_mutex el'"
      "opened_objs t' = closed_objs t' + el_objs el' + {#old#}"
    by blast
  then show ?thesis by (simp add: bindM_def detach_all_run)
qed

theorem reload_leaks_object_witness:
  "\<exists>el' t'. bindM (load_bpf_object good_env ''net_filter.bpf.o'') (\<lambda>_. detach_all)
       (loaded_el ''sys_filter.bpf.o'', [ObjOpen ''sys_filter.bpf.o'' (Some 1)]) = (Ret (), (el', t')) \<and>
     opened_objs t' = closed_objs t' + {#1#}"
  using reload_leaks_object [of "loaded_el ''sys_filter.bpf.o''" 1 good_env
      "[ObjOpen ''sys_filter.bpf.o'' (Some 1)]" "''net_filter.bpf.o''"]
  by (auto simp: loaded_el_def good_env_def)

text \<open>
  Switching the monitoring of a cgroup on or off returns with the loader unchanged. When it
  reports success, the map of monitored cgroups, or the one of the process monitor when there is
  no such map, holds the new value for that cgroup; when it reports an error, no map has changed.
\<close>

theorem set_cgroup_monitored_effect:
  assumes "\<not> el_mutex el"
  shows "\<exists>st t'. set_cgroup_monitored E cg b (el, t) = (Ret st, (el, t')) \<and>
    (if st = Success
     then \<exists>n fd. n \<in> {''aegis_monitored_cgroups'', ''aegis_monitored_cgroups_proc''} \<and>
       map_fd_of E el n fd \<and> map_value fd (K64 cg) t' v0 = Some (if b then 1 else 0) \<and>
       (\<forall>fd' k v. (fd', k) \<noteq> (fd, K64 cg) \<longrightarrow> map_value fd' k t' v = map_value fd' k t v)
     else \<forall>fd' k v. map_value fd' k t' v = map_value fd' k t v)"
  (is "\<exists>st t'. _ \<and> ?P st t'")
proof -
  have "wp (set_cgroup_monitored E cg b)
      (\<lambda>r (el', t'). \<exists>st. r = Ret st \<and> el' = el \<and> ?P st t') (el, t)"
    by (rule set_cgroup_monitored_rule [OF assms])
      (auto simp: setter_post_def lookup_event_quiet)
  from wp_returns [OF this] show ?thesis by blast
qed

theorem set_cgroup_monitored_effect_witness:
  "\<exists>fd t'. set_cgroup_monitored good_env 77 True (loaded_el ''f.o'', []) =
     (Ret Success, (loaded_el ''f.o'', t')) \<and> map_value fd (K64 77) t' None = Some 1"
proof -
  have "\<not> el_mutex (loaded_el ''f.o'')" by (simp add: loaded_el_def)
  moreover have "fst (set_cgroup_monitored good_env 77 True (loaded_el ''f.o'', [])) = Ret Success"
    by (simp add: set_cgroup_monitored_def get_map_fd_def bpf_map_update_elem_def guarded_def
        lock_guard_def bindM_def self_def sys_def retM_def c_str_def good_env_def loaded_el_def)
  ultimately show ?thesis
    using set_cgroup_monitored_effect [of "loaded_el ''f.o''" good_env 77 True "[]" None] by auto
qed

lemma unloaded_calls:
  "set_cgroup_monitored E cg b (new_EBPFLoader, t) = (Ret ErrEBPFProbeLoadFailed, (new_EBPFLoader, t))"
  "set_syscall_policy E nr v (new_EBPFLoader, t) = (Ret ErrEBPFProbeLoadFailed, (new_EBPFLoader, t))"
  "set_blocked_ip E ip b (new_EBPFLoader, t) = (Ret ErrEBPFProbeLoadFailed, (new_EBPFLoader, t))"
  "detach_all (new_EBPFLoader, t) = (Ret (), (new_EBPFLoader, t))"
  by (simp_all add: method_defs get_map_fd_def guarded_def lock_guard_def bindM_def seqM_def self_def retM_def
      assign_def new_EBPFLoader_def)

text \<open>
  On a loader that has loaded nothing, every setter and every attachment reports an error and
  makes no call at all.
\<close>

theorem unloaded_loader_inert:
  "set_cgroup_monitored E cg b (new_EBPFLoader, t) = (Ret ErrEBPFProbeLoadFailed, (new_EBPFLoader, t)) \<and>
   set_syscall_policy E nr v (new_EBPFLoader, t) = (Ret ErrEBPFProbeLoadFailed, (new_EBPFLoader, t)) \<and>
   set_blocked_ip E ip b (new_EBPFLoader, t) = (Ret ErrEBPFProbeLoadFailed, (new_EBPFLoader, t)) \<and>
   attach_tracepoint E n c tp (new_EBPFLoader, t) = (Ret ErrEBPFProbeLoadFailed, (new_EBPFLoader, t)) \<and>
   attach_cgroup_connect4 E n fd (new_EBPFLoader, t) = (Ret ErrEBPFProbeLoadFailed, (new_EBPFLoader, t))"
  unfolding unloaded_calls
  by (simp add: method_defs guarded_def lock_guard_def bindM_def self_def retM_def new_EBPFLoader_def)

end
