(* ===== verification/Sandbox_Manager.thy ===== *)
theory Sandbox_Manager
  imports Policy_Engine Cgroup_Manager EBPF_Loader
begin

text \<open>
  The sandbox manager: \<open>include/aegis/runtime/sandbox_manager.hpp\<close> and
  \<open>src/runtime/sandbox_manager.cpp\<close>. It owns the cgroup manager, shares the loader and the policy
  engine, forks the Firecracker process, talks to it over a UNIX socket and keeps the table of
  sandboxes. The functions that fill in an instance by reference return the changed instance.
\<close>

section \<open>Data\<close>

record SandboxConfig =
  sc_sandbox_id :: string
  sc_environment :: RuntimeEnvironment
  resource_limits :: CgroupLimits
  security_policy_name :: string
  use_snapshot_restore :: bool
  firecracker_bin_path :: path
  rootfs_image_path :: path
  kernel_image_path :: path
  snapshot_dir_path :: path

definition new_SandboxConfig :: SandboxConfig where
  "new_SandboxConfig = \<lparr>sc_sandbox_id = [], sc_environment = Python311,
     resource_limits = new_CgroupLimits, security_policy_name = ''strict_python'',
     use_snapshot_restore = True, firecracker_bin_path = ''/usr/local/bin/firecracker'',
     rootfs_image_path = ''/var/lib/aegis/rootfs/alpine-python311.ext4'',
     kernel_image_path = ''/var/lib/aegis/kernel/vmlinux-6.6.x'',
     snapshot_dir_path = ''/var/lib/aegis/snapshots''\<rparr>"

record ExecutionResult =
  er_sandbox_id :: string
  exit_code :: int
  stdout_output :: string
  stderr_output :: string
  er_boot_time :: int
  execution_time :: int
  security_violation_triggered :: bool
  security_rule_violated :: string

definition new_ExecutionResult :: ExecutionResult where
  "new_ExecutionResult = \<lparr>er_sandbox_id = [], exit_code = -1, stdout_output = [], stderr_output = [],
     er_boot_time = 0, execution_time = 0, security_violation_triggered = False,
     security_rule_violated = []\<rparr>"

record SandboxInstance =
  si_config :: SandboxConfig
  si_metadata :: SandboxMetadata
  firecracker_pid :: int
  socket_path :: path
  guest_vsock_path :: path
  tap_fd :: int
  is_active :: bool

record SandboxManager =
  sm_mutex :: bool
  m_ebpf_loader :: "EBPFLoader option"
  m_policy_engine :: "PolicyEngine option"
  m_cgroup_manager :: CgroupManager
  m_base_runtime_dir :: path
  m_sandboxes :: "(string \<times> SandboxInstance) list"

abbreviation sm_locked :: "(SandboxManager, 'a) action \<Rightarrow> (SandboxManager, 'a) action" where
  "sm_locked body \<equiv> guarded sm_mutex (\<lambda>b. sm_mutex_update (\<lambda>_. b)) body"

interpretation sm: mutex_class sm_mutex "\<lambda>b. sm_mutex_update (\<lambda>_. b)"
  by unfold_locales simp_all

lemma sm_unlock [simp]: "\<not> sm_mutex sm \<Longrightarrow> sm\<lparr>sm_mutex := False\<rparr> = sm"
  by (rule sm.set_same) simp

text \<open>Calls on the members; the loader and the engine are called only when they are there.\<close>

abbreviation on_cgroups :: "(CgroupManager, 'a) action \<Rightarrow> (SandboxManager, 'a) action" where
  "on_cgroups m \<equiv> on_field m_cgroup_manager (\<lambda>c sm. sm\<lparr>m_cgroup_manager := c\<rparr>) m"

abbreviation on_loader :: "(EBPFLoader, 'a) action \<Rightarrow> (SandboxManager, 'a) action" where
  "on_loader m \<equiv> on_field (\<lambda>sm. the (m_ebpf_loader sm)) (\<lambda>l sm. sm\<lparr>m_ebpf_loader := Some l\<rparr>) m"

abbreviation on_engine :: "(PolicyEngine, 'a) action \<Rightarrow> (SandboxManager, 'a) action" where
  "on_engine m \<equiv> on_field (\<lambda>sm. the (m_policy_engine sm)) (\<lambda>e sm. sm\<lparr>m_policy_engine := Some e\<rparr>) m"

section \<open>The Firecracker API\<close>

definition crlf :: string where
  "crlf = [CHR 0x0D, CHR 0x0A]"

definition http_request :: "string \<Rightarrow> string \<Rightarrow> string" where
  "http_request endpoint json_payload =
     ''PUT '' @ endpoint @ '' HTTP/1.1'' @ crlf @
     ''Host: localhost'' @ crlf @
     ''Content-Type: application/json'' @ crlf @
     ''Content-Length: '' @ dec (length json_payload) @ crlf @
     ''Connection: close'' @ crlf @ crlf @ json_payload"

text \<open>
  \<open>sun_path\<close> has 108 bytes, of which 107 are copied. The answer is read once, at most 1023 bytes,
  and searched as a C string.
\<close>

definition send_unix_http_put :: "env \<Rightarrow> path \<Rightarrow> string \<Rightarrow> string \<Rightarrow> ('o, bool) action" where
  "send_unix_http_put E sock endpoint json_payload =
     bindM (c_socket E) (\<lambda>fd.
     if fd < 0 then retM False
     else bindM (c_connect E fd (strncpy 107 sock)) (\<lambda>r.
     if r < 0 then seqM (c_close fd) (retM False)
     else bindM (c_write E fd (http_request endpoint json_payload)) (\<lambda>bytes_sent.
     bindM (c_read E fd 1023) (\<lambda>response.
     seqM (c_close fd)
     (retM (bytes_sent > 0 \<and> (case response of
        None \<Rightarrow> False
      | Some buf \<Rightarrow> buf \<noteq> [] \<and> contains_str ''HTTP/1.1 2'' (c_str buf))))))))"

definition boot_payload :: "SandboxConfig \<Rightarrow> string" where
  \<open>boot_payload c = ''{"kernel_image_path":"'' @ kernel_image_path c @
     ''","boot_args":"console=ttyS0 reboot=k panic=1 pci=off ip=172.16.0.2::172.16.0.1:255.255.255.0::eth0:off"}''\<close>

definition drive_payload :: "SandboxConfig \<Rightarrow> string" where
  \<open>drive_payload c = ''{"drive_id":"rootfs","path_on_host":"'' @ rootfs_image_path c @
     ''","is_root_device":true,"is_read_only":false}''\<close>

definition machine_payload :: "SandboxConfig \<Rightarrow> string" where
  \<open>machine_payload c = ''{"vcpu_count":'' @ dec (unat (cpu_cores (resource_limits c))) @
     '',"mem_size_mib":'' @ dec (unat (memory_mb (resource_limits c))) @ ''}''\<close>

definition action_payload :: string where
  \<open>action_payload = ''{"action_type":"InstanceStart"}''\<close>

definition configure_firecracker_api :: "env \<Rightarrow> SandboxInstance \<Rightarrow> (SandboxManager, Status) action" where
  "configure_firecracker_api E inst =
     bindM (send_unix_http_put E (socket_path inst) ''/boot-source'' (boot_payload (si_config inst))) (\<lambda>ok.
     if \<not> ok then retM ErrMicroVMBootFailed
     else bindM (send_unix_http_put E (socket_path inst) ''/drives/rootfs'' (drive_payload (si_config inst))) (\<lambda>ok.
     if \<not> ok then retM ErrMicroVMBootFailed
     else bindM (send_unix_http_put E (socket_path inst) ''/machine-config'' (machine_payload (si_config inst))) (\<lambda>ok.
     if \<not> ok then retM ErrMicroVMBootFailed
     else bindM (send_unix_http_put E (socket_path inst) ''/actions'' action_payload) (\<lambda>ok.
     if \<not> ok then retM ErrMicroVMBootFailed
     else retM Success))))"

definition snapshot_payload :: "SandboxConfig \<Rightarrow> string" where
  \<open>snapshot_payload c =
     ''{"snapshot_path":"'' @ path_append (snapshot_dir_path c) ''state.snap'' @
     ''","mem_file_path":"'' @ path_append (snapshot_dir_path c) ''mem.snap'' @
     ''","resume_vm":true}''\<close>

definition restore_firecracker_snapshot :: "env \<Rightarrow> SandboxInstance \<Rightarrow> (SandboxManager, Status) action" where
  "restore_firecracker_snapshot E inst =
     bindM (send_unix_http_put E (socket_path inst) ''/snapshot/load'' (snapshot_payload (si_config inst))) (\<lambda>ok.
     if \<not> ok then retM ErrSnapshotRestoreFailed else retM Success)"

section \<open>Helpers of the creation\<close>

definition setup_tap_interface ::
    "env \<Rightarrow> SandboxInstance \<Rightarrow> (SandboxManager, Status \<times> SandboxInstance) action" where
  "setup_tap_interface E inst =
     bindM (c_open E ''/dev/net/tun'') (\<lambda>fd.
     if fd < 0 then retM (ErrTAPInterfaceCreationFailed, inst)
     else let tap_name = ''tap_'' @ take 8 (sc_sandbox_id (si_config inst)) in
     bindM (sys (\<lambda>t. e_tunsetiff E t fd (strncpy 15 tap_name)) (TunSetIff fd (strncpy 15 tap_name))) (\<lambda>r.
     if r < 0 then seqM (c_close fd) (retM (ErrTAPInterfaceCreationFailed, inst))
     else retM (Success, inst\<lparr>tap_fd := fd,
       si_metadata := (si_metadata inst)\<lparr>md_tap_device_name := tap_name, md_guest_ip := ''172.16.0.2''\<rparr>\<rparr>)))"

text \<open>The child of the fork: it becomes Firecracker, or ends with status 1.\<close>

definition exec_firecracker :: "env \<Rightarrow> SandboxInstance \<Rightarrow> (SandboxManager, 'a) action" where
  "exec_firecracker E inst =
     bindM (c_open E ''/dev/null'') (\<lambda>dev_null.
     seqM (if dev_null \<ge> 0
           then seqM (forM [0, 1, 2] (\<lambda>fd. sys (\<lambda>t. ()) (\<lambda>_. Dup2 dev_null fd))) (c_close dev_null)
           else retM ())
    (bindM (sys (\<lambda>t. e_execv E t (c_str (firecracker_bin_path (si_config inst))))
        (\<lambda>_. Execv (c_str (firecracker_bin_path (si_config inst)))
          [c_str (firecracker_bin_path (si_config inst)), ''--api-sock'', c_str (socket_path inst)])) (\<lambda>ok.
     if ok then goneM else seqM (sys (\<lambda>t. ()) (\<lambda>_. ExitProcess 1)) goneM)))"

text \<open>The loop that waits for the API socket; the argument counts the polls that are left.\<close>

primrec wait_for_socket :: "env \<Rightarrow> path \<Rightarrow> nat \<Rightarrow> (SandboxManager, Status) action" where
  "wait_for_socket E p 0 = retM ErrMicroVMBootFailed"
| "wait_for_socket E p (Suc n) =
     bindM (fs_exists E p) (\<lambda>found.
     if found then retM Success else seqM (sleep_ms 10) (wait_for_socket E p n))"

definition spawn_firecracker_process ::
    "env \<Rightarrow> SandboxInstance \<Rightarrow> (SandboxManager, Status \<times> SandboxInstance) action" where
  "spawn_firecracker_process E inst =
     bindM (fs_exists E (socket_path inst)) (\<lambda>found.
     seqM (if found then fs_remove E (socket_path inst) else retM ())
    (bindM (sys (e_fork E) Fork) (\<lambda>pid.
     if pid < 0 then retM (ErrMicroVMBootFailed, inst)
     else if pid = 0 then exec_firecracker E inst
     else bindM (wait_for_socket E (socket_path inst) 50) (\<lambda>status.
          retM (status, inst\<lparr>firecracker_pid := pid\<rparr>)))))"

text \<open>The rules that are pushed to the kernel. No result of the loader is looked at.\<close>

definition push_policy :: "env \<Rightarrow> SecurityPolicy \<Rightarrow> (SandboxManager, unit) action" where
  "push_policy E policy =
     bindM (getM (\<lambda>(sm, t). e_iter_u32 E t (blocked_syscalls (syscall_rule policy)))) (\<lambda>nrs.
     seqM (forM nrs (\<lambda>nr. on_loader (set_syscall_policy E nr 1)))
          (if block_cloud_metadata (network_rule policy)
           then seqM (on_loader (set_blocked_ip E metadata_ip True)) (retM ())
           else retM ()))"

definition apply_ebpf_policies :: "env \<Rightarrow> SandboxInstance \<Rightarrow> (SandboxManager, Status) action" where
  "apply_ebpf_policies E inst =
     bindM (self (\<lambda>sm. m_ebpf_loader sm = None \<or> m_policy_engine sm = None)) (\<lambda>absent.
     if absent then retM Success
     else bindM (on_cgroups (get_cgroup_id (sc_sandbox_id (si_config inst)))) (\<lambda>cg.
     if cg = 0 then retM ErrCgroupQuotaExceeded
     else seqM (on_loader (set_cgroup_monitored E cg True))
         (bindM (on_engine (get_policy (security_policy_name (si_config inst)))) (\<lambda>policy_opt.
          case policy_opt of
            None \<Rightarrow> retM Success
          | Some policy \<Rightarrow> seqM (push_policy E policy) (retM Success)))))"

section \<open>Termination\<close>

definition kill_process :: "int \<Rightarrow> (SandboxManager, unit) action" where
  "kill_process pid = (if pid > 0 then seqM (c_kill pid 9) (c_waitpid pid) else retM ())"

definition unmonitor :: "env \<Rightarrow> string \<Rightarrow> (SandboxManager, unit) action" where
  "unmonitor E sbx_id =
     bindM (self m_ebpf_loader) (\<lambda>loader.
     case loader of
       None \<Rightarrow> retM ()
     | Some l \<Rightarrow>
         bindM (on_cgroups (get_cgroup_id sbx_id)) (\<lambda>cg.
         if cg > 0 then seqM (on_loader (set_cgroup_monitored E cg False)) (retM ()) else retM ()))"

definition terminate_sandbox :: "env \<Rightarrow> string \<Rightarrow> (SandboxManager, Status) action" where
  "terminate_sandbox E sbx_id = sm_locked (
     bindM (self (\<lambda>sm. map_of (m_sandboxes sm) sbx_id)) (\<lambda>it.
     case it of
       None \<Rightarrow> retM ErrInvalidSandboxID
     | Some inst \<Rightarrow>
         seqM (kill_process (firecracker_pid inst))
        (seqM (if tap_fd inst \<ge> 0 then c_close (tap_fd inst) else retM ())
        (seqM (unmonitor E sbx_id)
        (seqM (on_cgroups (destroy_cgroup sbx_id))
        (bindM (self m_base_runtime_dir) (\<lambda>base.
         seqM (fs_remove_all (path_append base sbx_id))
        (seqM (assign (\<lambda>sm. sm\<lparr>m_sandboxes := AList.delete sbx_id (m_sandboxes sm)\<rparr>))
              (retM Success)))))))))"

definition terminate_entry :: "string \<Rightarrow> (SandboxManager, unit) action" where
  "terminate_entry sbx_id =
     bindM (self (\<lambda>sm. map_of (m_sandboxes sm) sbx_id)) (\<lambda>it.
     case it of
       None \<Rightarrow> retM ()
     | Some inst \<Rightarrow>
         seqM (kill_process (firecracker_pid inst))
        (seqM (if tap_fd inst \<ge> 0 then c_close (tap_fd inst) else retM ())
        (seqM (on_cgroups (destroy_cgroup sbx_id))
        (bindM (self m_base_runtime_dir) (\<lambda>base. fs_remove_all (path_append base sbx_id))))))"

definition terminate_all :: "env \<Rightarrow> (SandboxManager, unit) action" where
  "terminate_all E = sm_locked (
     bindM (getM (\<lambda>(sm, t). e_iter_strings E t (um_keys (m_sandboxes sm)))) (\<lambda>ids.
     seqM (forM ids terminate_entry)
          (assign (\<lambda>sm. sm\<lparr>m_sandboxes := []\<rparr>))))"

section \<open>Creation\<close>

definition init_instance :: "SandboxConfig \<Rightarrow> path \<Rightarrow> int \<Rightarrow> SandboxInstance" where
  "init_instance config sbx_dir created =
     \<lparr>si_config = config,
      si_metadata = (new_SandboxMetadata created)\<lparr>
        md_sandbox_id := sc_sandbox_id config,
        md_environment := sc_environment config,
        md_vcpus := cpu_cores (resource_limits config),
        md_memory_mb := memory_mb (resource_limits config),
        md_vram_mb := vram_mb (resource_limits config),
        md_state := Initializing\<rparr>,
      firecracker_pid = -1,
      socket_path = path_append sbx_dir ''firecracker.socket'',
      guest_vsock_path = path_append sbx_dir ''guest_agent.socket'',
      tap_fd = -1,
      is_active = False\<rparr>"

text \<open>
  The steps after the process is up. On an error the code calls \<open>terminate_sandbox\<close>, with the
  mutex of the manager held.
\<close>

definition finish_create :: "env \<Rightarrow> SandboxConfig \<Rightarrow> SandboxInstance \<Rightarrow> int \<Rightarrow> (SandboxManager, Status) action" where
  "finish_create E config inst start_time =
     seqM (on_cgroups (attach_pid E (sc_sandbox_id config) (firecracker_pid inst)))
    (bindM (if use_snapshot_restore config then fs_exists E (snapshot_dir_path config) else retM False) (\<lambda>snapshot.
     bindM (if snapshot then restore_firecracker_snapshot E inst else configure_firecracker_api E inst) (\<lambda>status.
     if status \<noteq> Success then seqM (terminate_sandbox E (sc_sandbox_id config)) (retM status)
     else bindM (apply_ebpf_policies E inst) (\<lambda>status.
     if status \<noteq> Success then seqM (terminate_sandbox E (sc_sandbox_id config)) (retM status)
     else bindM (now E) (\<lambda>end_time.
          seqM (assign (\<lambda>sm. sm\<lparr>m_sandboxes := AList.update (sc_sandbox_id config)
                 (inst\<lparr>si_metadata := (si_metadata inst)\<lparr>md_boot_time := end_time - start_time, md_state := Running\<rparr>,
                       is_active := True\<rparr>)
                 (m_sandboxes sm)\<rparr>))
               (retM Success))))))"

text \<open>The steps after the cgroup is there, with the undoing of the earlier ones on an error.\<close>

definition boot_sandbox ::
    "env \<Rightarrow> SandboxConfig \<Rightarrow> path \<Rightarrow> SandboxInstance \<Rightarrow> int \<Rightarrow> (SandboxManager, Status) action" where
  "boot_sandbox E config sbx_dir inst start_time =
     bindM (setup_tap_interface E inst) (\<lambda>(status, inst).
     if status \<noteq> Success
     then seqM (on_cgroups (destroy_cgroup (sc_sandbox_id config)))
         (seqM (fs_remove_all sbx_dir) (retM status))
     else bindM (spawn_firecracker_process E inst) (\<lambda>(status, inst).
     if status \<noteq> Success
     then seqM (if tap_fd inst \<ge> 0 then c_close (tap_fd inst) else retM ())
         (seqM (on_cgroups (destroy_cgroup (sc_sandbox_id config)))
         (seqM (fs_remove_all sbx_dir) (retM status)))
     else finish_create E config inst start_time))"

definition create_sandbox :: "env \<Rightarrow> SandboxConfig \<Rightarrow> (SandboxManager, Status) action" where
  "create_sandbox E config = sm_locked (
     bindM (self (\<lambda>sm. sc_sandbox_id config = [] \<or> map_of (m_sandboxes sm) (sc_sandbox_id config) \<noteq> None)) (\<lambda>invalid.
     if invalid then retM ErrInvalidSandboxID
     else bindM (now E) (\<lambda>start_time.
     bindM (self (\<lambda>sm. path_append (m_base_runtime_dir sm) (sc_sandbox_id config))) (\<lambda>sbx_dir.
     seqM (fs_create_directories E sbx_dir)
    (bindM (now E) (\<lambda>created.
     bindM (on_cgroups (create_cgroup E (sc_sandbox_id config) (resource_limits config))) (\<lambda>status.
     if status \<noteq> Success then seqM (fs_remove_all sbx_dir) (retM status)
     else boot_sandbox E config sbx_dir (init_instance config sbx_dir created) start_time)))))))"

section \<open>Execution and queries\<close>

definition execute_code :: "env \<Rightarrow> string \<Rightarrow> string \<Rightarrow> (SandboxManager, ExecutionResult) action" where
  "execute_code E sbx_id code_payload = sm_locked (
     bindM (self (\<lambda>sm. map_of (m_sandboxes sm) sbx_id)) (\<lambda>it.
     let result = new_ExecutionResult\<lparr>er_sandbox_id := sbx_id\<rparr>;
         refused = result\<lparr>exit_code := -1, stderr_output := ''Error: Invalid or inactive sandbox ID.''\<rparr> in
     case it of
       None \<Rightarrow> retM refused
     | Some inst \<Rightarrow>
         if \<not> is_active inst then retM refused
         else bindM (now E) (\<lambda>exec_start.
         bindM (c_socket E) (\<lambda>fd.
         bindM (if fd \<ge> 0
                then bindM (c_connect E fd (strncpy 107 (guest_vsock_path inst))) (\<lambda>r.
                     bindM (if r \<ge> 0
                            then seqM (c_write E fd code_payload)
                                (bindM (c_read E fd 8191) (\<lambda>response. retM (case response of
                                    None \<Rightarrow> result
                                  | Some buf \<Rightarrow> if buf = [] then result
                                      else result\<lparr>stdout_output := c_str buf, exit_code := 0\<rparr>)))
                            else retM result) (\<lambda>res.
                     seqM (c_close fd) (retM res)))
                else retM result) (\<lambda>res.
         bindM (now E) (\<lambda>exec_end.
         retM (res\<lparr>execution_time := exec_end - exec_start,
                   er_boot_time := md_boot_time (si_metadata inst)\<rparr>)))))))"

definition get_metadata :: "string \<Rightarrow> (SandboxManager, SandboxMetadata option) action" where
  "get_metadata sbx_id = sm_locked (self (\<lambda>sm. map_option si_metadata (map_of (m_sandboxes sm) sbx_id)))"

section \<open>Construction and destruction\<close>

definition init_SandboxManager :: "EBPFLoader option \<Rightarrow> PolicyEngine option \<Rightarrow> path \<Rightarrow> SandboxManager" where
  "init_SandboxManager loader engine base =
     \<lparr>sm_mutex = False, m_ebpf_loader = loader, m_policy_engine = engine,
      m_cgroup_manager = init_CgroupManager ''/sys/fs/cgroup/aegis'', m_base_runtime_dir = base,
      m_sandboxes = []\<rparr>"

definition construct_SandboxManager :: "env \<Rightarrow> (SandboxManager, unit) action" where
  "construct_SandboxManager E =
     seqM (on_cgroups (construct_CgroupManager E))
    (bindM (self m_base_runtime_dir) (\<lambda>base. seqM (fs_create_directories E base) (retM ())))"

text \<open>The destructor, followed by the destructor of the owned cgroup manager.\<close>

definition destruct_SandboxManager :: "env \<Rightarrow> (SandboxManager, unit) action" where
  "destruct_SandboxManager E = seqM (terminate_all E) (on_cgroups (destruct_CgroupManager E))"

lemmas sandbox_method_defs [method_defs] = create_sandbox_def terminate_sandbox_def terminate_all_def
  execute_code_def get_metadata_def

section \<open>Rules for the helpers\<close>

text \<open>Steps that keep no descriptor, start or signal no process, and attach or detach no link.\<close>

definition neutral :: "trace \<Rightarrow> bool" where
  "neutral u \<longleftrightarrow> opened_fds u = closed_fds u \<and> forked_pids u = {#} \<and> killed_pids u = {#} \<and>
     attached_links u = {#} \<and> destroyed_links u = {#}"

lemma neutral_simps [simp]:
  "neutral []"
  "neutral u \<Longrightarrow> neutral v \<Longrightarrow> neutral (u @ v)"
  "list_all fs_event u \<Longrightarrow> neutral u"
  "list_all lookup_event u \<Longrightarrow> neutral u"
  "neutral [MapUpdate fd k x err]"
  by (simp_all add: neutral_def fs_event_quiet lookup_event_quiet)

lemma neutral_fs [simp]: "fs_event e \<Longrightarrow> neutral (e # u) \<longleftrightarrow> neutral u"
  using fs_event_quiet [of "[e]"] by (simp add: neutral_def)

lemma fs_events [simp]:
  "fs_event (Exists p r)" "fs_event (CreateDirectories p b)" "fs_event (RemoveAll p)"
  "fs_event (RemoveFile p b)" "fs_event (Clock c)" "fs_event (Sleep n)"
  "fs_event (Open p fd) \<longleftrightarrow> fd < 0"
  by (simp_all add: fs_event_def)

lemma send_unix_http_put_rule:
  assumes "\<And>b u. neutral u \<Longrightarrow> Q (Ret b) (ob, t @ u)"
  shows "wp (send_unix_http_put E sock ep payload) Q (ob, t)"
proof -
  let ?fd = "e_socket E t"
  let ?t1 = "t @ [Socket ?fd]"
  let ?r = "e_connect E ?t1 ?fd (strncpy 107 sock)"
  let ?c = "Connect ?fd (strncpy 107 sock) ?r"
  let ?req = "http_request ep payload"
  let ?w = "WriteFd ?fd ?req (e_write E (?t1 @ [?c]) ?fd ?req)"
  let ?d = "ReadFd ?fd (map_option (take 1023) (e_read E (?t1 @ [?c, ?w]) ?fd 1023))"
  have "neutral [Socket ?fd]" if "?fd < 0" using that by (simp add: neutral_def)
  moreover have "neutral [Socket ?fd, ?c, Close ?fd]" "neutral [Socket ?fd, ?c, ?w, ?d, Close ?fd]"
    if "\<not> ?fd < 0" using that by (simp_all add: neutral_def)
  ultimately show ?thesis
    using assms [of "[Socket ?fd]"] assms [of "[Socket ?fd, ?c, Close ?fd]"]
      assms [of "[Socket ?fd, ?c, ?w, ?d, Close ?fd]"]
    by (simp add: send_unix_http_put_def wp_simps)
qed

lemma configure_rule:
  assumes "\<And>st u. neutral u \<Longrightarrow> Q (Ret st) (sm, t @ u)"
  shows "wp (configure_firecracker_api E inst) Q (sm, t)"
  using assms
  by (auto intro!: send_unix_http_put_rule simp: configure_firecracker_api_def wp_bindM wp_retM)

lemma restore_rule:
  assumes "\<And>st u. neutral u \<Longrightarrow> Q (Ret st) (sm, t @ u)"
  shows "wp (restore_firecracker_snapshot E inst) Q (sm, t)"
  using assms
  by (auto intro!: send_unix_http_put_rule simp: restore_firecracker_snapshot_def wp_bindM wp_retM)

lemma wait_for_socket_rule:
  assumes "\<And>st u. neutral u \<Longrightarrow> st = Success \<or> st = ErrMicroVMBootFailed \<Longrightarrow> Q (Ret st) (sm, t @ u)"
    and "\<And>u. neutral u \<Longrightarrow> Q (Throw FilesystemError) (sm, t @ u)"
  shows "wp (wait_for_socket E p n) Q (sm, t)"
  using assms
proof (induction n arbitrary: t)
  case 0
  then show ?case using "0.prems"(1) [of "[]" ErrMicroVMBootFailed] by (simp add: wp_simps)
next
  case (Suc n)
  let ?r = "e_exists E t p"
  show ?case
  proof (cases ?r)
    case FsNo
    have "wp (wait_for_socket E p n) Q (sm, t @ [Exists p FsNo, Sleep 10])"
    proof (rule Suc.IH)
      show "Q (Ret st) (sm, (t @ [Exists p FsNo, Sleep 10]) @ u)"
        if "neutral u" "st = Success \<or> st = ErrMicroVMBootFailed" for st u
        using Suc.prems(1) [of "[Exists p FsNo, Sleep 10] @ u" st] that by simp
      show "Q (Throw FilesystemError) (sm, (t @ [Exists p FsNo, Sleep 10]) @ u)" if "neutral u" for u
        using Suc.prems(2) [of "[Exists p FsNo, Sleep 10] @ u"] that by simp
    qed
    then show ?thesis using FsNo by (simp add: wp_simps)
  qed (use Suc.prems(1) [of "[Exists p FsYes]" Success] Suc.prems(2) [of "[Exists p FsErr]"]
       in \<open>simp_all add: wp_simps\<close>)
qed

text \<open>The instance with its network interface.\<close>

definition with_tap :: "SandboxInstance \<Rightarrow> int \<Rightarrow> SandboxInstance" where
  "with_tap inst fd = inst\<lparr>tap_fd := fd, si_metadata := (si_metadata inst)\<lparr>
     md_tap_device_name := ''tap_'' @ take 8 (sc_sandbox_id (si_config inst)), md_guest_ip := ''172.16.0.2''\<rparr>\<rparr>"

lemma setup_tap_rule:
  assumes "\<And>u. neutral u \<Longrightarrow> Q (Ret (ErrTAPInterfaceCreationFailed, inst)) (sm, t @ u)"
    and "\<And>fd n r. fd \<ge> 0 \<Longrightarrow>
      Q (Ret (Success, with_tap inst fd)) (sm, t @ [Open ''/dev/net/tun'' fd, TunSetIff fd n r])"
  shows "wp (setup_tap_interface E inst) Q (sm, t)"
proof -
  let ?fd = "e_open E t ''/dev/net/tun''"
  let ?o = "Open ''/dev/net/tun'' ?fd"
  let ?n = "strncpy 15 (''tap_'' @ take 8 (sc_sandbox_id (si_config inst)))"
  let ?i = "TunSetIff ?fd ?n (e_tunsetiff E (t @ [?o]) ?fd ?n)"
  have "Q (Ret (ErrTAPInterfaceCreationFailed, inst)) (sm, t @ [?o])" if "?fd < 0"
    using assms(1) [of "[?o]"] that by simp
  moreover have "Q (Ret (ErrTAPInterfaceCreationFailed, inst)) (sm, t @ [?o, ?i, Close ?fd])" if "\<not> ?fd < 0"
    using assms(1) [of "[?o, ?i, Close ?fd]"] that by (simp add: neutral_def)
  moreover have "Q (Ret (Success, with_tap inst ?fd)) (sm, t @ [?o, ?i])" if "\<not> ?fd < 0"
    using assms(2) [of ?fd] that by simp
  ultimately show ?thesis
    by (simp add: setup_tap_interface_def wp_simps with_tap_def Let_def)
qed

lemma exec_firecracker_rule:
  assumes "\<And>u. Q Gone (sm, t @ u)"
  shows "wp (exec_firecracker E inst) Q (sm, t)"
  using assms by (simp add: exec_firecracker_def wp_simps numeral_3_eq_3)

text \<open>Like \<open>neutral\<close>, but a process may have been started.\<close>

definition calm :: "trace \<Rightarrow> bool" where
  "calm u \<longleftrightarrow> opened_fds u = closed_fds u \<and> killed_pids u = {#} \<and>
     attached_links u = {#} \<and> destroyed_links u = {#}"

lemma calm_simps [simp]:
  "calm []"
  "calm u \<Longrightarrow> calm v \<Longrightarrow> calm (u @ v)"
  "calm (Fork pid # u) \<longleftrightarrow> calm u"
  "fs_event e \<Longrightarrow> calm (e # u) \<longleftrightarrow> calm u"
  "neutral u \<Longrightarrow> calm u"
  using fs_event_quiet [of "[e]"] by (simp_all add: calm_def neutral_def)

lemma neutral_forked [simp]: "neutral u \<Longrightarrow> forked_pids u = {#}"
  by (simp add: neutral_def)

lemma spawn_rule:
  assumes thrown: "\<And>u. calm u \<Longrightarrow> Q (Throw FilesystemError) (sm, t @ u)"
    and failed: "\<And>u inst'. calm u \<Longrightarrow> size (forked_pids u) \<le> 1 \<Longrightarrow> tap_fd inst' = tap_fd inst \<Longrightarrow>
      Q (Ret (ErrMicroVMBootFailed, inst')) (sm, t @ u)"
    and gone: "\<And>u. Q Gone (sm, t @ u)"
    and up: "\<And>pid u. pid > 0 \<Longrightarrow> calm u \<Longrightarrow> forked_pids u = {#pid#} \<Longrightarrow>
      Q (Ret (Success, inst\<lparr>firecracker_pid := pid\<rparr>)) (sm, t @ u)"
  shows "wp (spawn_firecracker_process E inst) Q (sm, t)"
proof -
  let ?p = "socket_path inst"
  have fork: "wp (bindM (sys (e_fork E) Fork) (\<lambda>pid.
     if pid < 0 then retM (ErrMicroVMBootFailed, inst)
     else if pid = 0 then exec_firecracker E inst
     else bindM (wait_for_socket E ?p 50) (\<lambda>status. retM (status, inst\<lparr>firecracker_pid := pid\<rparr>))))
     Q (sm, t @ w)" if w: "neutral w" for w
  proof -
    let ?pid = "e_fork E (t @ w)"
    have "wp (wait_for_socket E ?p 50) (\<lambda>r s'. case r of
        Ret st \<Rightarrow> Q (Ret (st, inst\<lparr>firecracker_pid := ?pid\<rparr>)) s' | Throw e \<Rightarrow> Q (Throw e) s'
      | Deadlock \<Rightarrow> Q Deadlock s' | Gone \<Rightarrow> Q Gone s') (sm, t @ w @ [Fork ?pid])" if "?pid > 0"
    proof (rule wait_for_socket_rule)
      fix st u assume "neutral u" "st = Success \<or> st = ErrMicroVMBootFailed"
      then show "case Ret st of Ret st \<Rightarrow> Q (Ret (st, inst\<lparr>firecracker_pid := ?pid\<rparr>)) (sm, (t @ w @ [Fork ?pid]) @ u)
        | Throw e \<Rightarrow> Q (Throw e) (sm, (t @ w @ [Fork ?pid]) @ u)
        | Deadlock \<Rightarrow> Q Deadlock (sm, (t @ w @ [Fork ?pid]) @ u) | Gone \<Rightarrow> Q Gone (sm, (t @ w @ [Fork ?pid]) @ u)"
        using up [of ?pid "w @ [Fork ?pid] @ u"] failed [of "w @ [Fork ?pid] @ u" "inst\<lparr>firecracker_pid := ?pid\<rparr>"]
          that w by auto
    next
      fix u assume "neutral u"
      then show "case Throw FilesystemError of Ret st \<Rightarrow> Q (Ret (st, inst\<lparr>firecracker_pid := ?pid\<rparr>)) (sm, (t @ w @ [Fork ?pid]) @ u)
        | Throw e \<Rightarrow> Q (Throw e) (sm, (t @ w @ [Fork ?pid]) @ u)
        | Deadlock \<Rightarrow> Q Deadlock (sm, (t @ w @ [Fork ?pid]) @ u) | Gone \<Rightarrow> Q Gone (sm, (t @ w @ [Fork ?pid]) @ u)"
        using thrown [of "w @ [Fork ?pid] @ u"] w by simp
    qed
    moreover have "wp (exec_firecracker E inst) Q (sm, t @ w @ [Fork ?pid])"
      by (rule exec_firecracker_rule) (use gone in simp)
    moreover have "Q (Ret (ErrMicroVMBootFailed, inst)) (sm, t @ w @ [Fork ?pid])" if "?pid < 0"
      using failed [of "w @ [Fork ?pid]" inst] w that by simp
    ultimately show ?thesis
      by (cases "?pid = 0"; cases "?pid < 0")
        (simp_all add: wp_bindM wp_sys wp_retM cong: outcome.case_cong)
  qed
  let ?r = "e_exists E t ?p"
  let ?ok = "e_remove E (t @ [Exists ?p FsYes]) ?p"
  show ?thesis
    using fork [of "[Exists ?p FsNo]"] fork [of "[Exists ?p FsYes, RemoveFile ?p True]"]
      thrown [of "[Exists ?p FsErr]"] thrown [of "[Exists ?p FsYes, RemoveFile ?p False]"]
    by (cases ?r; cases ?ok)
      (simp_all add: spawn_firecracker_process_def wp_bindM [of "fs_exists E p" for p] wp_fs_exists
        wp_seqM wp_fs_remove wp_retM Let_def)
qed

section \<open>The members of a manager\<close>

definition parts_ok :: "path \<Rightarrow> SandboxManager \<Rightarrow> bool" where
  "parts_ok root sm \<longleftrightarrow> cg_ok root (m_cgroup_manager sm) \<and>
     (\<forall>l. m_ebpf_loader sm = Some l \<longrightarrow> \<not> el_mutex l) \<and>
     (\<forall>e. m_policy_engine sm = Some e \<longrightarrow> \<not> pe_mutex e)"

lemma parts_ok_simps [simp]:
  "parts_ok root (sm\<lparr>sm_mutex := b\<rparr>) = parts_ok root sm"
  "parts_ok root (sm\<lparr>m_sandboxes := m\<rparr>) = parts_ok root sm"
  by (simp_all add: parts_ok_def)

lemma same_cgroups [simp]: "sm\<lparr>m_cgroup_manager := m_cgroup_manager sm\<rparr> = sm"
  by simp

lemma same_loader: "m_ebpf_loader sm = Some l \<Longrightarrow> sm\<lparr>m_ebpf_loader := Some l\<rparr> = sm"
  by (cases sm) simp

lemma same_engine: "m_policy_engine sm = Some e \<Longrightarrow> sm\<lparr>m_policy_engine := Some e\<rparr> = sm"
  by (cases sm) simp

lemma on_setter_rule:
  assumes l: "m_ebpf_loader sm = Some l"
    and rule: "\<And>Q. setter_post E l t ns k v Q \<Longrightarrow> wp m Q (l, t)"
    and post: "\<And>st u. neutral u \<Longrightarrow> Q (Ret st) (sm, t @ u)"
  shows "wp (on_loader m) Q (sm, t)"
proof -
  have "wp m (\<lambda>r (f, t'). Q r (sm\<lparr>m_ebpf_loader := Some f\<rparr>, t')) (l, t)"
    by (rule rule) (use post in \<open>auto simp: setter_post_def same_loader [OF l]\<close>)
  then show ?thesis by (simp add: wp_on_field l)
qed

lemma push_policy_rule:
  assumes ok: "parts_ok root sm" and l: "m_ebpf_loader sm = Some l"
    and post: "\<And>u. neutral u \<Longrightarrow> Q (Ret ()) (sm, t @ u)"
  shows "wp (push_policy E policy) Q (sm, t)"
proof -
  have free: "\<not> el_mutex l" using ok l by (simp add: parts_ok_def)
  have syscall: "wp (on_loader (set_syscall_policy E nr 1)) Q' (sm, t')"
    if "\<And>st u. neutral u \<Longrightarrow> Q' (Ret st) (sm, t' @ u)" for nr t' Q'
    by (rule on_setter_rule [OF l set_syscall_policy_rule [OF free]]) (use that in simp_all)
  have ip: "wp (on_loader (set_blocked_ip E metadata_ip True)) Q' (sm, t')"
    if "\<And>st u. neutral u \<Longrightarrow> Q' (Ret st) (sm, t' @ u)" for t' Q'
    by (rule on_setter_rule [OF l set_blocked_ip_rule [OF free]]) (use that in simp_all)
  have loop: "wp (forM nrs (\<lambda>nr. on_loader (set_syscall_policy E nr 1))) Q' (sm, t')"
    if "\<And>u. neutral u \<Longrightarrow> Q' (Ret ()) (sm, t' @ u)" for nrs t' Q'
    using that
  proof (induction nrs arbitrary: t')
    case Nil
    then show ?case using Nil [of "[]"] by (simp add: wp_retM)
  next
    case (Cons nr nrs)
    have "wp (forM nrs (\<lambda>nr. on_loader (set_syscall_policy E nr 1))) Q' (sm, t' @ u)" if "neutral u" for u
      by (rule Cons.IH) (use Cons.prems that in simp)
    then show ?case by (auto simp: wp_bindM intro!: syscall)
  qed
  show ?thesis
    using post
    by (auto simp: push_policy_def wp_bindM wp_seqM wp_getM wp_retM intro!: loop ip)
qed

lemma apply_ebpf_rule:
  assumes ok: "parts_ok root sm"
    and known: "map_of (m_cgroups (m_cgroup_manager sm)) (sc_sandbox_id (si_config inst)) \<noteq> None"
    and post: "\<And>u. neutral u \<Longrightarrow> Q (Ret Success) (sm, t @ u)"
  shows "wp (apply_ebpf_policies E inst) Q (sm, t)"
proof (cases "m_ebpf_loader sm = None \<or> m_policy_engine sm = None")
  case True
  then show ?thesis using post [of "[]"] by (simp add: apply_ebpf_policies_def wp_bindM wp_self wp_retM)
next
  case False
  then obtain l e where l: "m_ebpf_loader sm = Some l" and e: "m_policy_engine sm = Some e" by auto
  obtain info where info: "map_of (m_cgroups (m_cgroup_manager sm)) (sc_sandbox_id (si_config inst)) = Some info"
    using known by auto
  have cg: "cg_ok root (m_cgroup_manager sm)" and free: "\<not> el_mutex l" "\<not> pe_mutex e"
    using ok l e by (simp_all add: parts_ok_def)
  have id: "cgroup_id info \<noteq> 0" using cg_okD(4) [OF cg info] by (simp add: cg_entry_ok_def)
  have get_id: "wp (get_cgroup_id (sc_sandbox_id (si_config inst))) Q' (m_cgroup_manager sm, t') \<longleftrightarrow>
      Q' (Ret (cgroup_id info)) (m_cgroup_manager sm, t')" for Q' t'
    by (simp add: wp_def get_cgroup_id_run [OF cg_okD(1) [OF cg]] info)
  have get: "wp (get_policy n) Q' (e, t') \<longleftrightarrow> Q' (Ret (policies e n)) (e, t')" for n Q' t'
    by (simp add: wp_def get_policy_run [OF free(2)])
  have mon: "wp (on_loader (set_cgroup_monitored E c True)) Q' (sm, t')"
    if "\<And>st u. neutral u \<Longrightarrow> Q' (Ret st) (sm, t' @ u)" for c t' Q'
    by (rule on_setter_rule [OF l set_cgroup_monitored_rule [OF free(1)]]) (use that in simp_all)
  have push: "wp (push_policy E p) Q' (sm, t')" if "\<And>u. neutral u \<Longrightarrow> Q' (Ret ()) (sm, t' @ u)" for p t' Q'
    using ok l that by (rule push_policy_rule)
  show ?thesis
    using post
    by (auto simp: apply_ebpf_policies_def wp_bindM wp_seqM wp_self wp_retM wp_on_field [of m_cgroup_manager]
        wp_on_field [of "\<lambda>sm. the (m_policy_engine sm)"] get_id get l e id same_engine
        intro!: mon push split: option.split)
qed

section \<open>What creation does\<close>

definition running :: "SandboxInstance \<Rightarrow> int \<Rightarrow> SandboxInstance" where
  "running inst boot = inst\<lparr>si_metadata := (si_metadata inst)\<lparr>md_boot_time := boot, md_state := Running\<rparr>,
     is_active := True\<rparr>"

lemma terminate_while_locked:
  "sm_mutex sm \<Longrightarrow> terminate_sandbox E k (sm, t) = (Deadlock, (sm, t))"
  by (simp add: terminate_sandbox_def sm.guarded_again)

lemma finish_create_rule:
  assumes locked: "sm_mutex sm" and ok: "parts_ok root sm"
    and known: "map_of (m_cgroups (m_cgroup_manager sm)) (sc_sandbox_id config) \<noteq> None"
    and inst: "si_config inst = config"
    and thrown: "\<And>u. neutral u \<Longrightarrow> Q (Throw FilesystemError) (sm, t @ u)"
    and stuck: "\<And>u. neutral u \<Longrightarrow> Q Deadlock (sm, t @ u)"
    and finished: "\<And>u boot. neutral u \<Longrightarrow> Q (Ret Success)
      (sm\<lparr>m_sandboxes := AList.update (sc_sandbox_id config) (running inst boot) (m_sandboxes sm)\<rparr>, t @ u)"
  shows "wp (finish_create E config inst start) Q (sm, t)"
proof -
  have free: "\<not> cm_mutex (m_cgroup_manager sm)" using ok by (auto simp: parts_ok_def cg_ok_def)
  have attach: "wp (on_cgroups (attach_pid E k pid)) Q' (sm, t')"
    if "\<And>st u. neutral u \<Longrightarrow> Q' (Ret st) (sm, t' @ u)" for k pid Q' t'
    using that that [of "[]"] free by (auto simp: wp_on_field intro!: attach_pid_rule)
  have exists: "wp (if b then fs_exists E p else retM False) Q' (sm, t')"
    if "\<And>r u. neutral u \<Longrightarrow> r = Throw FilesystemError \<or> (\<exists>x. r = Ret x) \<Longrightarrow> Q' r (sm, t' @ u)" for b p Q' t'
  proof -
    have "Q' (Ret False) (sm, t')" using that [of "[]" "Ret False"] by auto
    then show ?thesis
      using that [of "[Exists p (e_exists E t' p)]"]
      by (cases "e_exists E t' p") (auto simp: wp_fs_exists wp_retM Let_def)
  qed
  have api: "wp (if b then restore_firecracker_snapshot E inst else configure_firecracker_api E inst) Q' (sm, t')"
    if "\<And>st u. neutral u \<Longrightarrow> Q' (Ret st) (sm, t' @ u)" for b Q' t'
    using that by (simp add: restore_rule configure_rule)
  have policy: "wp (apply_ebpf_policies E inst) Q' (sm, t')"
    if "\<And>u. neutral u \<Longrightarrow> Q' (Ret Success) (sm, t' @ u)" for Q' t'
    by (rule apply_ebpf_rule [OF ok]) (use that known inst in simp_all)
  have deadlock: "wp (terminate_sandbox E k) Q' (sm, t') \<longleftrightarrow> Q' Deadlock (sm, t')" for k t'
    and Q' :: "Status outcome \<Rightarrow> SandboxManager \<times> trace \<Rightarrow> bool"
    by (simp add: wp_def terminate_while_locked [OF locked])
  let ?register = "bindM (now E) (\<lambda>end_time.
      seqM (assign (\<lambda>sm. sm\<lparr>m_sandboxes := AList.update (sc_sandbox_id config)
             (inst\<lparr>si_metadata := (si_metadata inst)\<lparr>md_boot_time := end_time - start, md_state := Running\<rparr>,
                   is_active := True\<rparr>) (m_sandboxes sm)\<rparr>)) (retM Success))"
  let ?after = "\<lambda>status. if status \<noteq> Success
      then seqM (terminate_sandbox E (sc_sandbox_id config)) (retM status)
      else bindM (apply_ebpf_policies E inst) (\<lambda>status. if status \<noteq> Success
        then seqM (terminate_sandbox E (sc_sandbox_id config)) (retM status) else ?register)"
  have register: "wp ?register Q (sm, t @ u)" if "neutral u" for u
    using finished [of "u @ [Clock (e_clock E (t @ u))]" "e_clock E (t @ u) - start"] that
    by (simp add: wp_bindM wp_seqM wp_assign wp_retM now_def wp_sys running_def)
  have after: "wp (?after st) Q (sm, t @ u)" if "neutral u" for st u
    using that stuck register by (auto simp: wp_bindM [of "apply_ebpf_policies E inst"] wp_seqM deadlock intro!: policy)
  have boot: "wp (bindM (if b then restore_firecracker_snapshot E inst else configure_firecracker_api E inst) ?after)
      Q (sm, t @ u)" if "neutral u" for b u
    unfolding wp_bindM [of "if b then _ else _"] by (rule api) (use that after in simp)
  have "wp (bindM (if use_snapshot_restore config then fs_exists E (snapshot_dir_path config) else retM False)
      (\<lambda>b. bindM (if b then restore_firecracker_snapshot E inst else configure_firecracker_api E inst) ?after))
      Q (sm, t @ u)" if "neutral u" for u
    unfolding wp_bindM [of "if use_snapshot_restore config then _ else _"]
    by (rule exists) (use that boot [of _ True, simplified] boot [of _ False, simplified] thrown in auto)
  then show ?thesis
    unfolding finish_create_def wp_seqM [of "on_cgroups _"] by (intro attach) simp
qed

text \<open>The manager with the cgroup of a new sandbox, and the instance that will be registered.\<close>

definition with_cgroup :: "SandboxConfig \<Rightarrow> u64 \<Rightarrow> int \<Rightarrow> SandboxManager \<Rightarrow> SandboxManager" where
  "with_cgroup config ino cfd sm = (let cm = m_cgroup_manager sm; k = sc_sandbox_id config in
     sm\<lparr>m_cgroup_manager := cm\<lparr>m_cgroups := AList.update k
        (make_info k (path_append (m_root_path cm) k) ino cfd (resource_limits config)) (m_cgroups cm)\<rparr>\<rparr>)"

definition made_instance :: "SandboxConfig \<Rightarrow> path \<Rightarrow> int \<Rightarrow> int \<Rightarrow> int \<Rightarrow> int \<Rightarrow> SandboxInstance" where
  "made_instance config dir created tfd pid boot =
     running ((with_tap (init_instance config dir created) tfd)\<lparr>firecracker_pid := pid\<rparr>) boot"

text \<open>The errors a creation can return. Those of the later steps are not among them.\<close>

definition create_error :: "Status \<Rightarrow> bool" where
  "create_error st \<longleftrightarrow> st = ErrInvalidSandboxID \<or> st = ErrCgroupQuotaExceeded \<or>
     st = ErrTAPInterfaceCreationFailed \<or> st = ErrMicroVMBootFailed"

text \<open>Traces of a creation that left a cgroup descriptor, a tap descriptor and processes behind.\<close>

definition booted :: "int \<Rightarrow> int \<Rightarrow> trace \<Rightarrow> bool" where
  "booted cfd tfd u \<longleftrightarrow> opened_fds u = closed_fds u + {#cfd, tfd#} \<and> killed_pids u = {#} \<and>
     attached_links u = {#} \<and> destroyed_links u = {#}"

lemma booted_extend: "booted cfd tfd u \<Longrightarrow> calm v \<Longrightarrow> booted cfd tfd (u @ v)"
  by (simp add: booted_def calm_def)

lemma delete_update_new: "map_of m k = None \<Longrightarrow> AList.delete k (AList.update k v m) = m"
  using delete_new [of m k] by (simp add: update_new AList.delete_eq)

lemma with_cgroup_simps [simp]:
  "sm_mutex (with_cgroup config ino cfd sm) = sm_mutex sm"
  "m_sandboxes (with_cgroup config ino cfd sm) = m_sandboxes sm"
  "m_ebpf_loader (with_cgroup config ino cfd sm) = m_ebpf_loader sm"
  "m_policy_engine (with_cgroup config ino cfd sm) = m_policy_engine sm"
  "m_base_runtime_dir (with_cgroup config ino cfd sm) = m_base_runtime_dir sm"
  "(with_cgroup config ino cfd sm)\<lparr>sm_mutex := b\<rparr> = with_cgroup config ino cfd (sm\<lparr>sm_mutex := b\<rparr>)"
  "(with_cgroup config ino cfd sm)\<lparr>m_sandboxes := m, sm_mutex := b\<rparr> =
     (with_cgroup config ino cfd (sm\<lparr>sm_mutex := b\<rparr>))\<lparr>m_sandboxes := m\<rparr>"
  by (simp_all add: with_cgroup_def Let_def)

lemma parts_ok_with_cgroup:
  "parts_ok root sm \<Longrightarrow> ino \<noteq> 0 \<Longrightarrow> cfd \<ge> 0 \<Longrightarrow> parts_ok root (with_cgroup config ino cfd sm)"
  by (auto simp: parts_ok_def with_cgroup_def Let_def make_info_def cg_entry_ok_def cg_okD
      intro!: cg_ok_insert)

lemma destroy_new_cgroup:
  assumes "\<not> cm_mutex (m_cgroup_manager sm)"
    and "map_of (m_cgroups (m_cgroup_manager sm)) (sc_sandbox_id config) = None" and "cfd \<ge> 0"
  shows "wp (on_cgroups (destroy_cgroup (sc_sandbox_id config))) Q (with_cgroup config ino cfd sm, t) \<longleftrightarrow>
    Q (Ret Success) (sm, t @ [Close cfd,
      RemoveAll (path_append (m_root_path (m_cgroup_manager sm)) (sc_sandbox_id config))])"
  using assms
  by (simp add: wp_def on_field_def with_cgroup_def Let_def destroy_cgroup_run um.find_insert_same
      delete_update_new destroy_events_def make_info_def)

lemma boot_sandbox_rule:
  fixes config
  defines "k \<equiv> sc_sandbox_id config"
  assumes locked: "sm_mutex sm" and ok: "parts_ok root sm" and ino: "ino \<noteq> 0" and cfd: "cfd \<ge> 0"
    and new: "map_of (m_cgroups (m_cgroup_manager sm)) k = None"
    and start: "opened_fds w = closed_fds w + {#cfd#}" "killed_pids w = {#}" "forked_pids w = {#}"
      "attached_links w = {#}" "destroyed_links w = {#}"
    and failed: "\<And>st u. create_error st \<Longrightarrow> calm u \<Longrightarrow> size (forked_pids u) \<le> 1 \<Longrightarrow>
      Q (Ret st) (sm, t @ u @ [RemoveAll dir])"
    and thrown: "\<And>u tfd. tfd \<ge> 0 \<Longrightarrow> booted cfd tfd u \<Longrightarrow>
      Q (Throw FilesystemError) (with_cgroup config ino cfd sm, t @ u)"
    and gone: "\<And>sm' u. Q Gone (sm', t @ u)"
    and stuck: "\<And>u tfd pid. tfd \<ge> 0 \<Longrightarrow> pid > 0 \<Longrightarrow> booted cfd tfd u \<Longrightarrow> forked_pids u = {#pid#} \<Longrightarrow>
      Q Deadlock (with_cgroup config ino cfd sm, t @ u)"
    and made: "\<And>u tfd pid boot. tfd \<ge> 0 \<Longrightarrow> pid > 0 \<Longrightarrow> booted cfd tfd u \<Longrightarrow> forked_pids u = {#pid#} \<Longrightarrow>
      Q (Ret Success) ((with_cgroup config ino cfd sm)\<lparr>m_sandboxes :=
        AList.update k (made_instance config dir created tfd pid boot) (m_sandboxes sm)\<rparr>, t @ u)"
  shows "wp (boot_sandbox E config dir (init_instance config dir created) start_time) Q
    (with_cgroup config ino cfd sm, t @ w)"
proof -
  let ?sm = "with_cgroup config ino cfd sm" and ?inst = "init_instance config dir created"
  have free: "\<not> cm_mutex (m_cgroup_manager sm)" using ok by (auto simp: parts_ok_def cg_ok_def)
  note destroy = destroy_new_cgroup [OF free new [unfolded k_def] cfd]
  have undo: "Q (Ret st) (sm, t @ w @ v @ [Close cfd, RemoveAll p, RemoveAll dir])"
    if "create_error st" "calm v" "size (forked_pids v) \<le> 1" for st v p
    using failed [of st "w @ v @ [Close cfd, RemoveAll p]"] that start by (simp add: calm_def)
  have tap: "booted cfd fd (w @ [Open ''/dev/net/tun'' fd, TunSetIff fd n r] @ v)"
    if "fd \<ge> 0" "calm v" for fd n r v
    using start that by (simp add: booted_def calm_def)
  have tap_closed: "calm ([Open ''/dev/net/tun'' fd, TunSetIff fd n r] @ v @ [Close fd])"
    if "fd \<ge> 0" "calm v" for fd n r v
    using that by (simp add: calm_def)
  have ok': "parts_ok root ?sm" by (rule parts_ok_with_cgroup [OF ok ino cfd])
  have known: "map_of (m_cgroups (m_cgroup_manager ?sm)) (sc_sandbox_id config) \<noteq> None"
    by (simp add: with_cgroup_def Let_def um.find_insert_same)
  show ?thesis
    unfolding boot_sandbox_def wp_bindM
    apply (rule setup_tap_rule)
    subgoal for u
      using undo [of ErrTAPInterfaceCreationFailed u]
      by (simp add: wp_seqM wp_retM destroy fs_remove_all_def wp_sys create_error_def)
    subgoal for fd n r
      apply (simp add: wp_bindM)
      apply (rule spawn_rule)
      subgoal for u using thrown [OF _ tap [of fd u n r]] by simp
      subgoal for u inst'
        using undo [OF _ tap_closed [of fd u n r], of ErrMicroVMBootFailed]
        by (simp add: wp_seqM wp_retM destroy fs_remove_all_def c_close_def wp_sys with_tap_def create_error_def)
      subgoal for u using gone by simp
      subgoal for pid u
        apply simp
        apply (rule finish_create_rule [OF _ ok' known])
        subgoal using locked by simp
        subgoal by (simp add: with_tap_def init_instance_def)
        subgoal for v using thrown [OF _ tap [of fd "u @ v" n r]] by simp
        subgoal for v using stuck [OF _ _ tap [of fd "u @ v" n r]] start by simp
        subgoal for v boot
          using made [OF _ _ tap [of fd "u @ v" n r], of pid boot] start
          by (simp add: k_def made_instance_def)
        done
      done
    done
qed

text \<open>Every way a creation can end.\<close>

lemma create_sandbox_rule:
  fixes config and sm :: SandboxManager
  defines "k \<equiv> sc_sandbox_id config" and "dir \<equiv> path_append (m_base_runtime_dir sm) (sc_sandbox_id config)"
  assumes free: "\<not> sm_mutex sm" and ok: "parts_ok root sm"
    and invalid: "k = [] \<or> map_of (m_sandboxes sm) k \<noteq> None \<Longrightarrow> Q (Ret ErrInvalidSandboxID) (sm, t)"
    and failed: "\<And>st u. k \<noteq> [] \<Longrightarrow> map_of (m_sandboxes sm) k = None \<Longrightarrow> create_error st \<Longrightarrow> calm u \<Longrightarrow>
      size (forked_pids u) \<le> 1 \<Longrightarrow> Q (Ret st) (sm, t @ u @ [RemoveAll dir])"
    and thrown: "\<And>u ino cfd tfd. map_of (m_sandboxes sm) k = None \<Longrightarrow> ino \<noteq> 0 \<Longrightarrow> cfd \<ge> 0 \<Longrightarrow> tfd \<ge> 0 \<Longrightarrow>
      booted cfd tfd u \<Longrightarrow> Q (Throw FilesystemError) (with_cgroup config ino cfd sm, t @ u)"
    and gone: "\<And>sm' u. Q Gone (sm', t @ u)"
    and stuck: "\<And>u ino cfd tfd pid. tfd \<ge> 0 \<Longrightarrow> pid > 0 \<Longrightarrow> booted cfd tfd u \<Longrightarrow> forked_pids u = {#pid#} \<Longrightarrow>
      Q Deadlock (with_cgroup config ino cfd (sm\<lparr>sm_mutex := True\<rparr>), t @ u)"
    and made: "\<And>u ino cfd tfd pid boot created. k \<noteq> [] \<Longrightarrow> map_of (m_sandboxes sm) k = None \<Longrightarrow>
      map_of (m_cgroups (m_cgroup_manager sm)) k = None \<Longrightarrow> ino \<noteq> 0 \<Longrightarrow> cfd \<ge> 0 \<Longrightarrow> tfd \<ge> 0 \<Longrightarrow> pid > 0 \<Longrightarrow>
      booted cfd tfd u \<Longrightarrow> forked_pids u = {#pid#} \<Longrightarrow>
      Q (Ret Success) ((with_cgroup config ino cfd sm)\<lparr>m_sandboxes :=
        AList.update k (made_instance config dir created tfd pid boot) (m_sandboxes sm)\<rparr>, t @ u)"
  shows "wp (create_sandbox E config) Q (sm, t)"
proof (cases "k = [] \<or> map_of (m_sandboxes sm) k \<noteq> None")
  case True
  then show ?thesis
    using invalid free by (auto simp: create_sandbox_def wp_guarded wp_bindM wp_self wp_retM k_def)
next
  case False
  let ?sm = "sm\<lparr>sm_mutex := True\<rparr>" and ?cm = "m_cgroup_manager sm"
  have cfree: "\<not> cm_mutex ?cm" and root: "m_root_path ?cm = root"
    using ok by (auto simp: parts_ok_def cg_ok_def)
  let ?p = "\<lambda>c1 b c2 u. Clock c1 # CreateDirectories dir b # Clock c2 # u"
  have dir: "path_append (m_base_runtime_dir sm) k = dir" by (simp add: k_def dir_def)
  have early: "Q (Ret st) (sm, t @ ?p c1 b c2 u @ [RemoveAll dir])" if "create_error st" "neutral u" for st u c1 b c2
    using failed [of st "?p c1 b c2 u"] that False by auto
  have body: "wp (boot_sandbox E config dir (init_instance config dir created) start) (\<lambda>r (ob, t'). case r of
        Ret x \<Rightarrow> Q (Ret x) (ob\<lparr>sm_mutex := False\<rparr>, t') | Throw e \<Rightarrow> Q (Throw e) (ob\<lparr>sm_mutex := False\<rparr>, t')
      | Deadlock \<Rightarrow> Q Deadlock (ob, t') | Gone \<Rightarrow> Q Gone (ob, t')) (with_cgroup config ino cfd ?sm, t @ w)"
    if "ino \<noteq> 0" "cfd \<ge> 0" "map_of (m_cgroups ?cm) k = None" "opened_fds w = closed_fds w + {#cfd#}"
      "killed_pids w = {#}" "forked_pids w = {#}" "attached_links w = {#}" "destroyed_links w = {#}"
    for ino cfd created start w
    apply (rule boot_sandbox_rule [of ?sm root ino cfd config w])
    using that ok False free failed thrown gone stuck made
    by (simp_all add: k_def)
  have body': "wp (boot_sandbox E config dir (init_instance config dir created) start) (\<lambda>r (ob, t'). case r of
        Ret x \<Rightarrow> Q (Ret x) (ob\<lparr>sm_mutex := False\<rparr>, t') | Throw e \<Rightarrow> Q (Throw e) (ob\<lparr>sm_mutex := False\<rparr>, t')
      | Deadlock \<Rightarrow> Q Deadlock (ob, t') | Gone \<Rightarrow> Q Gone (ob, t'))
      (with_cgroup config ino cfd ?sm, t @ ?p c1 b c2 w @ [Open d cfd])"
    if "ino \<noteq> 0" "cfd \<ge> 0" "map_of (m_cgroups ?cm) k = None" "list_all fs_event w"
    for ino cfd created start w c1 b c2 d
    using body [of ino cfd "?p c1 b c2 w @ [Open d cfd]" created start] that
    by (simp add: fs_event_quiet)
  have cgroup: "wp (on_cgroups (create_cgroup E k (resource_limits config))) Q' (?sm, t')"
    if "\<And>st u. create_error st \<Longrightarrow> neutral u \<Longrightarrow> Q' (Ret st) (?sm, t' @ u)"
      and "\<And>w ino cfd. ino \<noteq> 0 \<Longrightarrow> cfd \<ge> 0 \<Longrightarrow> map_of (m_cgroups ?cm) k = None \<Longrightarrow>
        list_all fs_event w \<Longrightarrow> Q' (Ret Success) (with_cgroup config ino cfd ?sm, t' @ w @ [Open (path_append root k) cfd])"
    for Q' t'
  proof -
    have "wp (create_cgroup E k (resource_limits config))
        (\<lambda>r (f, t'). Q' r (?sm\<lparr>m_cgroup_manager := f\<rparr>, t')) (?cm, t')"
    proof (rule create_cgroup_rule [OF cfree])
      fix c1 c2 c3 ino fd
      assume "map_of (m_cgroups ?cm) k = None" "(ino :: u64) \<noteq> 0" "(fd :: int) \<ge> 0"
      then show "case (?cm\<lparr>m_cgroups := AList.update k (make_info k (path_append (m_root_path ?cm) k) ino fd
          (resource_limits config)) (m_cgroups ?cm)\<rparr>,
          t' @ CreateDirectories (path_append (m_root_path ?cm) k) True #
            limit_writes (path_append (m_root_path ?cm) k) (resource_limits config) c1 c2 c3 @
            [Stat (path_append (m_root_path ?cm) k) (Some ino), Open (path_append (m_root_path ?cm) k) fd]) of
          (f, t') \<Rightarrow> Q' (Ret Success) (?sm\<lparr>m_cgroup_manager := f\<rparr>, t')"
        using that(2) [of ino fd "CreateDirectories (path_append root k) True #
            limit_writes (path_append root k) (resource_limits config) c1 c2 c3 @ [Stat (path_append root k) (Some ino)]"]
        by (simp add: with_cgroup_def Let_def k_def root fs_event_def)
    qed (use that(1) [of ErrInvalidSandboxID "[]"] that(1) [of ErrCgroupQuotaExceeded]
        in \<open>auto simp: create_error_def\<close>)
    then show ?thesis by (simp add: wp_on_field)
  qed
  have "\<not> create_error Success" by (simp add: create_error_def)
  then show ?thesis
    using False free early
    by (auto simp: create_sandbox_def wp_guarded wp_bindM wp_seqM wp_self wp_retM now_def wp_sys
        fs_create_directories_def fs_remove_all_def k_def [symmetric] dir intro!: cgroup body' [unfolded append_Cons])
qed

section \<open>What termination does\<close>

definition stop_events :: "SandboxInstance \<Rightarrow> trace" where
  "stop_events inst =
     (if firecracker_pid inst > 0 then [Kill (firecracker_pid inst) 9, Waitpid (firecracker_pid inst)] else []) @
     (if tap_fd inst \<ge> 0 then [Close (tap_fd inst)] else [])"

definition cgroup_events :: "SandboxManager \<Rightarrow> string \<Rightarrow> trace" where
  "cgroup_events sm k = (case map_of (m_cgroups (m_cgroup_manager sm)) k of
     None \<Rightarrow> [] | Some info \<Rightarrow> destroy_events info)"

definition drop_cgroup :: "string \<Rightarrow> SandboxManager \<Rightarrow> SandboxManager" where
  "drop_cgroup k sm = sm\<lparr>m_cgroup_manager := (m_cgroup_manager sm)\<lparr>m_cgroups :=
     AList.delete k (m_cgroups (m_cgroup_manager sm))\<rparr>\<rparr>"

lemma drop_cgroup_simps [simp]:
  "sm_mutex (drop_cgroup k sm) = sm_mutex sm" "m_sandboxes (drop_cgroup k sm) = m_sandboxes sm"
  "m_base_runtime_dir (drop_cgroup k sm) = m_base_runtime_dir sm"
  "m_ebpf_loader (drop_cgroup k sm) = m_ebpf_loader sm"
  "(drop_cgroup k sm)\<lparr>sm_mutex := b\<rparr> = drop_cgroup k (sm\<lparr>sm_mutex := b\<rparr>)"
  "(drop_cgroup k sm)\<lparr>m_sandboxes := m, sm_mutex := b\<rparr> = (drop_cgroup k (sm\<lparr>sm_mutex := b\<rparr>))\<lparr>m_sandboxes := m\<rparr>"
  "cgroup_events (sm\<lparr>sm_mutex := b\<rparr>) k' = cgroup_events sm k'"
  by (simp_all add: drop_cgroup_def cgroup_events_def)

lemma parts_ok_drop: "parts_ok root sm \<Longrightarrow> parts_ok root (drop_cgroup k sm)"
  by (simp add: parts_ok_def drop_cgroup_def cg_ok_erase)

lemma destroy_on_cgroups:
  assumes "parts_ok root sm"
  shows "\<exists>st. on_cgroups (destroy_cgroup k) (sm, t) = (Ret st, (drop_cgroup k sm, t @ cgroup_events sm k))"
proof -
  have "\<not> cm_mutex (m_cgroup_manager sm)" using assms by (auto simp: parts_ok_def cg_ok_def)
  then show ?thesis
    by (cases "map_of (m_cgroups (m_cgroup_manager sm)) k")
      (simp_all add: on_field_def destroy_cgroup_run drop_cgroup_def cgroup_events_def delete_new)
qed

lemma wp_destroy_on_cgroups:
  assumes "parts_ok root sm" and "\<And>st. Q (Ret st) (drop_cgroup k sm, t @ cgroup_events sm k)"
  shows "wp (on_cgroups (destroy_cgroup k)) Q (sm, t)"
  using destroy_on_cgroups [OF assms(1), of k t] assms(2) by (auto simp: wp_def)

lemma unmonitor_rule:
  assumes ok: "parts_ok root sm" and post: "\<And>u. neutral u \<Longrightarrow> Q (Ret ()) (sm, t @ u)"
  shows "wp (unmonitor E k) Q (sm, t)"
proof (cases "m_ebpf_loader sm")
  case None
  then show ?thesis using post [of "[]"] by (simp add: unmonitor_def wp_bindM wp_self wp_retM)
next
  case (Some l)
  have cfree: "\<not> cm_mutex (m_cgroup_manager sm)" and free: "\<not> el_mutex l"
    using ok Some by (auto simp: parts_ok_def cg_ok_def)
  have get_id: "wp (get_cgroup_id k) Q' (m_cgroup_manager sm, t') \<longleftrightarrow>
      Q' (Ret (case map_of (m_cgroups (m_cgroup_manager sm)) k of Some info \<Rightarrow> cgroup_id info | None \<Rightarrow> 0))
        (m_cgroup_manager sm, t')" for Q' t'
    by (simp add: wp_def get_cgroup_id_run [OF cfree])
  have mon: "wp (on_loader (set_cgroup_monitored E c False)) Q' (sm, t')"
    if "\<And>st u. neutral u \<Longrightarrow> Q' (Ret st) (sm, t' @ u)" for c t' Q'
    by (rule on_setter_rule [OF Some set_cgroup_monitored_rule [OF free]]) (use that in simp_all)
  show ?thesis
    using post post [of "[]"] Some
    by (auto simp: unmonitor_def wp_bindM wp_seqM wp_self wp_retM wp_on_field [of m_cgroup_manager] get_id
        intro!: mon)
qed

lemma wp_stop:
  "wp (seqM (kill_process (firecracker_pid inst))
      (seqM (if tap_fd inst \<ge> 0 then c_close (tap_fd inst) else retM ()) m)) Q (sm, t) \<longleftrightarrow>
    wp m Q (sm, t @ stop_events inst)"
  by (simp add: kill_process_def wp_seqM c_kill_def c_waitpid_def c_close_def wp_sys wp_retM stop_events_def)

lemma terminate_sandbox_rule:
  assumes free: "\<not> sm_mutex sm" and ok: "parts_ok root sm"
    and unknown: "map_of (m_sandboxes sm) k = None \<Longrightarrow> Q (Ret ErrInvalidSandboxID) (sm, t)"
    and known: "\<And>inst v. map_of (m_sandboxes sm) k = Some inst \<Longrightarrow> neutral v \<Longrightarrow>
      Q (Ret Success) ((drop_cgroup k sm)\<lparr>m_sandboxes := AList.delete k (m_sandboxes sm)\<rparr>,
        t @ stop_events inst @ v @ cgroup_events sm k @ [RemoveAll (path_append (m_base_runtime_dir sm) k)])"
  shows "wp (terminate_sandbox E k) Q (sm, t)"
proof (cases "map_of (m_sandboxes sm) k")
  case None
  then show ?thesis using unknown free by (simp add: terminate_sandbox_def wp_simps)
next
  case (Some inst)
  let ?sm = "sm\<lparr>sm_mutex := True\<rparr>"
  have ok': "parts_ok root ?sm" using ok by simp
  have tail: "wp (seqM (unmonitor E k)
        (seqM (on_cgroups (destroy_cgroup k))
        (bindM (self m_base_runtime_dir) (\<lambda>base.
         seqM (fs_remove_all (path_append base k))
        (seqM (assign (\<lambda>sm. sm\<lparr>m_sandboxes := AList.delete k (m_sandboxes sm)\<rparr>))
              (retM Success)))))) (\<lambda>r (ob, t'). case r of
        Ret x \<Rightarrow> Q (Ret x) (ob\<lparr>sm_mutex := False\<rparr>, t') | Throw e \<Rightarrow> Q (Throw e) (ob\<lparr>sm_mutex := False\<rparr>, t')
      | Deadlock \<Rightarrow> Q Deadlock (ob, t') | Gone \<Rightarrow> Q Gone (ob, t')) (?sm, t @ stop_events inst)"
    unfolding wp_seqM [of "unmonitor E k"]
    by (rule unmonitor_rule [OF ok'])
      (auto simp: wp_seqM wp_bindM wp_self wp_assign wp_retM fs_remove_all_def wp_sys free
        intro!: wp_destroy_on_cgroups [OF ok'] known [OF Some])
  show ?thesis
    using tail Some free
    by (simp add: terminate_sandbox_def wp_guarded wp_bindM [of "self f" for f] wp_self wp_stop)
qed

text \<open>Terminating all: the entries are stopped one after the other, then the table is cleared.\<close>

definition entry_events :: "SandboxManager \<Rightarrow> string \<Rightarrow> trace" where
  "entry_events sm k = stop_events (the (map_of (m_sandboxes sm) k)) @ cgroup_events sm k @
     [RemoveAll (path_append (m_base_runtime_dir sm) k)]"

lemma terminate_entry_run:
  assumes ok: "parts_ok root sm" and known: "map_of (m_sandboxes sm) k = Some inst"
  shows "terminate_entry k (sm, t) = (Ret (), (drop_cgroup k sm, t @ entry_events sm k))"
proof -
  have "wp (terminate_entry k) (\<lambda>r s. r = Ret () \<and> s = (drop_cgroup k sm, t @ entry_events sm k)) (sm, t)"
    using known
    by (auto simp: terminate_entry_def wp_bindM [of "self f" for f] wp_self wp_stop wp_seqM [of "on_cgroups m" for m]
        fs_remove_all_def wp_sys entry_events_def intro!: wp_destroy_on_cgroups [OF ok])
  then show ?thesis by (simp add: wp_def split: prod.splits)
qed

lemma cgroup_events_drop: "parts_ok root sm \<Longrightarrow> k' \<noteq> k \<Longrightarrow> cgroup_events (drop_cgroup k sm) k' = cgroup_events sm k'"
  by (auto simp: cgroup_events_def drop_cgroup_def parts_ok_def cg_ok_def um.find_erase)

lemma entries_run:
  assumes "parts_ok root sm" and "distinct ids" and "\<And>k. k \<in> set ids \<Longrightarrow> map_of (m_sandboxes sm) k \<noteq> None"
  shows "forM ids terminate_entry (sm, t) =
    (Ret (), (fold drop_cgroup ids sm, t @ concat (map (entry_events sm) ids)))"
  using assms
proof (induction ids arbitrary: sm t)
  case Nil
  then show ?case by (simp add: retM_def)
next
  case (Cons k ids)
  obtain inst where inst: "map_of (m_sandboxes sm) k = Some inst" using Cons.prems(3) by auto
  have same: "entry_events (drop_cgroup k sm) k' = entry_events sm k'" if "k' \<in> set ids" for k'
    using that Cons.prems(2) cgroup_events_drop [OF Cons.prems(1), of k' k] by (auto simp: entry_events_def)
  have "forM ids terminate_entry (drop_cgroup k sm, t @ entry_events sm k) =
      (Ret (), (fold drop_cgroup ids (drop_cgroup k sm),
        (t @ entry_events sm k) @ concat (map (entry_events (drop_cgroup k sm)) ids)))"
    by (rule Cons.IH) (use Cons.prems in \<open>simp_all add: parts_ok_drop\<close>)
  moreover have "map (entry_events (drop_cgroup k sm)) ids = map (entry_events sm) ids"
    using same by simp
  ultimately show ?case by (simp add: bindM_def terminate_entry_run [OF Cons.prems(1) inst])
qed

lemma fold_drop_simps [simp]:
  "sm_mutex (fold drop_cgroup ks sm) = sm_mutex sm" "m_sandboxes (fold drop_cgroup ks sm) = m_sandboxes sm"
  "m_base_runtime_dir (fold drop_cgroup ks sm) = m_base_runtime_dir sm"
  "(fold drop_cgroup ks sm)\<lparr>m_sandboxes := m, sm_mutex := b\<rparr> = (fold drop_cgroup ks (sm\<lparr>sm_mutex := b\<rparr>))\<lparr>m_sandboxes := m\<rparr>"
proof -
  show "sm_mutex (fold drop_cgroup ks sm) = sm_mutex sm" "m_sandboxes (fold drop_cgroup ks sm) = m_sandboxes sm"
    "m_base_runtime_dir (fold drop_cgroup ks sm) = m_base_runtime_dir sm"
    by (induction ks arbitrary: sm) simp_all
  have "(fold drop_cgroup ks sm)\<lparr>sm_mutex := b\<rparr> = fold drop_cgroup ks (sm\<lparr>sm_mutex := b\<rparr>)"
    by (induction ks arbitrary: sm) simp_all
  note commute = this
  show "(fold drop_cgroup ks sm)\<lparr>m_sandboxes := m, sm_mutex := b\<rparr> =
      (fold drop_cgroup ks (sm\<lparr>sm_mutex := b\<rparr>))\<lparr>m_sandboxes := m\<rparr>"
    by (simp flip: commute)
qed

lemma terminate_all_run:
  fixes sm :: SandboxManager and E :: env and t :: trace
  defines "ids \<equiv> e_iter_strings E t (um_keys (m_sandboxes sm))"
  assumes free: "\<not> sm_mutex sm" and ok: "parts_ok root sm" and wf: "um_wf (m_sandboxes sm)" and it: "iterates E"
  shows "terminate_all E (sm, t) = (Ret (), ((fold drop_cgroup ids sm)\<lparr>m_sandboxes := []\<rparr>,
    t @ concat (map (entry_events sm) ids)))"
proof -
  let ?sm = "sm\<lparr>sm_mutex := True\<rparr>"
  have "map_of (m_sandboxes ?sm) k \<noteq> None" if "k \<in> set ids" for k
    using that um.keys_find [of k "m_sandboxes sm"] by (simp add: ids_def iterates_set [OF it])
  moreover have "distinct ids" using wf it by (simp add: ids_def iterates_distinct um.wf_distinct)
  ultimately have "forM ids terminate_entry (?sm, t) =
      (Ret (), (fold drop_cgroup ids ?sm, t @ concat (map (entry_events ?sm) ids)))"
    using ok by (intro entries_run) simp_all
  moreover have "entry_events ?sm = entry_events sm" by (simp add: fun_eq_iff entry_events_def)
  ultimately show ?thesis
    using free
    by (simp add: terminate_all_def guarded_def lock_guard_def bindM_def seqM_def getM_def assign_def
        ids_def [symmetric])
qed

section \<open>The invariant of the manager\<close>

text \<open>
  Every registered sandbox runs, has a process, a tap descriptor and a cgroup of the same name, and
  there are no other cgroups; every descriptor that was opened was closed or is held by a sandbox
  or its cgroup. A call that throws breaks the last two, so the runs considered here end there.
\<close>

definition cgs :: "SandboxManager \<Rightarrow> (string \<times> CgroupInfo) list" where
  "cgs sm = m_cgroups (m_cgroup_manager sm)"

definition tap_fds :: "SandboxManager \<Rightarrow> int multiset" where
  "tap_fds sm = image_mset (\<lambda>(k, inst). tap_fd inst) (mset (m_sandboxes sm))"

definition inst_ok :: "path \<Rightarrow> string \<Rightarrow> SandboxInstance \<Rightarrow> bool" where
  "inst_ok base k inst \<longleftrightarrow> k \<noteq> [] \<and> sc_sandbox_id (si_config inst) = k \<and> firecracker_pid inst > 0 \<and>
     tap_fd inst \<ge> 0 \<and> is_active inst \<and> md_state (si_metadata inst) = Running \<and>
     socket_path inst = path_append (path_append base k) ''firecracker.socket''"

definition sm_ok :: "path \<Rightarrow> path \<Rightarrow> SandboxManager \<Rightarrow> bool" where
  "sm_ok root base sm \<longleftrightarrow> \<not> sm_mutex sm \<and> parts_ok root sm \<and> m_base_runtime_dir sm = base \<and>
     um_wf (m_sandboxes sm) \<and> (\<forall>k inst. map_of (m_sandboxes sm) k = Some inst \<longrightarrow> inst_ok base k inst) \<and>
     set (um_keys (m_sandboxes sm)) = set (um_keys (cgs sm))"

definition sm_inv :: "path \<Rightarrow> path \<Rightarrow> SandboxManager \<times> trace \<Rightarrow> bool" where
  "sm_inv root base = (\<lambda>(sm, t). sm_ok root base sm \<and>
     opened_fds t = closed_fds t + cg_fds (m_cgroup_manager sm) + tap_fds sm)"

lemma sm_okD:
  assumes "sm_ok root base sm"
  shows "\<not> sm_mutex sm" and "parts_ok root sm" and "um_wf (m_sandboxes sm)" and "um_wf (cgs sm)"
    and "map_of (m_sandboxes sm) k = Some inst \<Longrightarrow> inst_ok base k inst"
    and "set (um_keys (m_sandboxes sm)) = set (um_keys (cgs sm))" and "m_base_runtime_dir sm = base"
  using assms by (auto simp: sm_ok_def parts_ok_def cg_ok_def cgs_def)

lemma cgs_simps [simp]:
  "cgs (sm\<lparr>m_sandboxes := m\<rparr>) = cgs sm"
  "cgs (with_cgroup config ino cfd sm) = AList.update (sc_sandbox_id config) (make_info (sc_sandbox_id config)
     (path_append (m_root_path (m_cgroup_manager sm)) (sc_sandbox_id config)) ino cfd (resource_limits config)) (cgs sm)"
  "cgs (drop_cgroup k sm) = AList.delete k (cgs sm)"
  by (simp_all add: cgs_def with_cgroup_def drop_cgroup_def Let_def)

lemma made_instance_simps [simp]:
  "tap_fd (made_instance c d cr tfd pid b) = tfd"
  "firecracker_pid (made_instance c d cr tfd pid b) = pid"
  "inst_ok base (sc_sandbox_id c) (made_instance c (path_append base (sc_sandbox_id c)) cr tfd pid b) \<longleftrightarrow>
     sc_sandbox_id c \<noteq> [] \<and> pid > 0 \<and> tfd \<ge> 0"
  by (auto simp: made_instance_def running_def with_tap_def init_instance_def inst_ok_def)

lemma cg_fds_with_cgroup:
  "map_of (cgs sm) (sc_sandbox_id config) = None \<Longrightarrow>
    cg_fds (m_cgroup_manager (with_cgroup config ino cfd sm)) = add_mset cfd (cg_fds (m_cgroup_manager sm))"
  by (simp add: with_cgroup_def Let_def cg_fds_insert cgs_def make_info_def)

lemma tap_fds_simps [simp]:
  "tap_fds (sm\<lparr>m_sandboxes := []\<rparr>) = {#}"
  "map_of m k = None \<Longrightarrow> tap_fds (sm\<lparr>m_sandboxes := AList.update k inst m\<rparr>) =
     add_mset (tap_fd inst) (tap_fds (sm\<lparr>m_sandboxes := m\<rparr>))"
  by (simp_all add: tap_fds_def update_new)

lemma made_inv:
  assumes inv: "sm_inv root base (sm, t)" and k: "k = sc_sandbox_id config" "k \<noteq> []"
    and new: "map_of (m_sandboxes sm) k = None" "map_of (cgs sm) k = None"
    and vals: "ino \<noteq> 0" "cfd \<ge> 0" "tfd \<ge> 0" "pid > 0" and u: "booted cfd tfd u"
  shows "sm_inv root base ((with_cgroup config ino cfd sm)\<lparr>m_sandboxes :=
    AList.update k (made_instance config (path_append base k) created tfd pid boot) (m_sandboxes sm)\<rparr>, t @ u)"
proof -
  have ok: "sm_ok root base sm" using inv by (simp add: sm_inv_def)
  let ?sm = "(with_cgroup config ino cfd sm)\<lparr>m_sandboxes :=
    AList.update k (made_instance config (path_append base k) created tfd pid boot) (m_sandboxes sm)\<rparr>"
  have "sm_ok root base ?sm"
    using sm_okD [OF ok] vals k
    by (auto simp: sm_ok_def parts_ok_with_cgroup um.wf_insert um.find_insert um.set_keys_insert split: if_splits)
  moreover have "tap_fds ?sm = add_mset tfd (tap_fds sm)"
    using new by (simp add: tap_fds_def update_new)
  ultimately show ?thesis
    using inv u new k by (simp add: sm_inv_def booted_def cg_fds_with_cgroup)
qed

lemma calm_inv: "sm_inv root base (sm, t) \<Longrightarrow> calm u \<Longrightarrow> sm_inv root base (sm, t @ u)"
  by (simp add: sm_inv_def calm_def)

lemma create_sandbox_inv:
  assumes inv: "sm_inv root base (sm, t)"
  shows "wp (create_sandbox E config) (\<lambda>r s. (\<exists>st. r = Ret st) \<longrightarrow> sm_inv root base s) (sm, t)"
proof -
  have ok: "sm_ok root base sm" using inv by (simp add: sm_inv_def)
  note D = sm_okD [OF ok]
  show ?thesis
    by (rule create_sandbox_rule [OF D(1,2)])
      (auto simp: D(7) cgs_def intro!: calm_inv [OF inv] made_inv [OF inv] intro: inv)
qed

lemma stop_events_fds [simp]:
  "opened_fds (stop_events inst) = {#}" "forked_pids (stop_events inst) = {#}"
  "closed_fds (stop_events inst) = (if tap_fd inst \<ge> 0 then {#tap_fd inst#} else {#})"
  "killed_pids (stop_events inst) = (if firecracker_pid inst > 0 then {#firecracker_pid inst#} else {#})"
  by (simp_all add: stop_events_def)

lemma cgroup_events_fds:
  assumes "parts_ok root sm" and "map_of (cgs sm) k = Some info"
  shows "opened_fds (cgroup_events sm k) = {#}" and "closed_fds (cgroup_events sm k) = {#cgroup_fd info#}"
  using assms by (auto simp: cgroup_events_def cgs_def parts_ok_def cg_ok_def cg_entry_ok_def)

lemma terminate_sandbox_inv:
  assumes inv: "sm_inv root base (sm, t)"
  shows "wp (terminate_sandbox E k) (\<lambda>r s. (\<exists>st. r = Ret st) \<and> sm_inv root base s) (sm, t)"
proof -
  have ok: "sm_ok root base sm" using inv by (simp add: sm_inv_def)
  note D = sm_okD [OF ok]
  show ?thesis
  proof (rule terminate_sandbox_rule [OF D(1,2)])
    fix inst v assume inst: "map_of (m_sandboxes sm) k = Some inst" and v: "neutral v"
    have io: "inst_ok base k inst" by (rule D(5) [OF inst])
    obtain info where info: "map_of (cgs sm) k = Some info"
      using inst D(6) um.keys_find [of k "m_sandboxes sm"] um.keys_find [of k "cgs sm"] by auto
    let ?sm = "(drop_cgroup k sm)\<lparr>m_sandboxes := AList.delete k (m_sandboxes sm)\<rparr>"
    have "sm_ok root base ?sm"
      using D by (auto simp: sm_ok_def parts_ok_drop um.wf_erase um.find_erase um.set_keys_erase split: if_splits)
    moreover have "tap_fds sm = add_mset (tap_fd inst) (tap_fds ?sm)"
      using mset_map_delete [OF D(3) inst, of "\<lambda>(k, inst). tap_fd inst"] by (simp add: tap_fds_def)
    moreover have "cg_fds (m_cgroup_manager sm) = add_mset (cgroup_fd info) (cg_fds (m_cgroup_manager ?sm))"
      using cg_fds_erase [of "m_cgroup_manager sm" k info] D(4) info by (simp add: cgs_def drop_cgroup_def)
    ultimately show "(\<exists>st. Ret Success = Ret st) \<and> sm_inv root base (?sm,
        t @ stop_events inst @ v @ cgroup_events sm k @ [RemoveAll (path_append (m_base_runtime_dir sm) k)])"
      using inv v io by (simp add: sm_inv_def neutral_def inst_ok_def cgroup_events_fds [OF D(2) info])
  qed (use inv in auto)
qed

lemma cgs_fold_drop: "cgs (fold drop_cgroup ks sm) = filter (\<lambda>e. fst e \<notin> set ks) (cgs sm)"
proof (induction ks arbitrary: sm)
  case (Cons k ks)
  show ?case
    by (simp add: Cons.IH AList.delete_eq) (rule filter_cong; auto)
qed simp

lemma parts_ok_fold: "parts_ok root sm \<Longrightarrow> parts_ok root (fold drop_cgroup ks sm)"
  by (induction ks arbitrary: sm) (simp_all add: parts_ok_drop)

lemma entries_fds:
  assumes "\<And>k. k \<in> set ks \<Longrightarrow> opened_fds (entry_events sm k) = {#} \<and> closed_fds (entry_events sm k) = {#f k#} + {#g k#}"
  shows "opened_fds (concat (map (entry_events sm) ks)) = {#}"
    and "closed_fds (concat (map (entry_events sm) ks)) = image_mset f (mset ks) + image_mset g (mset ks)"
  using assms by (induction ks) auto

lemma terminate_all_fds:
  assumes ok: "sm_ok root base sm" and it: "iterates E"
  shows "opened_fds (concat (map (entry_events sm) (e_iter_strings E t (um_keys (m_sandboxes sm))))) = {#}"
    and "closed_fds (concat (map (entry_events sm) (e_iter_strings E t (um_keys (m_sandboxes sm))))) =
      tap_fds sm + cg_fds (m_cgroup_manager sm)"
proof -
  note D = sm_okD [OF ok]
  let ?ids = "e_iter_strings E t (um_keys (m_sandboxes sm))"
  let ?tap = "\<lambda>k. tap_fd (the (map_of (m_sandboxes sm) k))"
  let ?cg = "\<lambda>k. cgroup_fd (the (map_of (cgs sm) k))"
  have ids: "mset ?ids = mset (um_keys (m_sandboxes sm))" using it by (simp add: iterates_def)
  have each: "opened_fds (entry_events sm k) = {#} \<and> closed_fds (entry_events sm k) = {#?tap k#} + {#?cg k#}"
    if "k \<in> set ?ids" for k
  proof -
    have keys: "k \<in> set (um_keys (m_sandboxes sm))" "k \<in> set (um_keys (cgs sm))"
      using that D(6) by (auto simp: iterates_set [OF it])
    then obtain inst info where "map_of (m_sandboxes sm) k = Some inst" and info: "map_of (cgs sm) k = Some info"
      by (auto simp: um.keys_find)
    moreover from this have "tap_fd inst \<ge> 0" using D(5) by (auto simp: inst_ok_def)
    ultimately show ?thesis by (simp add: entry_events_def cgroup_events_fds [OF D(2) info])
  qed
  show "opened_fds (concat (map (entry_events sm) ?ids)) = {#}"
    using entries_fds(1) [of ?ids sm ?tap ?cg] each by blast
  have "mset (um_keys (m_sandboxes sm)) = mset (um_keys (cgs sm))"
    using D(6) um.wf_distinct [OF D(3)] um.wf_distinct [OF D(4)] set_eq_iff_mset_eq_distinct by blast
  then have "image_mset ?cg (mset ?ids) = cg_fds (m_cgroup_manager sm)"
    using mset_map_keys [OF D(4), of "\<lambda>(k, info). cgroup_fd info"] ids by (simp add: cg_fds_def cgs_def)
  moreover have "image_mset ?tap (mset ?ids) = tap_fds sm"
    using mset_map_keys [OF D(3), of "\<lambda>(k, inst). tap_fd inst"] ids by (simp add: tap_fds_def)
  ultimately show "closed_fds (concat (map (entry_events sm) ?ids)) = tap_fds sm + cg_fds (m_cgroup_manager sm)"
    using entries_fds(2) [of ?ids sm ?tap ?cg] each by simp
qed

lemma terminate_all_inv:
  assumes inv: "sm_inv root base (sm, t)" and it: "iterates E"
  shows "wp (terminate_all E) (\<lambda>r s. r = Ret () \<and> sm_inv root base s \<and> m_sandboxes (fst s) = [] \<and>
    cgs (fst s) = []) (sm, t)"
proof -
  have ok: "sm_ok root base sm" using inv by (simp add: sm_inv_def)
  note D = sm_okD [OF ok]
  let ?ids = "e_iter_strings E t (um_keys (m_sandboxes sm))"
  let ?sm = "(fold drop_cgroup ?ids sm)\<lparr>m_sandboxes := []\<rparr>"
  have "fst e \<in> set ?ids" if "e \<in> set (cgs sm)" for e
    using that D(6) by (auto simp: iterates_set [OF it] um_keys_def)
  then have none: "cgs ?sm = []" by (simp add: cgs_fold_drop)
  have "sm_ok root base ?sm"
    using D none by (simp add: sm_ok_def parts_ok_fold um.wf_empty um_keys_def)
  moreover have "cg_fds (m_cgroup_manager ?sm) = {#}" using none by (simp add: cg_fds_def cgs_def)
  ultimately show ?thesis
    using inv none terminate_all_run [OF D(1,2,3) it, of t] terminate_all_fds [OF ok it, of t]
    by (simp add: wp_def sm_inv_def)
qed

section \<open>Execution\<close>

text \<open>The reply of the guest, as \<open>execute_code\<close> reads it: \<open>None\<close> when nothing came back.\<close>

definition exec_result :: "string \<Rightarrow> string option \<Rightarrow> int \<Rightarrow> int \<Rightarrow> ExecutionResult" where
  "exec_result k reply time boot = new_ExecutionResult\<lparr>er_sandbox_id := k,
     exit_code := (if reply = None then -1 else 0),
     stdout_output := (case reply of None \<Rightarrow> [] | Some buf \<Rightarrow> c_str buf),
     execution_time := time, er_boot_time := boot\<rparr>"

definition exec_refused :: "string \<Rightarrow> ExecutionResult" where
  "exec_refused k = new_ExecutionResult\<lparr>er_sandbox_id := k,
     stderr_output := ''Error: Invalid or inactive sandbox ID.''\<rparr>"

lemma execute_code_rule:
  assumes free: "\<not> sm_mutex sm"
    and refused: "(\<forall>inst. map_of (m_sandboxes sm) k = Some inst \<longrightarrow> \<not> is_active inst) \<Longrightarrow>
      Q (Ret (exec_refused k)) (sm, t)"
    and ran: "\<And>inst u reply time. map_of (m_sandboxes sm) k = Some inst \<Longrightarrow> is_active inst \<Longrightarrow> neutral u \<Longrightarrow>
      (\<forall>buf. reply = Some buf \<longrightarrow> buf \<noteq> [] \<and> length buf \<le> 8191 \<and>
         (\<exists>fd r. {Connect fd (strncpy 107 (guest_vsock_path inst)) r, ReadFd fd (Some buf)} \<subseteq> set u \<and>
            r \<ge> 0 \<and> (\<exists>n. WriteFd fd code n \<in> set u))) \<Longrightarrow>
      Q (Ret (exec_result k reply time (md_boot_time (si_metadata inst)))) (sm, t @ u)"
  shows "wp (execute_code E k code) Q (sm, t)"
proof (cases "\<exists>inst. map_of (m_sandboxes sm) k = Some inst \<and> is_active inst")
  case False
  then show ?thesis
    using refused free
    by (auto simp: execute_code_def wp_guarded wp_bindM wp_self wp_retM Let_def exec_refused_def
        new_ExecutionResult_def split: option.split)
next
  case True
  then obtain inst where inst: "map_of (m_sandboxes sm) k = Some inst" "is_active inst" by auto
  let ?p = "strncpy 107 (guest_vsock_path inst)"
  have none: "Q (Ret (exec_result k None time (md_boot_time (si_metadata inst)))) (sm, t @ u)"
    if "neutral u" for time u
    using ran [OF inst that, of None] by simp
  have some: "Q (Ret (exec_result k (Some buf) time (md_boot_time (si_metadata inst))))
      (sm, t @ [Clock c, Socket fd, Connect fd ?p r, WriteFd fd code n, ReadFd fd (Some buf), Close fd, Clock c'])"
    if "fd \<ge> 0" "r \<ge> 0" "buf \<noteq> []" "length buf \<le> 8191" for time c c' fd r n buf
    by (rule ran [OF inst]) (use that in \<open>auto simp: neutral_def\<close>)
  let ?t1 = "t @ [Clock (e_clock E t)]"
  let ?fd = "e_socket E ?t1"
  let ?t2 = "?t1 @ [Socket ?fd]"
  let ?r = "e_connect E ?t2 ?fd ?p"
  let ?t3 = "?t2 @ [Connect ?fd ?p ?r]"
  let ?t4 = "?t3 @ [WriteFd ?fd code (e_write E ?t3 ?fd code)]"
  have closed: "Q (Ret (exec_result k None time (md_boot_time (si_metadata inst)))) (sm, t @ Clock c # Socket fd # u @ [Clock c'])"
    if "if fd \<ge> 0 then closed_fds u = {#fd#} else closed_fds u = {#}" "opened_fds u = {#}" "forked_pids u = {#}"
      "killed_pids u = {#}" "attached_links u = {#}" "destroyed_links u = {#}" for time c c' fd u
    by (rule none) (use that in \<open>auto simp: neutral_def split: if_splits\<close>)
  consider "\<not> ?fd \<ge> 0" | "?fd \<ge> 0" "\<not> ?r \<ge> 0" | "?fd \<ge> 0" "?r \<ge> 0" by blast
  then show ?thesis
  proof cases
    case 1
    then show ?thesis
      using inst free closed [of ?fd "[]"]
      by (simp add: execute_code_def wp_simps Let_def exec_result_def new_ExecutionResult_def)
  next
    case 2
    then show ?thesis
      using inst free closed [of ?fd "[Connect ?fd ?p ?r, Close ?fd]"]
      by (simp add: execute_code_def wp_simps Let_def exec_result_def new_ExecutionResult_def)
  next
    case 3
    let ?w = "WriteFd ?fd code (e_write E ?t3 ?fd code)"
    let ?d = "map_option (take 8191) (e_read E ?t4 ?fd 8191)"
    show ?thesis
      using inst free 3 closed [of ?fd "[Connect ?fd ?p ?r, ?w, ReadFd ?fd ?d, Close ?fd]"]
        some [of ?fd ?r "the ?d"]
      by (cases "e_read E ?t4 ?fd 8191")
        (auto simp: execute_code_def wp_simps Let_def exec_result_def new_ExecutionResult_def)
  qed
qed

section \<open>Sequences of calls\<close>

datatype SandboxCall =
    CreateSandbox SandboxConfig
  | ExecuteCode string string
  | TerminateSandbox string
  | TerminateAll

primrec sm_call :: "env \<Rightarrow> SandboxCall \<Rightarrow> (SandboxManager, Status) action" where
  "sm_call E (CreateSandbox config) = create_sandbox E config"
| "sm_call E (ExecuteCode k code) = seqM (execute_code E k code) (retM Success)"
| "sm_call E (TerminateSandbox k) = terminate_sandbox E k"
| "sm_call E TerminateAll = seqM (terminate_all E) (retM Success)"

text \<open>A run that ends when a call throws.\<close>

definition until_throw :: "('s, 'a) prog \<Rightarrow> ('s, 'a) prog" where
  "until_throw m = (\<lambda>s. case m s of (Throw e, s') \<Rightarrow> (Gone, s') | (r, s') \<Rightarrow> (r, s'))"

lemma wp_until_throw:
  "wp m (\<lambda>r s'. (\<exists>x. r = Ret x) \<longrightarrow> P s') s \<Longrightarrow>
    wp (until_throw m) (\<lambda>r s'. (\<exists>x. r = Ret x) \<or> (\<exists>e. r = Throw e) \<longrightarrow> P s') s"
  by (auto simp: wp_def until_throw_def split: prod.splits outcome.splits)

definition sm_start :: "env \<Rightarrow> EBPFLoader option \<Rightarrow> PolicyEngine option \<Rightarrow> path \<Rightarrow> SandboxManager \<times> trace" where
  "sm_start E loader engine base = snd (construct_SandboxManager E (init_SandboxManager loader engine base, []))"

definition free_parts :: "EBPFLoader option \<Rightarrow> PolicyEngine option \<Rightarrow> bool" where
  "free_parts loader engine \<longleftrightarrow> (\<forall>l. loader = Some l \<longrightarrow> \<not> el_mutex l) \<and> (\<forall>e. engine = Some e \<longrightarrow> \<not> pe_mutex e)"

abbreviation cgroup_root :: path where
  "cgroup_root \<equiv> ''/sys/fs/cgroup/aegis''"

lemma sm_start_inv:
  assumes "free_parts loader engine"
  shows "sm_inv cgroup_root base (sm_start E loader engine base)"
proof -
  have "wp (construct_SandboxManager E) (\<lambda>r s. sm_inv cgroup_root base s)
      (init_SandboxManager loader engine base, [])"
    using assms
    by (auto intro!: write_sysfs_rule simp: construct_SandboxManager_def construct_CgroupManager_def
        init_SandboxManager_def init_CgroupManager_def wp_seqM wp_bindM wp_on_field wp_self wp_retM
        fs_create_directories_def wp_sys sm_inv_def sm_ok_def parts_ok_def cg_ok_def cg_fds_def tap_fds_def
        cgs_def um.wf_empty um_keys_def fs_event_quiet free_parts_def)
  then show ?thesis by (simp add: sm_start_def wp_def split: prod.splits)
qed

lemma sm_call_inv:
  assumes inv: "sm_inv root base s" and it: "iterates E"
  shows "wp (sm_call E c) (\<lambda>r s'. (\<exists>x. r = Ret x) \<longrightarrow> sm_inv root base s') s"
proof -
  obtain sm t where s: "s = (sm, t)" by (cases s)
  note inv' = inv [unfolded s]
  have free: "\<not> sm_mutex sm" using inv' by (auto simp: sm_inv_def sm_ok_def)
  show ?thesis
  proof (cases c)
    case (CreateSandbox config)
    then show ?thesis using create_sandbox_inv [OF inv'] by (simp add: s)
  next
    case (ExecuteCode k code)
    have "wp (execute_code E k code) (\<lambda>r s. \<exists>x. r = Ret x \<and> sm_inv root base s) (sm, t)"
      by (rule execute_code_rule [OF free]) (use inv' in \<open>auto intro: calm_inv\<close>)
    then show ?thesis using ExecuteCode by (auto simp: s wp_def seqM_def bindM_def retM_def split: prod.splits)
  next
    case (TerminateSandbox k)
    have "wp (terminate_sandbox E k) (\<lambda>r s. (\<exists>x. r = Ret x) \<longrightarrow> sm_inv root base s) (sm, t)"
      using terminate_sandbox_inv [OF inv'] by (rule wp_mono) simp
    then show ?thesis using TerminateSandbox by (simp add: s)
  next
    case TerminateAll
    then show ?thesis using terminate_all_inv [OF inv' it]
      by (auto simp: s wp_def seqM_def bindM_def retM_def split: prod.splits)
  qed
qed

interpretation sm: class_invariant "\<lambda>c. until_throw (sm_call E c)" "sm_start E loader engine base"
  "\<lambda>s. iterates E \<and> free_parts loader engine \<longrightarrow> sm_inv cgroup_root base s" for E loader engine base
proof unfold_locales
  show "iterates E \<and> free_parts loader engine \<longrightarrow> sm_inv cgroup_root base (sm_start E loader engine base)"
    by (simp add: sm_start_inv)
  fix s c assume inv: "iterates E \<and> free_parts loader engine \<longrightarrow> sm_inv cgroup_root base s"
  show "wp (until_throw (sm_call E c)) (\<lambda>r s'. (\<exists>x. r = Ret x) \<or> (\<exists>e. r = Throw e) \<longrightarrow>
      (iterates E \<and> free_parts loader engine \<longrightarrow> sm_inv cgroup_root base s')) s"
    by (rule wp_until_throw)
      (use inv sm_call_inv [of cgroup_root base s E c] in \<open>auto simp: wp_def split: prod.splits\<close>)
qed

end
