(* ===== verification/Sandbox_Properties.thy ===== *)
theory Sandbox_Properties
  imports Sandbox_Manager
begin

text \<open>
  The properties of the sandbox manager: what a creation leaves behind in each way it can end, the
  accounting of descriptors and processes over sequences of calls, termination, execution, and the
  exchange with the Firecracker API. The first section holds concrete runs for the examples.
\<close>

section \<open>Concrete runs\<close>

definition demo_config :: SandboxConfig where
  "demo_config = new_SandboxConfig\<lparr>sc_sandbox_id := ''sbx-1''\<rparr>"

abbreviation demo_manager :: SandboxManager where
  "demo_manager \<equiv> init_SandboxManager None None ''/var/run/aegis''"

lemmas run_defs = guarded_def lock_guard_def bindM_def seqM_def retM_def self_def assign_def sys_def
  on_field_def call_defs

lemma put_204: "contains_str ''HTTP/1.1 2'' (c_str ''HTTP/1.1 204'')"
  by code_simp

lemma init_manager_ok: "parts_ok cgroup_root (init_SandboxManager None None base)"
  by (simp add: parts_ok_def init_SandboxManager_def init_CgroupManager_def cg_ok_def um.wf_empty)

lemma http_request_not_Nil [simp]: "http_request ep payload \<noteq> []"
  by (simp add: http_request_def)

text \<open>
  The environment in which every call succeeds, with other answers to \<open>exists\<close> and \<open>read\<close>.
\<close>

abbreviation genv :: "(trace \<Rightarrow> path \<Rightarrow> fs_status) \<Rightarrow> (trace \<Rightarrow> int \<Rightarrow> nat \<Rightarrow> string option) \<Rightarrow> env" where
  "genv x r \<equiv> good_env\<lparr>e_exists := x, e_read := r\<rparr>"

lemma genv_cgroup:
  "create_cgroup (genv x r) k l = create_cgroup good_env k l"
  "attach_pid (genv x r) k pid = attach_pid good_env k pid"
  by (simp_all add: create_cgroup_def attach_pid_def apply_limits_def write_sysfs_file_def
      fetch_inode_id_def call_defs cong: if_cong option.case_cong)

lemma genv_create_cgroup:
  assumes "parts_ok root sm" and "map_of (cgs sm) (sc_sandbox_id config) = None"
  shows "\<exists>u. on_cgroups (create_cgroup (genv x r) (sc_sandbox_id config) (resource_limits config)) (sm, t) =
    (Ret Success, (with_cgroup config 77 3 sm, t @ u)) \<and> forked_pids u = {#} \<and> killed_pids u = {#} \<and>
    count_list u (Sleep 10) = 0"
proof -
  have "\<not> cm_mutex (m_cgroup_manager sm)" using assms by (auto simp: parts_ok_def cg_ok_def)
  then show ?thesis
    using assms
    by (simp add: on_field_def genv_cgroup good_create_run cgs_def with_cgroup_def Let_def
        limit_writes_def sysfs_write_def)
qed

lemma genv_tap:
  "setup_tap_interface (genv x r) inst (sm, t) = (Ret (Success, with_tap inst 3),
    (sm, t @ [Open ''/dev/net/tun'' 3, TunSetIff 3 (strncpy 15 (''tap_'' @ take 8 (sc_sandbox_id (si_config inst)))) 0]))"
  by (simp add: setup_tap_interface_def run_defs good_env_def with_tap_def Let_def)

lemma wait_never:
  "wait_for_socket (genv (\<lambda>_ _. FsNo) r) p n (sm, t) =
    (Ret ErrMicroVMBootFailed, (sm, t @ concat (replicate n [Exists p FsNo, Sleep 10])))"
  by (induction n arbitrary: t) (simp_all add: run_defs)

lemma spawn_never:
  "spawn_firecracker_process (genv (\<lambda>_ _. FsNo) r) inst (sm, t) =
    (Ret (ErrMicroVMBootFailed, inst\<lparr>firecracker_pid := 4242\<rparr>),
     (sm, t @ [Exists (socket_path inst) FsNo, Fork 4242] @
       concat (replicate 50 [Exists (socket_path inst) FsNo, Sleep 10])))"
  by (simp add: spawn_firecracker_process_def bindM_def seqM_def retM_def fs_exists_def sys_def wait_never)
     (simp add: good_env_def wait_never)

lemma spawn_good:
  "spawn_firecracker_process (genv (\<lambda>_ _. FsYes) r) inst (sm, t) =
    (Ret (Success, inst\<lparr>firecracker_pid := 4242\<rparr>),
     (sm, t @ [Exists (socket_path inst) FsYes, RemoveFile (socket_path inst) True, Fork 4242,
       Exists (socket_path inst) FsYes]))"
proof -
  have "wait_for_socket (genv (\<lambda>_ _. FsYes) r) p 50 (sm, t) = (Ret Success, (sm, t @ [Exists p FsYes]))" for p t
    using wait_for_socket.simps(2) [of "genv (\<lambda>_ _. FsYes) r" p 49]
    by (simp add: run_defs numeral_eq_Suc)
  then show ?thesis
    by (simp add: spawn_firecracker_process_def bindM_def seqM_def retM_def fs_exists_def fs_remove_def sys_def)
       (simp add: good_env_def)
qed

lemma genv_create:
  assumes "\<not> sm_mutex sm" and ok: "parts_ok root sm" and "sc_sandbox_id config \<noteq> []"
    and "map_of (m_sandboxes sm) (sc_sandbox_id config) = None" and new: "map_of (cgs sm) (sc_sandbox_id config) = None"
  obtains u c0 c1 where
    "create_sandbox (genv x r) config (sm, t) =
      (case boot_sandbox (genv x r) config (path_append (m_base_runtime_dir sm) (sc_sandbox_id config))
          (init_instance config (path_append (m_base_runtime_dir sm) (sc_sandbox_id config)) c1) c0
          (with_cgroup config 77 3 (sm\<lparr>sm_mutex := True\<rparr>), t @ u) of
         (Ret y, (ob, t')) \<Rightarrow> (Ret y, (ob\<lparr>sm_mutex := False\<rparr>, t'))
       | (Throw e, (ob, t')) \<Rightarrow> (Throw e, (ob\<lparr>sm_mutex := False\<rparr>, t'))
       | (Deadlock, s) \<Rightarrow> (Deadlock, s) | (Gone, s) \<Rightarrow> (Gone, s))"
    and "forked_pids u = {#}" and "killed_pids u = {#}" and "count_list u (Sleep 10) = 0"
proof -
  let ?sm = "sm\<lparr>sm_mutex := True\<rparr>" and ?dir = "path_append (m_base_runtime_dir sm) (sc_sandbox_id config)"
  let ?c0 = "e_clock good_env t"
  let ?t1 = "t @ [Clock ?c0, CreateDirectories ?dir True]"
  let ?c1 = "e_clock good_env ?t1"
  obtain u where u: "on_cgroups (create_cgroup (genv x r) (sc_sandbox_id config) (resource_limits config))
      (?sm, ?t1 @ [Clock ?c1]) = (Ret Success, (with_cgroup config 77 3 ?sm, (?t1 @ [Clock ?c1]) @ u))"
    "forked_pids u = {#}" "killed_pids u = {#}" "count_list u (Sleep 10) = 0"
    using genv_create_cgroup [of root ?sm config r x "?t1 @ [Clock ?c1]"] ok new by (auto simp: cgs_def)
  have dirs: "e_create_directories good_env t' p" for t' p by (simp add: good_env_def)
  show thesis
    by (rule that [of ?c1 ?c0 "[Clock ?c0, CreateDirectories ?dir True, Clock ?c1] @ u"])
      (use assms u dirs in \<open>simp_all add: create_sandbox_def guarded_def lock_guard_def bindM_def seqM_def retM_def
        self_def now_def sys_def fs_create_directories_def split: prod.split outcome.split\<close>)
qed

lemma boot_never_run:
  assumes "parts_ok root sm" and "map_of (cgs sm) (sc_sandbox_id config) = None"
  shows "\<exists>u. boot_sandbox (genv (\<lambda>_ _. FsNo) r) config dir (init_instance config dir c1) c0
      (with_cgroup config 77 3 sm, t) = (Ret ErrMicroVMBootFailed, (sm, t @ u)) \<and>
    forked_pids u = {#4242#} \<and> killed_pids u = {#} \<and> count_list u (Sleep 10) = 50"
proof -
  have free: "\<not> cm_mutex (m_cgroup_manager sm)" using assms by (auto simp: parts_ok_def cg_ok_def)
  have destroy: "on_cgroups (destroy_cgroup (sc_sandbox_id config)) (with_cgroup config 77 3 sm, t') =
      (Ret Success, (sm, t' @ [Close 3, RemoveAll (path_append (m_root_path (m_cgroup_manager sm)) (sc_sandbox_id config))]))" for t'
    using destroy_new_cgroup [OF free, of config 3 "\<lambda>r s. (r, s) = (Ret Success, (sm, t' @ [Close 3,
      RemoveAll (path_append (m_root_path (m_cgroup_manager sm)) (sc_sandbox_id config))]))" 77 t'] assms(2)
    by (simp add: wp_def cgs_def split: prod.splits)
  have loop: "forked_pids (concat (replicate n [Exists p FsNo, Sleep 10])) = {#}"
    "killed_pids (concat (replicate n [Exists p FsNo, Sleep 10])) = {#}"
    "count_list (concat (replicate n [Exists p FsNo, Sleep 10])) (Sleep 10) = n" for n p
    by (induction n) simp_all
  show ?thesis
    by (simp add: boot_sandbox_def bindM_def [of "setup_tap_interface E i" for E i] genv_tap
        bindM_def [of "spawn_firecracker_process E i" for E i] spawn_never seqM_def bindM_def
        destroy with_tap_def call_defs sys_def retM_def loop)
qed

lemma finish_refused_run:
  assumes locked: "sm_mutex sm" and ok: "parts_ok root sm"
  shows "\<exists>u. finish_create (genv (\<lambda>_ _. FsYes) (\<lambda>_ _ _. None)) config inst c0 (sm, t) = (Deadlock, (sm, t @ u)) \<and>
    forked_pids u = {#} \<and> killed_pids u = {#}"
proof -
  let ?E = "genv (\<lambda>_ _. FsYes) (\<lambda>_ _ _. None)"
  have put: "\<exists>u. send_unix_http_put ?E p ep pl (sm, t') = (Ret False, (sm, t' @ u)) \<and> forked_pids u = {#} \<and> killed_pids u = {#}"
    for p ep pl t'
    by (simp add: send_unix_http_put_def run_defs good_env_def)
  have free: "\<not> cm_mutex (m_cgroup_manager sm)" using ok by (auto simp: parts_ok_def cg_ok_def)
  have "wp (attach_pid ?E k pid) (\<lambda>r s. \<exists>st u. r = Ret st \<and> s = (m_cgroup_manager sm, t' @ u) \<and> neutral u)
      (m_cgroup_manager sm, t')" for k pid t'
    by (rule attach_pid_rule [OF free]) auto
  then have attach: "\<exists>st u. on_cgroups (attach_pid ?E k pid) (sm, t') = (Ret st, (sm, t' @ u)) \<and> neutral u" for k pid t'
    by (fastforce simp: wp_def on_field_def split: prod.splits)
  obtain st u where a: "on_cgroups (attach_pid ?E (sc_sandbox_id config) (firecracker_pid inst)) (sm, t) =
      (Ret st, (sm, t @ u))" "neutral u" using attach by blast
  let ?x = "if use_snapshot_restore config then [Exists (snapshot_dir_path config) FsYes] else []"
  have snap: "(if use_snapshot_restore config then fs_exists ?E (snapshot_dir_path config) else retM False) (sm, t @ u) =
      (Ret (use_snapshot_restore config), (sm, t @ u @ ?x))"
    by (simp add: fs_exists_def run_defs)
  have api: "\<exists>st v. (if b then restore_firecracker_snapshot ?E inst else configure_firecracker_api ?E inst) (sm, t') =
      (Ret st, (sm, t' @ v)) \<and> st \<noteq> Success \<and> forked_pids v = {#} \<and> killed_pids v = {#}" for b t'
    using put [of "socket_path inst" "''/snapshot/load''" "snapshot_payload (si_config inst)" t']
      put [of "socket_path inst" "''/boot-source''" "boot_payload (si_config inst)" t']
    by (auto simp: restore_firecracker_snapshot_def configure_firecracker_api_def bindM_def retM_def)
  obtain st' v where "(if use_snapshot_restore config then restore_firecracker_snapshot ?E inst
      else configure_firecracker_api ?E inst) (sm, t @ u @ ?x) = (Ret st', (sm, (t @ u @ ?x) @ v))"
    "st' \<noteq> Success" "forked_pids v = {#}" "killed_pids v = {#}" using api by blast
  then show ?thesis
    using a snap
    by (simp add: finish_create_def seqM_def bindM_def terminate_while_locked [OF locked] neutral_def)
qed

lemma genv_good: "genv (\<lambda>_ _. FsYes) (\<lambda>_ _ _. Some ''HTTP/1.1 204'') = good_env"
  by (simp add: good_env_def)

lemma finish_good_run:
  assumes known: "map_of (cgs sm) (sc_sandbox_id (si_config inst)) \<noteq> None" and ok: "parts_ok root sm"
  shows "\<exists>u boot. finish_create good_env config inst c0 (sm, t) = (Ret Success,
    (sm\<lparr>m_sandboxes := AList.update (sc_sandbox_id config) (running inst boot) (m_sandboxes sm)\<rparr>, t @ u))"
proof -
  have put: "\<exists>u. send_unix_http_put good_env p ep pl (sm, t') = (Ret True, (sm, t' @ u))" for p ep pl t'
    using put_204 by (simp add: send_unix_http_put_def run_defs good_env_def)
  have free: "\<not> cm_mutex (m_cgroup_manager sm)" using ok by (auto simp: parts_ok_def cg_ok_def)
  have "wp (attach_pid good_env k pid) (\<lambda>r s. \<exists>st u. r = Ret st \<and> s = (m_cgroup_manager sm, t' @ u))
      (m_cgroup_manager sm, t')" for k pid t'
    by (rule attach_pid_rule [OF free]) auto
  then have attach: "\<exists>st u. on_cgroups (attach_pid good_env k pid) (sm, t') = (Ret st, (sm, t' @ u))" for k pid t'
    by (fastforce simp: wp_def on_field_def split: prod.splits)
  obtain st u where a: "on_cgroups (attach_pid good_env (sc_sandbox_id config) (firecracker_pid inst)) (sm, t) =
      (Ret st, (sm, t @ u))" using attach by blast
  let ?x = "if use_snapshot_restore config then [Exists (snapshot_dir_path config) FsYes] else []"
  have snap: "(if use_snapshot_restore config then fs_exists good_env (snapshot_dir_path config) else retM False) (sm, t @ u) =
      (Ret (use_snapshot_restore config), (sm, t @ u @ ?x))"
    by (simp add: fs_exists_def run_defs) (simp add: good_env_def retM_def)
  have conf: "\<exists>v. configure_firecracker_api good_env inst (sm, t') = (Ret Success, (sm, t' @ v))" for t'
  proof -
    let ?put = "send_unix_http_put good_env (socket_path inst)"
    obtain u1 where u1: "?put ''/boot-source'' (boot_payload (si_config inst)) (sm, t') = (Ret True, (sm, t' @ u1))"
      using put by blast
    obtain u2 where u2: "?put ''/drives/rootfs'' (drive_payload (si_config inst)) (sm, t' @ u1) =
        (Ret True, (sm, (t' @ u1) @ u2))" using put by blast
    obtain u3 where u3: "?put ''/machine-config'' (machine_payload (si_config inst)) (sm, (t' @ u1) @ u2) =
        (Ret True, (sm, ((t' @ u1) @ u2) @ u3))" using put by blast
    obtain u4 where "?put ''/actions'' action_payload (sm, ((t' @ u1) @ u2) @ u3) =
        (Ret True, (sm, (((t' @ u1) @ u2) @ u3) @ u4))" using put by blast
    with u1 u2 u3 show ?thesis by (simp add: configure_firecracker_api_def bindM_def retM_def)
  qed
  have api: "\<exists>v. (if b then restore_firecracker_snapshot good_env inst else configure_firecracker_api good_env inst) (sm, t') =
      (Ret Success, (sm, t' @ v))" for b t'
    using put [of "socket_path inst" "''/snapshot/load''" "snapshot_payload (si_config inst)" t'] conf [of t']
    by (auto simp: restore_firecracker_snapshot_def bindM_def retM_def)
  obtain v where v: "(if use_snapshot_restore config then restore_firecracker_snapshot good_env inst
      else configure_firecracker_api good_env inst) (sm, t @ u @ ?x) = (Ret Success, (sm, (t @ u @ ?x) @ v))"
    using api by blast
  have "wp (apply_ebpf_policies good_env inst) (\<lambda>r s. \<exists>u. (r, s) = (Ret Success, (sm, t' @ u))) (sm, t')" for t'
    by (rule apply_ebpf_rule [OF ok]) (use known in \<open>auto simp: cgs_def\<close>)
  then have "\<exists>u. apply_ebpf_policies good_env inst (sm, t') = (Ret Success, (sm, t' @ u))" for t'
    by (simp add: wp_def case_prod_beta prod_eq_iff)
  then obtain w where "apply_ebpf_policies good_env inst (sm, (t @ u @ ?x) @ v) = (Ret Success, (sm, ((t @ u @ ?x) @ v) @ w))"
    by blast
  then show ?thesis
    using a snap v
    by (simp add: finish_create_def seqM_def bindM_def now_def sys_def assign_def retM_def running_def)
       blast
qed

lemma good_sandbox_run:
  assumes "\<not> sm_mutex sm" and ok: "parts_ok root sm" and "sc_sandbox_id config \<noteq> []"
    and "map_of (m_sandboxes sm) (sc_sandbox_id config) = None" and "map_of (cgs sm) (sc_sandbox_id config) = None"
  shows "\<exists>sm' t'. create_sandbox good_env config (sm, t) = (Ret Success, (sm', t'))"
proof -
  let ?x = "\<lambda>_ _. FsYes" and ?r = "\<lambda>_ _ _. Some ''HTTP/1.1 204''"
  let ?dir = "path_append (m_base_runtime_dir sm) (sc_sandbox_id config)"
  obtain u c0 c1 where run: "create_sandbox (genv ?x ?r) config (sm, t) =
      (case boot_sandbox (genv ?x ?r) config ?dir (init_instance config ?dir c1) c0
          (with_cgroup config 77 3 (sm\<lparr>sm_mutex := True\<rparr>), t @ u) of
         (Ret y, (ob, t')) \<Rightarrow> (Ret y, (ob\<lparr>sm_mutex := False\<rparr>, t'))
       | (Throw e, (ob, t')) \<Rightarrow> (Throw e, (ob\<lparr>sm_mutex := False\<rparr>, t'))
       | (Deadlock, s) \<Rightarrow> (Deadlock, s) | (Gone, s) \<Rightarrow> (Gone, s))"
    by (rule genv_create [OF assms(1-5)])
  let ?sm = "with_cgroup config 77 3 (sm\<lparr>sm_mutex := True\<rparr>)" and ?i = "init_instance config ?dir c1"
  have ok': "parts_ok root ?sm"
    using ok parts_ok_with_cgroup [of root "sm\<lparr>sm_mutex := True\<rparr>" 77 3 config] by simp
  have known: "map_of (cgs ?sm) (sc_sandbox_id (si_config ((with_tap ?i 3)\<lparr>firecracker_pid := 4242\<rparr>))) \<noteq> None"
    by (simp add: with_tap_def init_instance_def update_conv')
  obtain v where tap: "setup_tap_interface (genv ?x ?r) ?i (?sm, t @ u) = (Ret (Success, with_tap ?i 3), (?sm, (t @ u) @ v))"
    using genv_tap by blast
  obtain w where spawn: "spawn_firecracker_process (genv ?x ?r) (with_tap ?i 3) (?sm, (t @ u) @ v) =
      (Ret (Success, (with_tap ?i 3)\<lparr>firecracker_pid := 4242\<rparr>), (?sm, ((t @ u) @ v) @ w))"
    using spawn_good by blast
  obtain z boot where fin: "finish_create good_env config ((with_tap ?i 3)\<lparr>firecracker_pid := 4242\<rparr>) c0
      (?sm, ((t @ u) @ v) @ w) = (Ret Success,
        (?sm\<lparr>m_sandboxes := AList.update (sc_sandbox_id config) (running ((with_tap ?i 3)\<lparr>firecracker_pid := 4242\<rparr>) boot)
          (m_sandboxes ?sm)\<rparr>, (((t @ u) @ v) @ w) @ z))"
    using finish_good_run [OF known ok'] by blast
  show ?thesis
    using run tap spawn fin unfolding genv_good by (simp add: boot_sandbox_def bindM_def)
qed

text \<open>A sandbox that can be created: the manager is free and the name is not in use.\<close>

definition new_sandbox :: "path \<Rightarrow> SandboxManager \<Rightarrow> SandboxConfig \<Rightarrow> bool" where
  "new_sandbox root sm config \<longleftrightarrow> \<not> sm_mutex sm \<and> parts_ok root sm \<and> sc_sandbox_id config \<noteq> [] \<and>
     map_of (m_sandboxes sm) (sc_sandbox_id config) = None \<and> map_of (cgs sm) (sc_sandbox_id config) = None"

lemma demo_new: "new_sandbox cgroup_root demo_manager demo_config"
  using init_manager_ok
  by (simp add: new_sandbox_def init_SandboxManager_def demo_config_def cgs_def init_CgroupManager_def)

text \<open>The polls of the wait for the API socket.\<close>

definition waits :: "path \<Rightarrow> nat \<Rightarrow> trace" where
  "waits p i = concat (replicate i [Exists p FsNo, Sleep 10])"

lemma boot_timeout_run:
  assumes "new_sandbox root sm config"
  shows "\<exists>u. create_sandbox (genv (\<lambda>_ _. FsNo) r) config (sm, t) = (Ret ErrMicroVMBootFailed, (sm, t @ u)) \<and>
    count_list u (Sleep 10) = 50 \<and> forked_pids u = {#4242#} \<and> killed_pids u = {#}"
proof -
  let ?x = "\<lambda>_ _. FsNo" and ?dir = "path_append (m_base_runtime_dir sm) (sc_sandbox_id config)"
  have new: "\<not> sm_mutex sm" "parts_ok root sm" "sc_sandbox_id config \<noteq> []"
    "map_of (m_sandboxes sm) (sc_sandbox_id config) = None" "map_of (cgs sm) (sc_sandbox_id config) = None"
    using assms by (simp_all add: new_sandbox_def)
  obtain u c0 c1 where run: "create_sandbox (genv ?x r) config (sm, t) =
      (case boot_sandbox (genv ?x r) config ?dir (init_instance config ?dir c1) c0
          (with_cgroup config 77 3 (sm\<lparr>sm_mutex := True\<rparr>), t @ u) of
         (Ret y, (ob, t')) \<Rightarrow> (Ret y, (ob\<lparr>sm_mutex := False\<rparr>, t'))
       | (Throw e, (ob, t')) \<Rightarrow> (Throw e, (ob\<lparr>sm_mutex := False\<rparr>, t'))
       | (Deadlock, s) \<Rightarrow> (Deadlock, s) | (Gone, s) \<Rightarrow> (Gone, s))"
    and u: "forked_pids u = {#}" "killed_pids u = {#}" "count_list u (Sleep 10) = 0"
    by (rule genv_create [OF new])
  have "parts_ok root (sm\<lparr>sm_mutex := True\<rparr>)" "map_of (cgs (sm\<lparr>sm_mutex := True\<rparr>)) (sc_sandbox_id config) = None"
    using new by (simp_all add: cgs_def)
  then obtain v where "boot_sandbox (genv ?x r) config ?dir (init_instance config ?dir c1) c0
      (with_cgroup config 77 3 (sm\<lparr>sm_mutex := True\<rparr>), t @ u) =
      (Ret ErrMicroVMBootFailed, (sm\<lparr>sm_mutex := True\<rparr>, (t @ u) @ v))"
    "forked_pids v = {#4242#}" "killed_pids v = {#}" "count_list v (Sleep 10) = 50"
    using boot_never_run by blast
  then show ?thesis using run u new(1) by simp
qed

lemma refused_run:
  assumes "new_sandbox root sm config"
  shows "\<exists>sm' u. create_sandbox (genv (\<lambda>_ _. FsYes) (\<lambda>_ _ _. None)) config (sm, t) = (Deadlock, (sm', t @ u)) \<and>
    sm_mutex sm' \<and> forked_pids u = {#4242#} \<and> killed_pids u = {#}"
proof -
  let ?x = "\<lambda>_ _. FsYes" and ?r = "\<lambda>_ _ _. None"
  let ?dir = "path_append (m_base_runtime_dir sm) (sc_sandbox_id config)"
  have new: "\<not> sm_mutex sm" "parts_ok root sm" "sc_sandbox_id config \<noteq> []"
    "map_of (m_sandboxes sm) (sc_sandbox_id config) = None" "map_of (cgs sm) (sc_sandbox_id config) = None"
    using assms by (simp_all add: new_sandbox_def)
  obtain u c0 c1 where run: "create_sandbox (genv ?x ?r) config (sm, t) =
      (case boot_sandbox (genv ?x ?r) config ?dir (init_instance config ?dir c1) c0
          (with_cgroup config 77 3 (sm\<lparr>sm_mutex := True\<rparr>), t @ u) of
         (Ret y, (ob, t')) \<Rightarrow> (Ret y, (ob\<lparr>sm_mutex := False\<rparr>, t'))
       | (Throw e, (ob, t')) \<Rightarrow> (Throw e, (ob\<lparr>sm_mutex := False\<rparr>, t'))
       | (Deadlock, s) \<Rightarrow> (Deadlock, s) | (Gone, s) \<Rightarrow> (Gone, s))"
    and u: "forked_pids u = {#}" "killed_pids u = {#}"
    by (rule genv_create [OF new])
  let ?sm = "with_cgroup config 77 3 (sm\<lparr>sm_mutex := True\<rparr>)"
  let ?i = "with_tap (init_instance config ?dir c1) 3\<lparr>firecracker_pid := 4242\<rparr>"
  have ok: "parts_ok root ?sm" and locked: "sm_mutex ?sm"
    using new(2) parts_ok_with_cgroup [of root "sm\<lparr>sm_mutex := True\<rparr>" 77 3 config] by (simp_all add: with_cgroup_def Let_def)
  obtain v where tap: "setup_tap_interface (genv ?x ?r) (init_instance config ?dir c1) (?sm, t @ u) =
      (Ret (Success, with_tap (init_instance config ?dir c1) 3), (?sm, (t @ u) @ v))"
    and v: "forked_pids v = {#}" "killed_pids v = {#}"
    using genv_tap by fastforce
  obtain w where spawn: "spawn_firecracker_process (genv ?x ?r) (with_tap (init_instance config ?dir c1) 3) (?sm, (t @ u) @ v) =
      (Ret (Success, ?i), (?sm, ((t @ u) @ v) @ w))" and w: "forked_pids w = {#4242#}" "killed_pids w = {#}"
    using spawn_good by fastforce
  obtain z where "finish_create (genv ?x ?r) config ?i c0 (?sm, ((t @ u) @ v) @ w) =
      (Deadlock, (?sm, (((t @ u) @ v) @ w) @ z))" "forked_pids z = {#}" "killed_pids z = {#}"
    using finish_refused_run [OF locked ok] by blast
  then show ?thesis
    using run u v w locked tap spawn by (simp add: boot_sandbox_def bindM_def)
qed

lemma locked_calls:
  assumes "sm_mutex sm"
  shows "create_sandbox E config (sm, t) = (Deadlock, (sm, t))" and "execute_code E k code (sm, t) = (Deadlock, (sm, t))"
    and "terminate_sandbox E k (sm, t) = (Deadlock, (sm, t))" and "terminate_all E (sm, t) = (Deadlock, (sm, t))"
  using assms
  by (simp_all add: create_sandbox_def execute_code_def terminate_sandbox_def terminate_all_def sm.guarded_again)

lemma demo_run: "\<exists>sm' t'. create_sandbox good_env demo_config (demo_manager, []) = (Ret Success, (sm', t'))"
  by (rule good_sandbox_run [OF _ init_manager_ok])
    (simp_all add: init_SandboxManager_def demo_config_def new_SandboxConfig_def cgs_def init_CgroupManager_def)

section \<open>Creation\<close>

lemma made_instance_facts:
  "si_config (made_instance config dir created tfd pid boot) = config"
  "is_active (made_instance config dir created tfd pid boot)"
  "md_state (si_metadata (made_instance config dir created tfd pid boot)) = Running"
  "md_sandbox_id (si_metadata (made_instance config dir created tfd pid boot)) = sc_sandbox_id config"
  "md_memory_mb (si_metadata (made_instance config dir created tfd pid boot)) = memory_mb (resource_limits config)"
  by (simp_all add: made_instance_def running_def with_tap_def init_instance_def)

lemma create_sandbox_made:
  assumes "\<not> sm_mutex sm" and "parts_ok root sm"
    and "create_sandbox E config (sm, t) = (Ret Success, (sm', t'))"
  obtains u ino cfd tfd pid boot created where
    "map_of (m_sandboxes sm) (sc_sandbox_id config) = None" "ino \<noteq> 0" "tfd \<ge> 0" "pid > 0"
    "booted cfd tfd u" "forked_pids u = {#pid#}" "t' = t @ u"
    "sm' = (with_cgroup config ino cfd sm)\<lparr>m_sandboxes := AList.update (sc_sandbox_id config)
      (made_instance config (path_append (m_base_runtime_dir sm) (sc_sandbox_id config)) created tfd pid boot)
      (m_sandboxes sm)\<rparr>"
proof -
  have "wp (create_sandbox E config) (\<lambda>r (sm', t'). r = Ret Success \<longrightarrow> (\<exists>u ino cfd tfd pid boot created.
      sm' = (with_cgroup config ino cfd sm)\<lparr>m_sandboxes := AList.update (sc_sandbox_id config)
        (made_instance config (path_append (m_base_runtime_dir sm) (sc_sandbox_id config)) created tfd pid boot)
        (m_sandboxes sm)\<rparr> \<and> t' = t @ u \<and>
      map_of (m_sandboxes sm) (sc_sandbox_id config) = None \<and> ino \<noteq> 0 \<and> tfd \<ge> 0 \<and> pid > 0 \<and>
      booted cfd tfd u \<and> forked_pids u = {#pid#})) (sm, t)"
    apply (rule create_sandbox_rule [OF assms(1,2)])
         apply (auto simp: create_error_def) [5]
    apply (unfold prod.case, intro impI exI conjI; (rule refl | assumption))
    done
  then show ?thesis using assms(3) that by (simp add: wp_def) blast
qed



text \<open>
  C4: A creation that returns an error gives everything back except the process: the manager with
  all its members is exactly what it was, every descriptor opened on the way is closed again and,
  unless the name was refused at once, the directory of the sandbox is removed last. But no process
  is killed, also when one was forked. The errors of the API and of the policy step are not among
  the errors that are returned.
\<close>

theorem create_sandbox_rollback:
  assumes "\<not> sm_mutex sm" and "parts_ok root sm"
    and "create_sandbox E config (sm, t) = (Ret st, (sm', t'))" and "st \<noteq> Success"
  shows "sm' = sm \<and> st \<noteq> ErrSnapshotRestoreFailed \<and> st \<noteq> ErrEBPFProbeLoadFailed \<and>
    (\<exists>u. t' = t @ u \<and> opened_fds u = closed_fds u \<and> killed_pids u = {#} \<and> size (forked_pids u) \<le> 1 \<and>
      (u = [] \<or> last u = RemoveAll (path_append (m_base_runtime_dir sm) (sc_sandbox_id config))))"
  (is "?P sm' t' st")
proof -
  have "wp (create_sandbox E config) (\<lambda>r (sm', t'). \<forall>st. r = Ret st \<and> st \<noteq> Success \<longrightarrow> ?P sm' t' st) (sm, t)"
    by (rule create_sandbox_rule [OF assms(1,2)]) (auto simp: create_error_def calm_def)
  then show ?thesis using assms(3,4) by (simp add: wp_def)
qed

theorem create_sandbox_rollback_witness:
  "\<exists>u. create_sandbox (genv (\<lambda>_ _. FsNo) (\<lambda>_ _ _. None)) demo_config (demo_manager, []) =
      (Ret ErrMicroVMBootFailed, (demo_manager, u)) \<and> opened_fds u = closed_fds u \<and>
    last u = RemoveAll ''/var/run/aegis/sbx-1''"
proof -
  have free: "\<not> sm_mutex demo_manager" by (simp add: init_SandboxManager_def)
  obtain u where run: "create_sandbox (genv (\<lambda>_ _. FsNo) (\<lambda>_ _ _. None)) demo_config (demo_manager, []) =
      (Ret ErrMicroVMBootFailed, (demo_manager, [] @ u))" and forked: "forked_pids u = {#4242#}"
    using boot_timeout_run [OF demo_new, of "\<lambda>_ _ _. None" "[]"] by blast
  have "path_append (m_base_runtime_dir demo_manager) (sc_sandbox_id demo_config) = ''/var/run/aegis/sbx-1''"
    by (simp add: init_SandboxManager_def demo_config_def path_append_def has_filename_def is_absolute_def)
  then show ?thesis
    using create_sandbox_rollback [OF free init_manager_ok run] run forked by auto
qed

text \<open>
  C22: The wait for the API socket always ends. It polls at most as often as it may, with 10 ms
  between two polls: it succeeds at the first poll that finds the socket, it fails when no poll has
  found it, and it throws at the first poll the file system answers with an error.
\<close>

theorem wait_for_socket_bounded:
  "(\<exists>i<n. wait_for_socket E p n (sm, t) = (Ret Success, (sm, t @ waits p i @ [Exists p FsYes]))) \<or>
   (\<exists>i<n. wait_for_socket E p n (sm, t) = (Throw FilesystemError, (sm, t @ waits p i @ [Exists p FsErr]))) \<or>
   wait_for_socket E p n (sm, t) = (Ret ErrMicroVMBootFailed, (sm, t @ waits p n))"
proof (induction n arbitrary: t)
  case (Suc n)
  show ?case
  proof (cases "e_exists E t p")
    case FsNo
    have step: "wait_for_socket E p (Suc n) (sm, t) = wait_for_socket E p n (sm, t @ [Exists p FsNo, Sleep 10])"
      using FsNo by (simp add: run_defs)
    from Suc.IH [of "t @ [Exists p FsNo, Sleep 10]"] show ?thesis
      unfolding step
      by (elim disjE exE conjE) (auto simp: waits_def intro: exI [of _ "Suc i" for i])
  qed (auto simp: run_defs throwM_def waits_def intro!: exI [of _ "0 :: nat"])
qed (simp add: retM_def waits_def)





section \<open>Sequences of calls\<close>

lemma sm_start_eq:
  "\<exists>t0. sm_start E loader engine base = (init_SandboxManager loader engine base, t0) \<and> list_all fs_event t0"
proof -
  have "wp (construct_SandboxManager E) (\<lambda>r s. \<exists>t0. s = (init_SandboxManager loader engine base, t0) \<and> list_all fs_event t0)
      (init_SandboxManager loader engine base, [])"
    by (auto intro!: write_sysfs_rule simp: construct_SandboxManager_def construct_CgroupManager_def
        init_SandboxManager_def init_CgroupManager_def wp_seqM wp_bindM wp_on_field wp_self wp_retM
        fs_create_directories_def wp_sys sysfs_write_def fs_event_def)
  then show ?thesis by (simp add: sm_start_def wp_def split: prod.splits)
qed

text \<open>
  C5: Over every sequence of creations, executions and terminations that all return, the manager
  accounts for every descriptor: those opened are those closed together with those held by the
  cgroups and the network interfaces of its sandboxes. Every registered sandbox runs under its own
  name with a process and has a cgroup, and there are no other cgroups.
\<close>

theorem sandbox_resources_balance:
  assumes "iterates E" and "free_parts loader engine"
    and "reachable (\<lambda>c. until_throw (sm_call E c)) (sm_start E loader engine base) (sm, t)"
  shows "opened_fds t = closed_fds t + cg_fds (m_cgroup_manager sm) + tap_fds sm \<and>
    set (um_keys (m_sandboxes sm)) = set (um_keys (cgs sm)) \<and> \<not> sm_mutex sm \<and>
    (\<forall>k inst. map_of (m_sandboxes sm) k = Some inst \<longrightarrow>
       sc_sandbox_id (si_config inst) = k \<and> firecracker_pid inst > 0 \<and> tap_fd inst \<ge> 0 \<and>
       is_active inst \<and> md_state (si_metadata inst) = Running)"
  using sm.reachable_inv [OF assms(3)] assms(1,2) by (auto simp: sm_inv_def sm_ok_def inst_ok_def)

lemma demo_reachable:
  obtains sm t where "reachable (\<lambda>c. until_throw (sm_call good_env c)) (sm_start good_env None None ''/var/run/aegis'') (sm, t)"
    and "\<exists>inst. map_of (m_sandboxes sm) ''sbx-1'' = Some inst"
proof -
  obtain t0 where start: "sm_start good_env None None ''/var/run/aegis'' = (demo_manager, t0)"
    using sm_start_eq by blast
  have free: "\<not> sm_mutex demo_manager" by (simp add: init_SandboxManager_def)
  obtain sm t where run: "create_sandbox good_env demo_config (demo_manager, t0) = (Ret Success, (sm, t))"
    using good_sandbox_run [OF free init_manager_ok, of demo_config t0] demo_new
    by (auto simp: new_sandbox_def init_SandboxManager_def)
  have "until_throw (sm_call good_env (CreateSandbox demo_config)) (demo_manager, t0) = (Ret Success, (sm, t))"
    by (simp add: until_throw_def run)
  then have "reachable (\<lambda>c. until_throw (sm_call good_env c)) (sm_start good_env None None ''/var/run/aegis'') (sm, t)"
    using reachable.returns [OF reachable.start] unfolding start by metis
  moreover have "\<exists>inst. map_of (m_sandboxes sm) ''sbx-1'' = Some inst"
    by (rule create_sandbox_made [OF free init_manager_ok run]) (simp add: demo_config_def update_conv')
  ultimately show ?thesis using that by blast
qed

theorem sandbox_resources_balance_witness:
  "\<exists>sm t inst. reachable (\<lambda>c. until_throw (sm_call good_env c)) (sm_start good_env None None ''/var/run/aegis'') (sm, t) \<and>
     map_of (m_sandboxes sm) ''sbx-1'' = Some inst \<and> firecracker_pid inst > 0 \<and>
     opened_fds t = closed_fds t + cg_fds (m_cgroup_manager sm) + tap_fds sm"
proof -
  obtain sm t inst where reach: "reachable (\<lambda>c. until_throw (sm_call good_env c))
      (sm_start good_env None None ''/var/run/aegis'') (sm, t)" and inst: "map_of (m_sandboxes sm) ''sbx-1'' = Some inst"
    using demo_reachable by blast
  have "free_parts None None" by (simp add: free_parts_def)
  from sandbox_resources_balance [OF good_env_iterates this reach] reach inst show ?thesis by blast
qed

text \<open>
  C7: Terminating a registered sandbox succeeds: it first kills the process and reaps it, closes
  the network descriptor, then lets go of the cgroup and removes the directory, and it takes exactly
  this name out of both tables. An unknown name is refused and nothing happens.
\<close>

theorem terminate_sandbox_effect:
  assumes "sm_inv root base (sm, t)"
  shows "case map_of (m_sandboxes sm) k of
      None \<Rightarrow> terminate_sandbox E k (sm, t) = (Ret ErrInvalidSandboxID, (sm, t))
    | Some inst \<Rightarrow> \<exists>sm' v info. map_of (cgs sm) k = Some info \<and>
        terminate_sandbox E k (sm, t) = (Ret Success, (sm',
          t @ [Kill (firecracker_pid inst) 9, Waitpid (firecracker_pid inst), Close (tap_fd inst)] @ v @
            [Close (cgroup_fd info), RemoveAll (path_append root k), RemoveAll (path_append base k)])) \<and>
        neutral v \<and> map_of (m_sandboxes sm') = (map_of (m_sandboxes sm))(k := None) \<and>
        map_of (cgs sm') = (map_of (cgs sm))(k := None) \<and> sm_inv root base (snd (terminate_sandbox E k (sm, t)))"
proof -
  have ok: "sm_ok root base sm" using assms by (simp add: sm_inv_def)
  note D = sm_okD [OF ok]
  have inv: "sm_inv root base (snd (terminate_sandbox E k (sm, t)))"
    using terminate_sandbox_inv [OF assms, of E k] by (simp add: wp_def case_prod_beta)
  show ?thesis
  proof (cases "map_of (m_sandboxes sm) k")
    case None
    then show ?thesis
      using terminate_sandbox_rule [OF D(1,2), of k "\<lambda>r s. (r, s) = (Ret ErrInvalidSandboxID, (sm, t))" t E]
      by (simp add: wp_def case_prod_beta prod_eq_iff)
  next
    case (Some inst)
    obtain info where info: "map_of (cgs sm) k = Some info"
      using Some D(6) um.keys_find [of k "m_sandboxes sm"] um.keys_find [of k "cgs sm"] by auto
    have "stop_events inst = [Kill (firecracker_pid inst) 9, Waitpid (firecracker_pid inst), Close (tap_fd inst)]"
      using D(5) [OF Some] by (simp add: stop_events_def inst_ok_def)
    moreover have "cgroup_events sm k = [Close (cgroup_fd info), RemoveAll (path_append root k)]"
      using info D(2) by (auto simp: cgroup_events_def cgs_def destroy_events_def parts_ok_def cg_ok_def cg_entry_ok_def)
    moreover have "wp (terminate_sandbox E k) (\<lambda>r s. \<exists>v. neutral v \<and> (r, s) = (Ret Success,
        ((drop_cgroup k sm)\<lparr>m_sandboxes := AList.delete k (m_sandboxes sm)\<rparr>,
         t @ stop_events inst @ v @ cgroup_events sm k @ [RemoveAll (path_append base k)]))) (sm, t)"
      by (rule terminate_sandbox_rule [OF D(1,2)]) (use Some D(7) in auto)
    ultimately obtain v where "neutral v" and "terminate_sandbox E k (sm, t) = (Ret Success,
        ((drop_cgroup k sm)\<lparr>m_sandboxes := AList.delete k (m_sandboxes sm)\<rparr>,
         t @ [Kill (firecracker_pid inst) 9, Waitpid (firecracker_pid inst), Close (tap_fd inst)] @ v @
           [Close (cgroup_fd info), RemoveAll (path_append root k), RemoveAll (path_append base k)]))"
      by (auto simp: wp_def case_prod_beta prod_eq_iff)
    moreover have "map_of (AList.delete k (m_sandboxes sm)) = (map_of (m_sandboxes sm))(k := None)"
      "map_of (AList.delete k (cgs sm)) = (map_of (cgs sm))(k := None)"
      using D(3,4) by (simp_all add: um.find_erase fun_eq_iff)
    ultimately show ?thesis using Some info inv by simp
  qed
qed

lemma demo_inv:
  obtains sm t inst where "sm_inv cgroup_root ''/var/run/aegis'' (sm, t)" and "map_of (m_sandboxes sm) ''sbx-1'' = Some inst"
proof -
  obtain sm t inst where reach: "reachable (\<lambda>c. until_throw (sm_call good_env c))
      (sm_start good_env None None ''/var/run/aegis'') (sm, t)" and inst: "map_of (m_sandboxes sm) ''sbx-1'' = Some inst"
    using demo_reachable by blast
  show ?thesis
    using sm.reachable_inv [OF reach] that [OF _ inst] by (simp add: good_env_iterates free_parts_def)
qed

theorem terminate_sandbox_effect_witness:
  "\<exists>sm t inst sm' t'. map_of (m_sandboxes sm) ''sbx-1'' = Some inst \<and>
     terminate_sandbox good_env ''sbx-1'' (sm, t) = (Ret Success, (sm', t')) \<and>
     map_of (m_sandboxes sm') ''sbx-1'' = None \<and> Kill (firecracker_pid inst) 9 \<in> set t'"
proof -
  obtain sm t inst where inv: "sm_inv cgroup_root ''/var/run/aegis'' (sm, t)"
    and inst: "map_of (m_sandboxes sm) ''sbx-1'' = Some inst" by (rule demo_inv)
  obtain sm' v w where "terminate_sandbox good_env ''sbx-1'' (sm, t) =
      (Ret Success, (sm', t @ [Kill (firecracker_pid inst) 9, Waitpid (firecracker_pid inst), Close (tap_fd inst)] @ v @ w))"
    "map_of (m_sandboxes sm') = (map_of (m_sandboxes sm))(''sbx-1'' := None)"
    using terminate_sandbox_effect [OF inv, of good_env "''sbx-1''"] unfolding inst option.case by blast
  moreover from this(2) have "map_of (m_sandboxes sm') ''sbx-1'' = None" by simp
  moreover have "Kill (firecracker_pid inst) 9 \<in> set (t @ [Kill (firecracker_pid inst) 9, Waitpid (firecracker_pid inst),
      Close (tap_fd inst)] @ v @ w)" by simp
  ultimately show ?thesis using inst by blast
qed

lemma entries_killed:
  assumes "\<And>k. k \<in> set ks \<Longrightarrow> firecracker_pid (the (map_of (m_sandboxes sm) k)) > 0"
  shows "killed_pids (concat (map (entry_events sm) ks)) =
    image_mset (\<lambda>k. firecracker_pid (the (map_of (m_sandboxes sm) k))) (mset ks)"
  using assms
  by (induction ks) (auto simp: entry_events_def cgroup_events_def destroy_events_def split: option.splits)

lemma entries_forked: "forked_pids (concat (map (entry_events sm) ks)) = {#}"
  by (induction ks) (auto simp: entry_events_def cgroup_events_def destroy_events_def split: option.splits)

lemma destruct_SandboxManager_run:
  assumes "iterates E" and inv: "sm_inv cgroup_root base (sm, t)"
  shows "\<exists>sm' u. destruct_SandboxManager E (sm, t) = (Ret (), (sm', t @ u)) \<and>
    m_sandboxes sm' = [] \<and> cgs sm' = [] \<and> opened_fds (t @ u) = closed_fds (t @ u) \<and> forked_pids u = {#} \<and>
    killed_pids u = image_mset (\<lambda>(k, inst). firecracker_pid inst) (mset (m_sandboxes sm))"
proof -
  let ?root = cgroup_root
  have ok: "sm_ok ?root base sm" using inv by (simp add: sm_inv_def)
  note D = sm_okD [OF ok]
  let ?ids = "e_iter_strings E t (um_keys (m_sandboxes sm))"
  let ?u = "concat (map (entry_events sm) ?ids)" and ?sm = "(fold drop_cgroup ?ids sm)\<lparr>m_sandboxes := []\<rparr>"
  have run: "terminate_all E (sm, t) = (Ret (), (?sm, t @ ?u))" by (rule terminate_all_run [OF D(1-3) assms(1)])
  have after: "sm_inv ?root base (?sm, t @ ?u)" "cgs ?sm = []"
    using terminate_all_inv [OF inv assms(1)] by (simp_all add: wp_def run)
  then have cg: "cg_ok ?root (m_cgroup_manager ?sm)" and none: "m_cgroups (m_cgroup_manager ?sm) = []"
    by (auto simp: sm_inv_def sm_ok_def parts_ok_def cgs_def)
  have "e_iter_strings E (t @ ?u) [] = []"
    using assms(1) by (metis iterates_def mset_zero_iff mset.simps(1))
  then have "destruct_CgroupManager E (m_cgroup_manager ?sm, t @ ?u) = (Ret (), (m_cgroup_manager ?sm, t @ ?u))"
    using destroy_all_run [OF cg_okD(1) [OF cg] cg_okD(3) [OF cg] assms(1), of "t @ ?u"] none
    by (simp add: destruct_CgroupManager_def um_keys_def)
  then have "destruct_SandboxManager E (sm, t) = (Ret (), (?sm, t @ ?u))"
    by (simp add: destruct_SandboxManager_def seqM_def bindM_def run on_field_def)
  moreover have "killed_pids ?u = image_mset (\<lambda>(k, inst). firecracker_pid inst) (mset (m_sandboxes sm))"
  proof -
    have "firecracker_pid (the (map_of (m_sandboxes sm) k)) > 0" if "k \<in> set ?ids" for k
      using that D(5) by (auto simp: iterates_set [OF assms(1)] um.keys_find inst_ok_def)
    then have "killed_pids ?u = image_mset (\<lambda>k. firecracker_pid (the (map_of (m_sandboxes sm) k))) (mset ?ids)"
      by (rule entries_killed)
    moreover have "mset ?ids = mset (um_keys (m_sandboxes sm))" using assms(1) by (simp add: iterates_def)
    ultimately show ?thesis
      using mset_map_keys [OF D(3), of "\<lambda>(k, inst). firecracker_pid inst"] by simp
  qed
  moreover have "opened_fds (t @ ?u) = closed_fds (t @ ?u)"
    using after none by (simp add: sm_inv_def cg_fds_def)
  ultimately show ?thesis using after(2) entries_forked by auto
qed

text \<open>
  C6: The destructor ends every sandbox from every state the manager can reach: it returns, kills
  exactly the processes of the registered sandboxes, leaves both tables empty and every descriptor
  that was ever opened closed.
\<close>

theorem destructor_ends_all:
  assumes "iterates E" and "free_parts loader engine"
    and "reachable (\<lambda>c. until_throw (sm_call E c)) (sm_start E loader engine base) (sm, t)"
  shows "\<exists>sm' u. destruct_SandboxManager E (sm, t) = (Ret (), (sm', t @ u)) \<and>
    m_sandboxes sm' = [] \<and> cgs sm' = [] \<and> opened_fds (t @ u) = closed_fds (t @ u) \<and>
    killed_pids u = image_mset (\<lambda>(k, inst). firecracker_pid inst) (mset (m_sandboxes sm))"
  using destruct_SandboxManager_run [OF assms(1), of base sm t] sm.reachable_inv [OF assms(3)] assms(1,2) by auto

theorem destructor_ends_all_witness:
  "\<exists>sm t inst sm' u. map_of (m_sandboxes sm) ''sbx-1'' = Some inst \<and>
     destruct_SandboxManager good_env (sm, t) = (Ret (), (sm', t @ u)) \<and> m_sandboxes sm' = [] \<and>
     firecracker_pid inst \<in># killed_pids u"
proof -
  obtain sm t inst where reach: "reachable (\<lambda>c. until_throw (sm_call good_env c))
      (sm_start good_env None None ''/var/run/aegis'') (sm, t)" and inst: "map_of (m_sandboxes sm) ''sbx-1'' = Some inst"
    using demo_reachable by blast
  have "free_parts None None" by (simp add: free_parts_def)
  from destructor_ends_all [OF good_env_iterates this reach] obtain sm' u where
    "destruct_SandboxManager good_env (sm, t) = (Ret (), (sm', t @ u))" "m_sandboxes sm' = []"
    "killed_pids u = image_mset (\<lambda>(k, inst). firecracker_pid inst) (mset (m_sandboxes sm))" by blast
  moreover from this(3) have "firecracker_pid inst \<in># killed_pids u"
    using map_of_SomeD [OF inst] by force
  ultimately show ?thesis using inst by blast
qed

section \<open>Execution\<close>

lemma wp_returns_same:
  "wp m (\<lambda>r s'. \<exists>x u. r = Ret x \<and> s' = (ob, t @ u) \<and> P x u) s \<Longrightarrow> \<exists>x u. m s = (Ret x, (ob, t @ u)) \<and> P x u"
  by (cases "m s") (auto simp: wp_def)



end
