(* ===== verification/Effects.thy ===== *)
theory Effects
  imports System_Interface
begin

text \<open>
  Which calls an action can make. \<open>emits I P m\<close> says that, started on an object with \<open>I\<close>, the
  action keeps \<open>I\<close> and appends only events with \<open>P\<close> to the trace, however it ends. The
  predicate follows the structure of an action, so that the proof for a method is the application
  of the rules in \<open>emits_intros\<close> to its definition.
\<close>

named_theorems emits_intros \<open>effects of the program constructs\<close>

definition emits :: "('o \<Rightarrow> bool) \<Rightarrow> (event \<Rightarrow> bool) \<Rightarrow> ('o, 'a) action \<Rightarrow> bool" where
  "emits I P m \<longleftrightarrow> (\<forall>ob t. I ob \<longrightarrow>
     (case m (ob, t) of (r, (ob', t')) \<Rightarrow> I ob' \<and> (\<exists>u. t' = t @ u \<and> list_all P u)))"

lemma emitsI:
  assumes "\<And>ob t r ob' t'. I ob \<Longrightarrow> m (ob, t) = (r, (ob', t')) \<Longrightarrow> I ob' \<and> (\<exists>u. t' = t @ u \<and> list_all P u)"
  shows "emits I P m"
  unfolding emits_def
proof (intro allI impI)
  fix ob t assume "I ob"
  moreover obtain r ob' t' where "m (ob, t) = (r, (ob', t'))" by (cases "m (ob, t)") auto
  ultimately show "case m (ob, t) of (r, (ob', t')) \<Rightarrow> I ob' \<and> (\<exists>u. t' = t @ u \<and> list_all P u)"
    using assms by simp
qed

lemma emitsD:
  assumes "emits I P m" and "I ob" and "m (ob, t) = (r, (ob', t'))"
  obtains u where "I ob'" and "t' = t @ u" and "list_all P u"
  using assms(1) [unfolded emits_def, rule_format, OF assms(2), of t] that by (auto simp: assms(3))

lemma emits_basic [emits_intros]:
  "emits I P (retM x)" "emits I P (throwM e)" "emits I P goneM" "emits I P (getM f)" "emits I P (self g)"
  by (auto simp: emits_def retM_def throwM_def goneM_def getM_def self_def)

lemma emits_assign [emits_intros]: "(\<And>ob. I ob \<Longrightarrow> I (f ob)) \<Longrightarrow> emits I P (assign f)"
  by (auto simp: emits_def assign_def)

lemma emits_sys [emits_intros]: "(\<And>r. P (ev r)) \<Longrightarrow> emits I P (sys a ev)"
  by (auto simp: emits_def sys_def)

lemma emits_bindM [emits_intros]:
  assumes "emits I P m" and "\<And>x. emits I P (f x)"
  shows "emits I P (bindM m f)"
proof (rule emitsI)
  fix ob t r ob' t' assume I: "I ob" and run: "bindM m f (ob, t) = (r, (ob', t'))"
  obtain r1 ob1 t1 where m: "m (ob, t) = (r1, (ob1, t1))" by (cases "m (ob, t)") auto
  obtain u where u: "I ob1" "t1 = t @ u" "list_all P u" by (rule emitsD [OF assms(1) I m])
  show "I ob' \<and> (\<exists>u. t' = t @ u \<and> list_all P u)"
  proof (cases r1)
    case (Ret x)
    then have "f x (ob1, t1) = (r, (ob', t'))" using run m by (simp add: bindM_def)
    then obtain v where "I ob'" "t' = t1 @ v" "list_all P v" by (rule emitsD [OF assms(2) u(1)])
    then show ?thesis using u by auto
  qed (use run m u in \<open>auto simp: bindM_def\<close>)
qed

lemma emits_seqM [emits_intros]: "emits I P m \<Longrightarrow> emits I P n \<Longrightarrow> emits I P (seqM m n)"
  unfolding seqM_def by (rule emits_bindM)

lemma emits_if [emits_intros]:
  "(b \<Longrightarrow> emits I P m) \<Longrightarrow> (\<not> b \<Longrightarrow> emits I P n) \<Longrightarrow> emits I P (if b then m else n)"
  by simp

lemma emits_option [emits_intros]:
  "(x = None \<Longrightarrow> emits I P m) \<Longrightarrow> (\<And>y. x = Some y \<Longrightarrow> emits I P (n y)) \<Longrightarrow>
    emits I P (case x of None \<Rightarrow> m | Some y \<Rightarrow> n y)"
  by (cases x) simp_all

lemma emits_prod [emits_intros]: "(\<And>a b. x = (a, b) \<Longrightarrow> emits I P (n a b)) \<Longrightarrow> emits I P (case x of (a, b) \<Rightarrow> n a b)"
  by (cases x) simp

lemma emits_forM [emits_intros]: "(\<And>x. emits I P (f x)) \<Longrightarrow> emits I P (forM xs f)"
  by (induction xs) (simp_all add: emits_basic emits_bindM)

lemma emits_guarded [emits_intros]:
  assumes "\<And>b ob. I ob \<Longrightarrow> I (set_held b ob)" and "emits I P body"
  shows "emits I P (guarded held set_held body)"
proof (rule emitsI)
  fix ob t r ob' t' assume I: "I ob" and run: "guarded held set_held body (ob, t) = (r, (ob', t'))"
  show "I ob' \<and> (\<exists>u. t' = t @ u \<and> list_all P u)"
  proof (cases "held ob")
    case False
    obtain r1 ob1 t1 where b: "body (set_held True ob, t) = (r1, (ob1, t1))"
      by (cases "body (set_held True ob, t)") auto
    obtain u where "I ob1" "t1 = t @ u" "list_all P u" by (rule emitsD [OF assms(2) assms(1) [OF I] b])
    then show ?thesis
      using run False b assms(1) by (cases r1) (auto simp: guarded_def lock_guard_def)
  qed (use run I in \<open>simp add: guarded_def lock_guard_def\<close>)
qed

lemma emits_on_field [emits_intros]:
  assumes "\<And>ob. I ob \<Longrightarrow> J (get ob)" and "emits J P m" and "\<And>ob f. I ob \<Longrightarrow> J f \<Longrightarrow> I (put f ob)"
  shows "emits I P (on_field get put m)"
proof (rule emitsI)
  fix ob t r ob' t' assume I: "I ob" and run: "on_field get put m (ob, t) = (r, (ob', t'))"
  obtain r1 f t1 where m: "m (get ob, t) = (r1, (f, t1))" by (cases "m (get ob, t)") auto
  obtain u where "J f" "t1 = t @ u" "list_all P u" by (rule emitsD [OF assms(2) assms(1) [OF I] m])
  then show "I ob' \<and> (\<exists>u. t' = t @ u \<and> list_all P u)"
    using run m assms(3) [OF I] by (auto simp: on_field_def)
qed

section \<open>Calls into libbpf\<close>

definition bpf_event :: "event \<Rightarrow> bool" where
  "bpf_event e = (case e of
     ObjOpen p r \<Rightarrow> True | ObjLoad ob r \<Rightarrow> True | ObjClose ob \<Rightarrow> True
   | FindProgram ob n r \<Rightarrow> True | AttachTracepoint p c tp r \<Rightarrow> True | AttachCgroup p fd r \<Rightarrow> True
   | LinkDestroy l \<Rightarrow> True | FindMap ob n r \<Rightarrow> True | MapUpdate fd k v r \<Rightarrow> True
   | RingNew fd r \<Rightarrow> True | RingFree rb \<Rightarrow> True | RingPoll rb tmo r \<Rightarrow> True
   | _ \<Rightarrow> False)"

abbreviation no_bpf :: "event \<Rightarrow> bool" where
  "no_bpf e \<equiv> \<not> bpf_event e"

lemma bpf_event_simps [simp]:
  "no_bpf (Exists p fs)" "no_bpf (CreateDirectories p b)" "no_bpf (RemoveAll p)" "no_bpf (RemoveFile p b)"
  "no_bpf (OfsOpen p b)" "no_bpf (OfsPut p s b)" "no_bpf (OfsClose p b)" "no_bpf (IfsRead p so)"
  "no_bpf (Open p i)" "no_bpf (Close i)" "no_bpf (Stat p uo)" "no_bpf (TunSetIff i s j)" "no_bpf (Fork i)"
  "no_bpf (Dup2 i j)" "no_bpf (Execv p ss)" "no_bpf (ExitProcess i)" "no_bpf (Kill i j)" "no_bpf (Waitpid i)"
  "no_bpf (Socket i)" "no_bpf (Connect i p j)" "no_bpf (WriteFd i s j)" "no_bpf (ReadFd i so)"
  "no_bpf (Sleep n)" "no_bpf (Clock i)"
  by (simp_all add: bpf_event_def)

lemma no_bpf_maps: "list_all no_bpf u \<Longrightarrow> map_value fd k u v = v"
proof (induction u arbitrary: v)
  case (Cons e u)
  then have "map_write fd k e v = v" by (cases e) (simp_all add: bpf_event_def map_write_def)
  then show ?case using Cons by simp
qed simp

lemma emits_calls [emits_intros]:
  "emits I no_bpf (fs_remove_all p)" "emits I no_bpf (fs_create_directories E p)"
  "emits I no_bpf (c_open E p)" "emits I no_bpf (c_close fd)" "emits I no_bpf (c_stat E p)"
  "emits I no_bpf (c_kill pid sig)" "emits I no_bpf (c_waitpid pid)" "emits I no_bpf (c_socket E)"
  "emits I no_bpf (c_connect E fd p)" "emits I no_bpf (c_write E fd s)" "emits I no_bpf (c_read E fd n)"
  "emits I no_bpf (now E)" "emits I no_bpf (sleep_ms n)"
  by (simp_all add: call_defs emits_sys)

lemma emits_fs [emits_intros]: "emits I no_bpf (fs_exists E p)" "emits I no_bpf (fs_remove E p)"
proof -
  have "emits I no_bpf (case r of FsYes \<Rightarrow> retM True | FsNo \<Rightarrow> retM False | FsErr \<Rightarrow> throwM FilesystemError)" for r
    by (cases r) (simp_all add: emits_basic)
  then show "emits I no_bpf (fs_exists E p)" "emits I no_bpf (fs_remove E p)"
    unfolding fs_exists_def fs_remove_def by (intro emits_intros; simp)+
qed

end
