(* ===== verification/Sandbox_Effects.thy ===== *)
theory Sandbox_Effects
  imports Sandbox_Properties Effects
begin

text \<open>
  Which steps of the sandbox manager call into libbpf: none but those that go through the loader,
  and with a loader that has loaded nothing not even these.
\<close>

section \<open>Cgroups\<close>

lemma emits_write_sysfs [emits_intros]: "emits I no_bpf (write_sysfs_file E p v)"
  unfolding write_sysfs_file_def by (intro emits_intros; simp)

abbreviation always :: "'o \<Rightarrow> bool" where
  "always ob \<equiv> True"

lemma emits_cgroups [emits_intros]:
  "emits always no_bpf (create_cgroup E k l)" "emits always no_bpf (attach_pid E k pid)"
  "emits always no_bpf (destroy_cgroup k)" "emits always no_bpf (get_cgroup_id k)"
  "emits always no_bpf (destroy_all E)" "emits always no_bpf (construct_CgroupManager E)"
  unfolding create_cgroup_def attach_pid_def destroy_cgroup_def get_cgroup_id_def destroy_all_def destroy_entry_def
    construct_CgroupManager_def apply_limits_def fetch_inode_id_def Let_def
  by (intro emits_intros; simp)+

lemma emits_on_cgroups:
  assumes "emits always no_bpf m" and "\<And>sm c. I sm \<Longrightarrow> I (sm\<lparr>m_cgroup_manager := c\<rparr>)"
  shows "emits I no_bpf (on_cgroups m)"
  by (rule emits_on_field [OF _ assms(1)]) (use assms(2) in auto)

section \<open>Steps of the creation\<close>

lemma emits_http [emits_intros]:
  "emits I no_bpf (send_unix_http_put E sock ep payload)"
  unfolding send_unix_http_put_def by (intro emits_intros; simp)

lemma emits_wait [emits_intros]: "emits I no_bpf (wait_for_socket E p n)"
  by (induction n) (simp_all add: emits_basic emits_bindM emits_fs emits_if emits_seqM emits_calls)

lemma emits_boot_steps [emits_intros]:
  "emits I no_bpf (configure_firecracker_api E inst)" "emits I no_bpf (restore_firecracker_snapshot E inst)"
  "emits I no_bpf (setup_tap_interface E inst)" "emits I no_bpf (exec_firecracker E inst)"
  "emits I no_bpf (kill_process pid)"
  unfolding configure_firecracker_api_def restore_firecracker_snapshot_def setup_tap_interface_def
    exec_firecracker_def kill_process_def Let_def
  by (intro emits_intros; simp)+

lemma emits_spawn [emits_intros]: "emits I no_bpf (spawn_firecracker_process E inst)"
  unfolding spawn_firecracker_process_def by (intro emits_intros) simp

section \<open>A loader that has loaded nothing\<close>

abbreviation unloaded :: "SandboxManager \<Rightarrow> bool" where
  "unloaded sm \<equiv> m_ebpf_loader sm = Some new_EBPFLoader"

lemma emits_unloaded_loader:
  "emits (\<lambda>el. el = new_EBPFLoader) no_bpf (set_cgroup_monitored E cg b)"
  "emits (\<lambda>el. el = new_EBPFLoader) no_bpf (set_syscall_policy E nr v)"
  "emits (\<lambda>el. el = new_EBPFLoader) no_bpf (set_blocked_ip E ip b)"
  "emits (\<lambda>el. el = new_EBPFLoader) no_bpf detach_all"
  by (simp_all add: emits_def unloaded_calls)

lemma emits_on_unloaded:
  "emits (\<lambda>el. el = new_EBPFLoader) no_bpf m \<Longrightarrow> emits unloaded no_bpf (on_loader m)"
  by (rule emits_on_field) auto

lemmas emits_unloaded [emits_intros] = emits_unloaded_loader [THEN emits_on_unloaded]

lemma emits_on_engine [emits_intros]: "emits unloaded no_bpf (on_engine (get_policy n))"
  unfolding get_policy_def by (rule emits_on_field [where J = always]; (intro emits_intros)?; simp)

lemma emits_on_cgroups_unloaded [emits_intros]: "emits always no_bpf m \<Longrightarrow> emits unloaded no_bpf (on_cgroups m)"
  by (rule emits_on_cgroups) simp_all

lemma emits_unloaded_calls [emits_intros]:
  "emits unloaded no_bpf (terminate_sandbox E k)" "emits unloaded no_bpf (terminate_all E)"
  unfolding terminate_sandbox_def terminate_all_def terminate_entry_def unmonitor_def Let_def
  by (intro emits_intros emits_guarded; simp)+

lemma emits_apply [emits_intros]: "emits unloaded no_bpf (apply_ebpf_policies E inst)"
  unfolding apply_ebpf_policies_def push_policy_def by (intro emits_intros)

lemma emits_create_sandbox: "emits unloaded no_bpf (create_sandbox E config)"
  unfolding create_sandbox_def boot_sandbox_def finish_create_def Let_def
  by (intro emits_intros emits_guarded; simp)

end
