(* ===== verification/Aegis_CLI.thy ===== *)
theory Aegis_CLI
  imports Sandbox_Effects
begin

text \<open>
  The command line program (\<open>cmd/aegis-cli/main.cpp\<close>): argument parsing, the five commands, the
  lifetime of the objects \<open>main\<close> creates, its exception handlers and the signal handler. What it
  prints is a list of messages, one per output statement, with the values the statement formats;
  the texts of the header and the usage message are written out. Times are kept as clock ticks
  instead of being printed with two decimals.
\<close>

section \<open>Arguments\<close>

text \<open>
  \<open>std::atoi\<close>: leading white space, an optional sign, and the digits that follow. The C standard
  does not define the result when it does not fit an \<open>int\<close>.
\<close>

definition is_space :: "char \<Rightarrow> bool" where
  "is_space c \<longleftrightarrow> c = CHR '' '' \<or> (9 \<le> (of_char c :: nat) \<and> (of_char c :: nat) \<le> 13)"

definition atoi :: "string \<Rightarrow> int" where
  "atoi s = (case dropWhile is_space s of
     [] \<Rightarrow> 0
   | c # r \<Rightarrow>
       if c = CHR ''-'' then - int (dec_val (takeWhile is_digit r))
       else if c = CHR ''+'' then int (dec_val (takeWhile is_digit r))
       else int (dec_val (takeWhile is_digit (c # r))))"

record CliArgs =
  ca_sandbox_id :: string
  ca_policy_name :: string
  ca_code_payload :: string
  ca_cpus :: u32
  ca_memory_mb :: u32

definition default_args :: CliArgs where
  "default_args = \<lparr>ca_sandbox_id = ''sbx-demo'', ca_policy_name = ''strict_python'',
     ca_code_payload = ''print('Hello from Aegis Isolated MicroVM!')'', ca_cpus = 1, ca_memory_mb = 512\<rparr>"

text \<open>The loop over \<open>argv\<close>; the second argument is its index.\<close>

function parse_args :: "string list \<Rightarrow> nat \<Rightarrow> CliArgs \<Rightarrow> CliArgs" where
  "parse_args argv i a =
     (if i < length argv
      then let arg = argv ! i; more = (i + 1 < length argv) in
        if arg = ''--id'' \<and> more then parse_args argv (i + 2) (a\<lparr>ca_sandbox_id := argv ! (i + 1)\<rparr>)
        else if arg = ''--policy'' \<and> more then parse_args argv (i + 2) (a\<lparr>ca_policy_name := argv ! (i + 1)\<rparr>)
        else if arg = ''--code'' \<and> more then parse_args argv (i + 2) (a\<lparr>ca_code_payload := argv ! (i + 1)\<rparr>)
        else if arg = ''--cpus'' \<and> more then parse_args argv (i + 2) (a\<lparr>ca_cpus := word_of_int (atoi (argv ! (i + 1)))\<rparr>)
        else if arg = ''--mem'' \<and> more then parse_args argv (i + 2) (a\<lparr>ca_memory_mb := word_of_int (atoi (argv ! (i + 1)))\<rparr>)
        else parse_args argv (i + 1) a
      else a)"
  by pat_completeness auto
termination by (relation "measure (\<lambda>(argv, i, a). length argv - i)") auto

declare parse_args.simps [simp del]

section \<open>Output\<close>

datatype stream = Cout | Cerr

datatype message =
    TextOut string
  | SignalReceived int
  | Booting string
  | SandboxCreated string int u32 u32 string
  | CreateFailed string
  | Executing string
  | ExecutionOutput string int int bool
  | Terminating string
  | SandboxTerminated
  | TerminationFailed string
  | QueryingStatus
  | ActiveSandbox string int
  | NoActiveSandboxes
  | UnknownCommand string
  | StandardException exn

text \<open>The global state of the program; \<open>manager\<close> is the local object of \<open>main\<close> while it lives.\<close>

record Cli =
  cli_output :: "(stream \<times> message) list"
  g_sandbox_manager :: bool
  manager :: "SandboxManager option"

abbreviation on_manager :: "(SandboxManager, 'a) action \<Rightarrow> (Cli, 'a) action" where
  "on_manager m \<equiv> on_field (\<lambda>c. the (manager c)) (\<lambda>sm c. c\<lparr>manager := Some sm\<rparr>) m"

definition print :: "stream \<Rightarrow> message \<Rightarrow> (Cli, unit) action" where
  "print s msg = assign (\<lambda>c. c\<lparr>cli_output := cli_output c @ [(s, msg)]\<rparr>)"

abbreviation nl :: string where "nl \<equiv> [CHR 0x0A]"
abbreviation bs :: string where "bs \<equiv> [CHR 0x5C]"
abbreviation esc :: "string \<Rightarrow> string" where "esc s \<equiv> CHR 0x1B # CHR ''['' # s @ ''m''"

definition header_text :: string where
  "header_text =
     esc ''1;36'' @
     ''   ___   _______ ____ ______   _____ ___   _  ______  ___  OX'' @ nl @
     ''  / _ '' @ bs @ '' / __/ _ /  _/ __/  | / / _ / _ '' @ bs @ ''/ |/ / _ '' @ bs @ ''/ _ '' @ bs @ nl @
     '' / __ |/ _// __// // _// /| |/ __ / // /    / // / // /'' @ nl @
     ''/_/ |_/___/_/  /___/___/_/ |_/_/ |_/____/_/|_/____/____/'' @ nl @
     esc ''0'' @
     esc ''1;32'' @ ''Sub-10ms MicroVM & eBPF Isolation Engine for AI Agents (v'' @
     ''0.1.0'' @ '')'' @ esc ''0'' @ nl @ nl"

definition print_header :: "(Cli, unit) action" where
  "print_header = print Cout (TextOut header_text)"

definition usage_text :: "string \<Rightarrow> string" where
  \<open>usage_text prog_name =
     ''Usage:'' @ nl @
     ''  '' @ prog_name @ '' <command> [options]'' @ nl @ nl @
     ''Commands:'' @ nl @
     ''  create    Create and boot a new isolated Firecracker microVM sandbox'' @ nl @
     ''  exec      Execute untrusted AI agent code (Python/Bash) inside a sandbox'' @ nl @
     ''  terminate Destroy and wipe an active sandbox instance'' @ nl @
     ''  status    Display metadata for active sandboxes and eBPF enforcement maps'' @ nl @
     ''  version   Display version details and build information'' @ nl @ nl @
     ''Options:'' @ nl @
     ''  --id <string>         Sandbox ID (default: sbx-demo)'' @ nl @
     ''  --policy <string>     Security policy name (default: strict_python)'' @ nl @
     ''  --code <string>       Code payload string to execute'' @ nl @
     ''  --cpus <int>          vCPU core count limit (default: 1)'' @ nl @
     ''  --mem <int>           RAM limit in Megabytes (default: 512)'' @ nl @ nl @
     ''Examples:'' @ nl @
     ''  '' @ prog_name @ '' create --id sbx-test --policy strict_python --cpus 2 --mem 1024'' @ nl @
     ''  '' @ prog_name @ '' exec --id sbx-test --code "print('Hello from aegis microVM')"'' @ nl @
     ''  '' @ prog_name @ '' terminate --id sbx-test'' @ nl\<close>

definition print_usage :: "string \<Rightarrow> (Cli, unit) action" where
  "print_usage prog_name = seqM print_header (print Cout (TextOut (usage_text prog_name)))"

section \<open>The commands\<close>

definition cli_config :: "CliArgs \<Rightarrow> SandboxConfig" where
  "cli_config a = new_SandboxConfig\<lparr>
     sc_sandbox_id := ca_sandbox_id a,
     security_policy_name := ca_policy_name a,
     resource_limits := (resource_limits new_SandboxConfig)\<lparr>cpu_cores := ca_cpus a, memory_mb := ca_memory_mb a\<rparr>,
     use_snapshot_restore := True\<rparr>"

text \<open>The result is the exit code; the pointer for the signal handler is reset on success only.\<close>

definition leave :: "(Cli, int) action" where
  "leave = seqM (assign (\<lambda>c. c\<lparr>g_sandbox_manager := False\<rparr>)) (retM 0)"

definition cmd_create :: "env \<Rightarrow> CliArgs \<Rightarrow> (Cli, int) action" where
  "cmd_create E a =
     seqM print_header
    (seqM (print Cout (Booting (ca_sandbox_id a)))
    (bindM (on_manager (create_sandbox E (cli_config a))) (\<lambda>status.
     if status = Success
     then bindM (on_manager (get_metadata (ca_sandbox_id a))) (\<lambda>meta.
          seqM (print Cout (SandboxCreated (ca_sandbox_id a)
                  (case meta of None \<Rightarrow> 0 | Some m \<Rightarrow> md_boot_time m)
                  (ca_cpus a) (ca_memory_mb a) (ca_policy_name a)))
               leave)
     else seqM (print Cerr (CreateFailed (status_to_string status))) (retM 1))))"

definition cmd_exec :: "env \<Rightarrow> CliArgs \<Rightarrow> (Cli, int) action" where
  "cmd_exec E a =
     seqM (print Cout (Executing (ca_sandbox_id a)))
    (bindM (on_manager (execute_code E (ca_sandbox_id a) (ca_code_payload a))) (\<lambda>result.
     seqM (print Cout (ExecutionOutput (stdout_output result) (exit_code result)
             (execution_time result) (security_violation_triggered result)))
          leave))"

definition cmd_terminate :: "env \<Rightarrow> CliArgs \<Rightarrow> (Cli, int) action" where
  "cmd_terminate E a =
     seqM (print Cout (Terminating (ca_sandbox_id a)))
    (bindM (on_manager (terminate_sandbox E (ca_sandbox_id a))) (\<lambda>status.
     if status = Success then seqM (print Cout SandboxTerminated) leave
     else seqM (print Cerr (TerminationFailed (status_to_string status))) (retM 1)))"

definition cmd_status :: "CliArgs \<Rightarrow> (Cli, int) action" where
  "cmd_status a =
     seqM print_header
    (seqM (print Cout QueryingStatus)
    (bindM (on_manager (get_metadata (ca_sandbox_id a))) (\<lambda>meta.
     seqM (case meta of
             None \<Rightarrow> print Cout NoActiveSandboxes
           | Some m \<Rightarrow> print Cout (ActiveSandbox (md_sandbox_id m) (md_boot_time m)))
          leave)))"

definition run_command :: "env \<Rightarrow> string \<Rightarrow> string \<Rightarrow> CliArgs \<Rightarrow> (Cli, int) action" where
  "run_command E prog command a =
     (if command = ''create'' then cmd_create E a
      else if command = ''exec'' then cmd_exec E a
      else if command = ''terminate'' then cmd_terminate E a
      else if command = ''status'' then cmd_status a
      else seqM (print Cerr (UnknownCommand command)) (seqM (print_usage prog) (retM 1)))"

section \<open>The program\<close>

text \<open>
  The objects of the \<open>try\<close> block are destroyed when it is left, in reverse order, before a handler
  runs. All exceptions of the library are standard ones; \<open>AegisException\<close> is thrown nowhere.
\<close>

definition construct_objects :: "env \<Rightarrow> (Cli, unit) action" where
  "construct_objects E =
     seqM (assign (\<lambda>c. c\<lparr>manager := Some (init_SandboxManager (Some new_EBPFLoader) (Some new_PolicyEngine) ''/var/run/aegis'')\<rparr>))
    (seqM (on_manager (construct_SandboxManager E))
          (assign (\<lambda>c. c\<lparr>g_sandbox_manager := True\<rparr>)))"

definition destruct_objects :: "env \<Rightarrow> (Cli, unit) action" where
  "destruct_objects E =
     seqM (on_manager (destruct_SandboxManager E))
    (seqM (on_manager (on_loader destruct_EBPFLoader))
          (assign (\<lambda>c. c\<lparr>manager := None\<rparr>)))"

definition try_block :: "env \<Rightarrow> (Cli, int) action \<Rightarrow> (Cli, int) action" where
  "try_block E body = (\<lambda>s. case seqM (construct_objects E) body s of
     (Ret x, s') \<Rightarrow> seqM (destruct_objects E) (retM x) s'
   | (Throw e, s') \<Rightarrow> seqM (destruct_objects E) (seqM (print Cerr (StandardException e)) (retM 1)) s'
   | (Deadlock, s') \<Rightarrow> (Deadlock, s')
   | (Gone, s') \<Rightarrow> (Gone, s'))"

text \<open>\<open>argv\<close> is the name of the program followed by the arguments.\<close>

definition main :: "env \<Rightarrow> string \<Rightarrow> string list \<Rightarrow> (Cli, int) action" where
  "main E prog args =
     (case args of
        [] \<Rightarrow> seqM (print_usage prog) (retM 1)
      | command # _ \<Rightarrow>
          if command = ''version'' \<or> command = ''--version'' \<or> command = ''-v''
          then seqM print_header (retM 0)
          else try_block E (run_command E prog command (parse_args (prog # args) 2 default_args)))"

definition cli_start :: Cli where
  "cli_start = \<lparr>cli_output = [], g_sandbox_manager = False, manager = None\<rparr>"

text \<open>\<open>std::exit\<close> ends the process without destroying the objects of \<open>main\<close>.\<close>

definition signal_handler :: "env \<Rightarrow> int \<Rightarrow> (Cli, unit) action" where
  "signal_handler E sig =
     bindM (self g_sandbox_manager) (\<lambda>is_set.
     seqM (if is_set then seqM (print Cout (SignalReceived sig)) (on_manager (terminate_all E)) else retM ())
    (seqM (sys (\<lambda>t. ()) (\<lambda>_. ExitProcess sig)) goneM))"

section \<open>Parsing\<close>

text \<open>
  The reference: the arguments are cut into options with their values, from left to right, and
  for each option the last value counts.
\<close>

fun option_pairs :: "string list \<Rightarrow> (string \<times> string) list" where
  "option_pairs (x # y # r) =
     (if x \<in> {''--id'', ''--policy'', ''--code'', ''--cpus'', ''--mem''} then (x, y) # option_pairs r
      else option_pairs (y # r))"
| "option_pairs _ = []"

definition last_value :: "(string \<times> string) list \<Rightarrow> string \<Rightarrow> (string \<Rightarrow> 'a) \<Rightarrow> 'a \<Rightarrow> 'a" where
  "last_value ps opt conv d = (case map_of (rev ps) opt of None \<Rightarrow> d | Some v \<Rightarrow> conv v)"

definition with_options :: "(string \<times> string) list \<Rightarrow> CliArgs \<Rightarrow> CliArgs" where
  "with_options ps a = \<lparr>ca_sandbox_id = last_value ps ''--id'' id (ca_sandbox_id a),
     ca_policy_name = last_value ps ''--policy'' id (ca_policy_name a),
     ca_code_payload = last_value ps ''--code'' id (ca_code_payload a),
     ca_cpus = last_value ps ''--cpus'' (\<lambda>s. word_of_int (atoi s)) (ca_cpus a),
     ca_memory_mb = last_value ps ''--mem'' (\<lambda>s. word_of_int (atoi s)) (ca_memory_mb a)\<rparr>"

lemma last_value_simps [simp]:
  "last_value [] opt conv d = d"
  "last_value ((x, v) # ps) opt conv d = last_value ps opt conv (if x = opt then conv v else d)"
  by (auto simp: last_value_def map_add_def split: option.splits)

lemma parse_args_pairs: "parse_args argv i a = with_options (option_pairs (drop i argv)) a"
proof (induction argv i a rule: parse_args.induct)
  case (1 argv i a)
  show ?case
  proof (cases "i + 1 < length argv")
    case True
    then have "drop i argv = argv ! i # argv ! (i + 1) # drop (i + 2) argv"
      and "drop (i + 1) argv = argv ! (i + 1) # drop (i + 2) argv"
      by (simp_all add: Cons_nth_drop_Suc [symmetric] Suc_lessD)
    then show ?thesis
      using True "1.IH" by (subst parse_args.simps) (simp add: Let_def with_options_def)
  next
    case False
    show ?thesis
    proof (cases "i < length argv")
      case True
      then have "drop i argv = [argv ! i]" "drop (i + 1) argv = []"
        using False by (simp_all add: Cons_nth_drop_Suc [symmetric])
      then show ?thesis using True False "1.IH" by (subst parse_args.simps) (simp add: Let_def with_options_def)
    qed (use False in \<open>simp add: parse_args.simps [of argv i a] with_options_def\<close>)
  qed
qed

text \<open>
  C37: The parsing loop reads the arguments after the command as options with values, from left to
  right, where an option takes the next argument whatever it is. For each setting the last value
  counts, and the default stands where none is given; other arguments, and an option at the end
  with no value, have no effect.
\<close>

theorem parse_args_spec:
  "parse_args argv 2 default_args = (let ps = option_pairs (drop 2 argv) in
     \<lparr>ca_sandbox_id = last_value ps ''--id'' id ''sbx-demo'',
      ca_policy_name = last_value ps ''--policy'' id ''strict_python'',
      ca_code_payload = last_value ps ''--code'' id ''print('Hello from Aegis Isolated MicroVM!')'',
      ca_cpus = last_value ps ''--cpus'' (\<lambda>s. word_of_int (atoi s)) 1,
      ca_memory_mb = last_value ps ''--mem'' (\<lambda>s. word_of_int (atoi s)) 512\<rparr>)"
  by (simp add: parse_args_pairs with_options_def default_args_def Let_def)

section \<open>The lifetime of the objects\<close>

abbreviation cli_manager :: SandboxManager where
  "cli_manager \<equiv> init_SandboxManager (Some new_EBPFLoader) (Some new_PolicyEngine) ''/var/run/aegis''"

lemma new_engine_free: "\<not> pe_mutex new_PolicyEngine"
  by (simp add: new_PolicyEngine_def register_default_strict_python_policy_def register_policy_def guarded_def
      lock_guard_def assign_def seqM_def bindM_def retM_def)

lemma cli_parts: "free_parts (Some new_EBPFLoader) (Some new_PolicyEngine)"
  by (simp add: free_parts_def new_engine_free) (simp add: new_EBPFLoader_def)

text \<open>A command of a fresh process works on the state after the construction.\<close>

definition cli_built :: Cli where
  "cli_built = \<lparr>cli_output = [], g_sandbox_manager = True, manager = Some cli_manager\<rparr>"

lemma construct_objects_run:
  obtains t0 where "construct_objects E (cli_start, []) = (Ret (), (cli_built, t0))"
    and "sm_inv cgroup_root ''/var/run/aegis'' (cli_manager, t0)"
    and "list_all no_bpf t0" and "forked_pids t0 = {#}" and "killed_pids t0 = {#}"
proof -
  obtain t0 where start: "sm_start E (Some new_EBPFLoader) (Some new_PolicyEngine) ''/var/run/aegis'' = (cli_manager, t0)"
    and fs: "list_all fs_event t0"
    using sm_start_eq by blast
  have "\<exists>r. construct_SandboxManager E (cli_manager, []) = (Ret r, (cli_manager, t0))"
  proof -
    have "wp (construct_SandboxManager E) (\<lambda>r s. \<exists>x. r = Ret x) (cli_manager, [])"
      by (auto intro!: write_sysfs_rule simp: construct_SandboxManager_def construct_CgroupManager_def
          wp_seqM wp_bindM wp_on_field wp_self wp_retM fs_create_directories_def wp_sys)
    then show ?thesis
      using start by (cases "construct_SandboxManager E (cli_manager, [])") (auto simp: wp_def sm_start_def)
  qed
  then have "construct_objects E (cli_start, []) = (Ret (), (cli_built, t0))"
    by (auto simp: construct_objects_def seqM_def bindM_def assign_def on_field_def cli_start_def cli_built_def)
  moreover have "sm_inv cgroup_root ''/var/run/aegis'' (cli_manager, t0)"
    using sm_start_inv [OF cli_parts, of "''/var/run/aegis''" E] start by simp
  moreover have "list_all no_bpf t0"
    using fs by (auto simp: list_all_iff fs_event_def bpf_event_def split: event.splits)
  ultimately show ?thesis using that fs by (auto simp: fs_event_quiet)
qed

lemma destruct_objects_run:
  assumes inv: "sm_inv cgroup_root base (sm, t)" and it: "iterates E" and un: "unloaded sm"
  obtains u where "\<And>c. manager c = Some sm \<Longrightarrow> destruct_objects E (c, t) = (Ret (), (c\<lparr>manager := None\<rparr>, t @ u))"
    and "list_all no_bpf u" and "opened_fds (t @ u) = closed_fds (t @ u)" and "forked_pids u = {#}"
    and "killed_pids u = image_mset (\<lambda>(k, inst). firecracker_pid inst) (mset (m_sandboxes sm))"
proof -
  obtain sm' u where run: "destruct_SandboxManager E (sm, t) = (Ret (), (sm', t @ u))"
    and u: "opened_fds (t @ u) = closed_fds (t @ u)" "forked_pids u = {#}"
      "killed_pids u = image_mset (\<lambda>(k, inst). firecracker_pid inst) (mset (m_sandboxes sm))"
    using destruct_SandboxManager_run [OF it inv] by blast
  have em: "emits unloaded no_bpf (destruct_SandboxManager E)"
    unfolding destruct_SandboxManager_def destruct_CgroupManager_def by (intro emits_intros)
  have "unloaded sm' \<and> list_all no_bpf u"
    by (rule emitsD [OF em, OF un run]) simp
  then show ?thesis
    by (intro that [of u])
      (use run u in \<open>auto simp: destruct_objects_def seqM_def bindM_def on_field_def assign_def destruct_EBPFLoader_def
        unloaded_calls\<close>)
qed

lemma print_run [simp]: "print s msg (c, t) = (Ret (), (c\<lparr>cli_output := cli_output c @ [(s, msg)]\<rparr>, t))"
  by (simp add: print_def assign_def)

lemma print_header_run [simp]:
  "print_header (c, t) = (Ret (), (c\<lparr>cli_output := cli_output c @ [(Cout, TextOut header_text)]\<rparr>, t))"
  by (simp add: print_header_def)

lemma leave_run [simp]: "leave (c, t) = (Ret 0, (c\<lparr>g_sandbox_manager := False\<rparr>, t))"
  by (simp add: leave_def seqM_def bindM_def assign_def retM_def)

lemma main_run:
  assumes "construct_objects E (cli_start, []) = (Ret (), (cli_built, t0))"
    and "command \<noteq> ''version''" and "command \<noteq> ''--version''" and "command \<noteq> ''-v''"
  shows "main E prog (command # opts) (cli_start, []) =
    (case run_command E prog command (parse_args (prog # command # opts) 2 default_args) (cli_built, t0) of
       (Ret x, s') \<Rightarrow> seqM (destruct_objects E) (retM x) s'
     | (Throw e, s') \<Rightarrow> seqM (destruct_objects E) (seqM (print Cerr (StandardException e)) (retM 1)) s'
     | (Deadlock, s') \<Rightarrow> (Deadlock, s')
     | (Gone, s') \<Rightarrow> (Gone, s'))"
  using assms by (simp add: main_def try_block_def seqM_def bindM_def)

section \<open>Properties\<close>

text \<open>
  C35: A run of \<open>create\<close> that ends with exit code 0 has reported the sandbox as created with its
  policy active. But it has forked one process and killed this same process before it ended, every
  descriptor is closed, and it has made no call into libbpf at all: nothing was loaded into the
  kernel, and no sandbox is left.
\<close>

theorem cli_create_run:
  assumes it: "iterates E" and run: "main E prog (''create'' # opts) (cli_start, []) = (Ret 0, (st, t))"
  shows "let a = parse_args (prog # ''create'' # opts) 2 default_args in \<exists>boot pid.
    (Cout, SandboxCreated (ca_sandbox_id a) boot (ca_cpus a) (ca_memory_mb a) (ca_policy_name a)) \<in> set (cli_output st) \<and>
    forked_pids t = {#pid#} \<and> killed_pids t = {#pid#} \<and> opened_fds t = closed_fds t \<and> list_all no_bpf t"
proof -
  let ?a = "parse_args (prog # ''create'' # opts) 2 default_args"
  obtain t0 where t0: "construct_objects E (cli_start, []) = (Ret (), (cli_built, t0))"
      "sm_inv cgroup_root ''/var/run/aegis'' (cli_manager, t0)" "list_all no_bpf t0"
      "forked_pids t0 = {#}" "killed_pids t0 = {#}"
    by (rule construct_objects_run)
  obtain r sm1 t1 where cr: "create_sandbox E (cli_config ?a) (cli_manager, t0) = (r, (sm1, t1))"
    by (cases "create_sandbox E (cli_config ?a) (cli_manager, t0)") auto
  note m = run [unfolded main_run [OF t0(1), of "''create''", simplified] run_command_def]
  have r: "r = Ret Success"
    using m cr by (cases r) (auto simp: cmd_create_def cli_built_def seqM_def bindM_def on_field_def retM_def
        split: if_splits prod.splits outcome.splits)
  have ok: "sm_ok cgroup_root ''/var/run/aegis'' cli_manager" using t0(2) by (simp add: sm_inv_def)
  note D = sm_okD [OF ok]
  obtain u pid inst where u: "t1 = t0 @ u" "forked_pids u = {#pid#}" "killed_pids u = {#}"
      "m_sandboxes sm1 = [(ca_sandbox_id ?a, inst)]" "firecracker_pid inst = pid"
    by (rule create_sandbox_made [OF D(1,2) cr [unfolded r]])
      (auto simp: booted_def cli_config_def init_SandboxManager_def)
  have inv: "sm_inv cgroup_root ''/var/run/aegis'' (sm1, t1)"
    using create_sandbox_inv [OF t0(2), of E "cli_config ?a"] cr r by (simp add: wp_def)
  have "unloaded cli_manager" by (simp add: init_SandboxManager_def)
  then have un: "unloaded sm1 \<and> list_all no_bpf u"
    using emits_create_sandbox [of E "cli_config ?a"] cr u(1) by (elim emitsD) auto
  obtain v where v: "\<And>c. manager c = Some sm1 \<Longrightarrow> destruct_objects E (c, t1) = (Ret (), (c\<lparr>manager := None\<rparr>, t1 @ v))"
      "list_all no_bpf v" "opened_fds (t1 @ v) = closed_fds (t1 @ v)" "forked_pids v = {#}"
      "killed_pids v = image_mset (\<lambda>(k, inst). firecracker_pid inst) (mset (m_sandboxes sm1))"
    using destruct_objects_run [OF inv it] un by metis
  have "\<not> sm_mutex sm1" using inv by (simp add: sm_inv_def sm_ok_def)
  then have "\<exists>boot. t = t1 @ v \<and> (Cout, SandboxCreated (ca_sandbox_id ?a) boot (ca_cpus ?a) (ca_memory_mb ?a)
      (ca_policy_name ?a)) \<in> set (cli_output st)"
    using m cr r v(1)
    by (auto simp: cmd_create_def cli_built_def seqM_def bindM_def on_field_def retM_def get_metadata_def
        sm.guarded_reader)
  then show ?thesis
    unfolding Let_def using t0 u un v by auto
qed

theorem cli_create_run_witness:
  "\<exists>st t boot. main good_env ''aegis'' [''create''] (cli_start, []) = (Ret 0, (st, t)) \<and>
     (Cout, SandboxCreated ''sbx-demo'' boot 1 512 ''strict_python'') \<in> set (cli_output st) \<and>
     killed_pids t = forked_pids t \<and> list_all no_bpf t"
proof -
  have a: "parse_args [''aegis'', ''create''] 2 default_args = default_args"
    by (simp add: parse_args_pairs with_options_def)
  obtain t0 where t0: "construct_objects good_env (cli_start, []) = (Ret (), (cli_built, t0))"
      "sm_inv cgroup_root ''/var/run/aegis'' (cli_manager, t0)"
    by (rule construct_objects_run)
  then have ok: "sm_ok cgroup_root ''/var/run/aegis'' cli_manager" by (simp add: sm_inv_def)
  note D = sm_okD [OF ok]
  obtain sm1 t1 where cr: "create_sandbox good_env (cli_config default_args) (cli_manager, t0) = (Ret Success, (sm1, t1))"
    using good_sandbox_run [OF D(1,2), of "cli_config default_args" t0]
    by (auto simp: cli_config_def default_args_def init_SandboxManager_def cgs_def init_CgroupManager_def)
  have inv: "sm_inv cgroup_root ''/var/run/aegis'' (sm1, t1)"
    using create_sandbox_inv [OF t0(2), of good_env "cli_config default_args"] cr by (simp add: wp_def)
  have "unloaded cli_manager" by (simp add: init_SandboxManager_def)
  then have un: "unloaded sm1"
    using emits_create_sandbox [of good_env "cli_config default_args"] cr by (elim emitsD) auto
  obtain v where v: "\<And>c. manager c = Some sm1 \<Longrightarrow> destruct_objects good_env (c, t1) = (Ret (), (c\<lparr>manager := None\<rparr>, t1 @ v))"
    using destruct_objects_run [OF inv good_env_iterates un] by metis
  have "\<not> sm_mutex sm1" using inv by (simp add: sm_inv_def sm_ok_def)
  then have "\<exists>st t. main good_env ''aegis'' [''create''] (cli_start, []) = (Ret 0, (st, t))"
    using cr v
    by (simp add: main_run [OF t0(1)] run_command_def a cmd_create_def cli_built_def seqM_def bindM_def on_field_def
        retM_def get_metadata_def sm.guarded_reader)
  then obtain st t where run: "main good_env ''aegis'' [''create''] (cli_start, []) = (Ret 0, (st, t))" by blast
  show ?thesis
    using cli_create_run [OF good_env_iterates run] run unfolding Let_def a by (auto simp: default_args_def)
qed

text \<open>
  C36: Sandboxes do not outlive the process that created them, so the other commands never find
  one: in a fresh process \<open>exec\<close> prints an empty output with exit code -1 and still ends with 0,
  \<open>terminate\<close> ends with 1 because the name is invalid, and \<open>status\<close> finds no sandbox. After the
  failed \<open>terminate\<close> the pointer of the signal handler is left set although the manager is gone.
\<close>

theorem cli_fresh_process:
  assumes it: "iterates E"
  shows "(\<exists>st t. main E prog (''exec'' # opts) (cli_start, []) = (Ret 0, (st, t)) \<and>
      last (cli_output st) = (Cout, ExecutionOutput [] (-1) 0 False)) \<and>
    (\<exists>st t. main E prog (''terminate'' # opts) (cli_start, []) = (Ret 1, (st, t)) \<and>
      last (cli_output st) = (Cerr, TerminationFailed (status_to_string ErrInvalidSandboxID)) \<and>
      g_sandbox_manager st \<and> manager st = None) \<and>
    (\<exists>st t. main E prog (''status'' # opts) (cli_start, []) = (Ret 0, (st, t)) \<and>
      last (cli_output st) = (Cout, NoActiveSandboxes))"
proof -
  obtain t0 where t0: "construct_objects E (cli_start, []) = (Ret (), (cli_built, t0))"
      "sm_inv cgroup_root ''/var/run/aegis'' (cli_manager, t0)"
    by (rule construct_objects_run)
  have un: "unloaded cli_manager" by (simp add: init_SandboxManager_def)
  obtain v where v: "\<And>c. manager c = Some cli_manager \<Longrightarrow>
      destruct_objects E (c, t0) = (Ret (), (c\<lparr>manager := None\<rparr>, t0 @ v))"
    using destruct_objects_run [OF t0(2) it un] by metis
  have free: "\<not> sm_mutex cli_manager" and none: "m_sandboxes cli_manager = []"
    by (simp_all add: init_SandboxManager_def)
  have "execute_code E k code (cli_manager, t0) = (Ret (exec_refused k), (cli_manager, t0))" for k code
    using free none by (simp add: execute_code_def run_defs exec_refused_def Let_def new_ExecutionResult_def)
  moreover have "terminate_sandbox E k (cli_manager, t0) = (Ret ErrInvalidSandboxID, (cli_manager, t0))" for k
    using free none by (simp add: terminate_sandbox_def run_defs)
  moreover have "get_metadata k (cli_manager, t0) = (Ret None, (cli_manager, t0))" for k
    using free none by (simp add: get_metadata_def sm.guarded_reader)
  ultimately show ?thesis
    using v
    by (simp add: main_run [OF t0(1)] run_command_def cmd_exec_def cmd_terminate_def cmd_status_def cli_built_def
        seqM_def bindM_def on_field_def retM_def exec_refused_def new_ExecutionResult_def)
qed

theorem cli_fresh_process_witness:
  "\<exists>st t. main good_env ''aegis'' [''terminate'', ''--id'', ''sbx-1''] (cli_start, []) = (Ret 1, (st, t)) \<and>
     g_sandbox_manager st \<and> manager st = None"
  using cli_fresh_process [OF good_env_iterates, of "''aegis''" "[''--id'', ''sbx-1'']"] by blast

end
