(* ===== verification/BPF_Objects.thy ===== *)
theory BPF_Objects
  imports Kernel_Probes EBPF_Loader
begin

text \<open>
  The loader on the objects this repository builds. Each of the three BPF sources becomes an object
  with its own maps, and the loader works on one object at a time. What libbpf and the kernel
  promise of an object is the hypothesis \<open>object_works\<close>: the maps that are declared, and no
  others, are found under their names; an array refuses a key beyond its last entry; a hash map that
  has room takes every key.
\<close>

section \<open>Objects\<close>

fun key_bytes :: "bpf_key \<Rightarrow> nat" where
  "key_bytes (K64 k) = 8"
| "key_bytes (K32 k) = 4"

fun key_index :: "bpf_key \<Rightarrow> nat" where
  "key_index (K64 k) = unat k"
| "key_index (K32 k) = unat k"

definition map_accepts :: "bpf_map_def \<Rightarrow> bpf_key \<Rightarrow> bool" where
  "map_accepts m k \<longleftrightarrow> (map_type m = BPF_MAP_TYPE_ARRAY \<longrightarrow> key_index k < max_entries m)"

definition declared :: "bpf_source \<Rightarrow> string \<Rightarrow> bool" where
  "declared src n \<longleftrightarrow> n \<in> map_name ` set (object_maps src)"

definition object_works :: "env \<Rightarrow> nat \<Rightarrow> bpf_source \<Rightarrow> (string \<Rightarrow> int) \<Rightarrow> bool" where
  "object_works E ob src fd \<longleftrightarrow>
     inj_on fd (map_name ` set (object_maps src)) \<and> (\<forall>n. declared src n \<longrightarrow> fd n \<ge> 0) \<and>
     (\<forall>t n. e_find_map E t ob n = (if declared src n then Some (fd n) else None)) \<and>
     (\<forall>t m k v. m \<in> set (object_maps src) \<and> key_bytes k = key_size m \<longrightarrow>
        (e_map_update E t (fd (map_name m)) k v = 0 \<longleftrightarrow> map_accepts m k))"

lemma declared_names:
  "declared src ''aegis_monitored_cgroups'' \<longleftrightarrow> src = Sys_Filter"
  "declared src ''aegis_syscall_policy'' \<longleftrightarrow> src = Sys_Filter"
  "declared src ''aegis_blocked_ips'' \<longleftrightarrow> src = Net_Filter"
  "declared src ''aegis_monitored_cgroups_proc'' \<longleftrightarrow> src = Process_Monitor"
  by (cases src; simp add: declared_def map_defs)+

lemma object_updates:
  assumes "object_works E ob src fd"
  shows "src = Sys_Filter \<Longrightarrow> e_map_update E t (fd ''aegis_monitored_cgroups'') (K64 cg) v = 0"
    and "src = Sys_Filter \<Longrightarrow> e_map_update E t (fd ''aegis_syscall_policy'') (K32 nr) v = 0 \<longleftrightarrow> unat nr < 512"
    and "src = Net_Filter \<Longrightarrow> e_map_update E t (fd ''aegis_blocked_ips'') (K32 nr) v = 0"
    and "src = Process_Monitor \<Longrightarrow> e_map_update E t (fd ''aegis_monitored_cgroups_proc'') (K64 cg) v = 0"
proof -
  have up: "e_map_update E t (fd (map_name m)) k v = 0 \<longleftrightarrow> map_accepts m k"
    if "m \<in> set (object_maps src)" "key_bytes k = key_size m" for m k
    using assms that unfolding object_works_def by blast
  show "src = Sys_Filter \<Longrightarrow> e_map_update E t (fd ''aegis_monitored_cgroups'') (K64 cg) v = 0"
    using up [of aegis_monitored_cgroups_map "K64 cg"] by (simp add: map_defs map_accepts_def)
  show "src = Sys_Filter \<Longrightarrow> e_map_update E t (fd ''aegis_syscall_policy'') (K32 nr) v = 0 \<longleftrightarrow> unat nr < 512"
    using up [of aegis_syscall_policy_map "K32 nr"] by (simp add: map_defs map_accepts_def)
  show "src = Net_Filter \<Longrightarrow> e_map_update E t (fd ''aegis_blocked_ips'') (K32 nr) v = 0"
    using up [of aegis_blocked_ips_map "K32 nr"] by (simp add: map_defs map_accepts_def)
  show "src = Process_Monitor \<Longrightarrow> e_map_update E t (fd ''aegis_monitored_cgroups_proc'') (K64 cg) v = 0"
    using up [of aegis_monitored_cgroups_proc_map "K64 cg"] by (simp add: map_defs map_accepts_def)
qed

section \<open>The setters on an object\<close>

text \<open>The calls of a run store the value under these pairs of descriptor and key, and nothing else.\<close>

definition stores :: "trace \<Rightarrow> u8 \<Rightarrow> (int \<times> bpf_key) set \<Rightarrow> bool" where
  "stores u v S \<longleftrightarrow> (\<forall>fd k x. map_value fd k u x = (if (fd, k) \<in> S then Some v else x))"

lemma stores_append: "stores t v S \<Longrightarrow> stores u v T \<Longrightarrow> stores (t @ u) v (S \<union> T)"
  by (auto simp: stores_def)

lemma stores_Nil [simp]: "stores [] v {}"
  by (simp add: stores_def)

text \<open>The map in which an object keeps the monitored cgroups, where it has one.\<close>

fun cgroup_map_of :: "bpf_source \<Rightarrow> string" where
  "cgroup_map_of Process_Monitor = ''aegis_monitored_cgroups_proc''"
| "cgroup_map_of _ = ''aegis_monitored_cgroups''"

text \<open>A call of the loader passes a key of the size the map declares, for a value of one byte.\<close>

definition typed_update :: "bpf_source \<Rightarrow> (string \<Rightarrow> int) \<Rightarrow> event \<Rightarrow> bool" where
  "typed_update src fd e \<longleftrightarrow> (\<forall>d k v err. e = MapUpdate d k v err \<longrightarrow>
     (\<exists>m \<in> set (object_maps src). d = fd (map_name m) \<and> key_bytes k = key_size m \<and> value_size m = 1))"

definition setter_run ::
    "bpf_source \<Rightarrow> (string \<Rightarrow> int) \<Rightarrow> (EBPFLoader, Status) action \<Rightarrow> EBPFLoader \<Rightarrow> trace \<Rightarrow> bool \<Rightarrow> int \<times> bpf_key \<Rightarrow> u8 \<Rightarrow> bool" where
  "setter_run src fd m el t ok cell v \<longleftrightarrow>
     (\<exists>u. m (el, t) = (Ret (if ok then Success else ErrEBPFProbeLoadFailed), (el, t @ u)) \<and>
        stores u v (if ok then {cell} else {}) \<and> list_all (typed_update src fd) u)"

lemma typed_update_simps [simp]:
  "typed_update src fd (FindMap ob n r)"
  "typed_update Sys_Filter fd (MapUpdate (fd ''aegis_monitored_cgroups'') (K64 cg) v err)"
  "typed_update Sys_Filter fd (MapUpdate (fd ''aegis_syscall_policy'') (K32 nr) v err)"
  "typed_update Net_Filter fd (MapUpdate (fd ''aegis_blocked_ips'') (K32 nr) v err)"
  "typed_update Process_Monitor fd (MapUpdate (fd ''aegis_monitored_cgroups_proc'') (K64 cg) v err)"
  by (simp_all add: typed_update_def map_defs)

lemma setter_runs:
  assumes works: "object_works E ob src fd" and free: "\<not> el_mutex el" and ob: "m_bpf_obj el = Some ob"
  shows "setter_run src fd (set_cgroup_monitored E cg b) el t (src \<noteq> Net_Filter) (fd (cgroup_map_of src), K64 cg) (if b then 1 else 0)"
    and "setter_run src fd (set_syscall_policy E nr v) el t (src = Sys_Filter \<and> unat nr < 512) (fd ''aegis_syscall_policy'', K32 nr) v"
    and "setter_run src fd (set_blocked_ip E ip b) el t (src = Net_Filter) (fd ''aegis_blocked_ips'', K32 ip) (if b then 1 else 0)"
proof -
  have find: "e_find_map E t ob n = (if declared src n then Some (fd n) else None)" and pos: "declared src n \<Longrightarrow> fd n \<ge> 0" for t n
    using works by (auto simp: object_works_def)
  have mon: "fd ''aegis_monitored_cgroups'' \<ge> 0" if "src = Sys_Filter" using pos that by (simp add: declared_names)
  have pol: "fd ''aegis_syscall_policy'' \<ge> 0" if "src = Sys_Filter" using pos that by (simp add: declared_names)
  have ips: "fd ''aegis_blocked_ips'' \<ge> 0" if "src = Net_Filter" using pos that by (simp add: declared_names)
  have proc: "fd ''aegis_monitored_cgroups_proc'' \<ge> 0" if "src = Process_Monitor" using pos that by (simp add: declared_names)
  note run = setter_run_def stores_def get_map_fd_def bpf_map_update_elem_def guarded_def lock_guard_def
    bindM_def self_def sys_def retM_def c_str_def find declared_names free ob
  show "setter_run src fd (set_cgroup_monitored E cg b) el t (src \<noteq> Net_Filter) (fd (cgroup_map_of src), K64 cg) (if b then 1 else 0)"
    using mon proc object_updates(1,4) [OF works]
    by (cases src) (auto simp: set_cgroup_monitored_def run)
  show "setter_run src fd (set_syscall_policy E nr v) el t (src = Sys_Filter \<and> unat nr < 512) (fd ''aegis_syscall_policy'', K32 nr) v"
    using pol object_updates(2) [OF works]
    by (cases src) (auto simp: set_syscall_policy_def run)
  show "setter_run src fd (set_blocked_ip E ip b) el t (src = Net_Filter) (fd ''aegis_blocked_ips'', K32 ip) (if b then 1 else 0)"
    using ips object_updates(3) [OF works]
    by (cases src) (auto simp: set_blocked_ip_def run)
qed

lemma good_objects:
  "object_works good_env 1 Sys_Filter
     (\<lambda>n. if n = ''aegis_monitored_cgroups'' then 10 else if n = ''aegis_syscall_policy'' then 11 else 12)"
  "object_works good_env 2 Net_Filter (\<lambda>n. if n = ''aegis_blocked_ips'' then 20 else 21)"
  by (auto simp: object_works_def declared_def map_defs map_accepts_def good_env_def inj_on_def split: bpf_key.splits)



end
