(* ===== verification/Enforcement.thy ===== *)
theory Enforcement
  imports Sandbox_Effects BPF_Objects
begin

text \<open>
  From a policy to the kernel: what a successful creation leaves in the BPF maps, read off the
  trace, when the loaded object has the maps and their updates succeed. The root theory puts this
  together with the verdicts of the kernel programs.
\<close>

section \<open>Inverting runs\<close>

lemma bindM_Ret:
  "bindM m f s = (Ret y, s') \<longleftrightarrow> (\<exists>x s1. m s = (Ret x, s1) \<and> f x s1 = (Ret y, s'))"
  by (auto simp: bindM_def split: prod.splits outcome.splits)

lemma seqM_Ret:
  "seqM m n s = (Ret y, s') \<longleftrightarrow> (\<exists>x s1. m s = (Ret x, s1) \<and> n s1 = (Ret y, s'))"
  by (simp add: seqM_def bindM_Ret)

lemma sm_locked_Ret:
  "sm_locked body (sm, t) = (Ret y, (sm', t')) \<longleftrightarrow>
    \<not> sm_mutex sm \<and> (\<exists>ob. body (sm\<lparr>sm_mutex := True\<rparr>, t) = (Ret y, (ob, t')) \<and> sm' = ob\<lparr>sm_mutex := False\<rparr>)"
  by (auto simp: guarded_def lock_guard_def split: prod.splits outcome.splits)

lemma emits_same:
  assumes "emits ((=) ob) no_bpf m" and "m (ob, t) = (r, s)"
  obtains u where "s = (ob, t @ u)" and "list_all no_bpf u"
proof -
  obtain ob' t' where s: "s = (ob', t')" by (cases s)
  show ?thesis by (rule emitsD [OF assms(1) refl assms(2) [unfolded s]]) (use that s in blast)
qed

section \<open>The maps after the policy was applied\<close>

text \<open>The kernel's view of the maps: the last value that was stored, on top of the first contents.\<close>

abbreviation cgroup_map :: "int \<Rightarrow> trace \<Rightarrow> u64 \<rightharpoonup> u8" where
  "cgroup_map fd t \<equiv> (\<lambda>k. map_value fd (K64 k) t None)"

abbreviation word_map :: "int \<Rightarrow> trace \<Rightarrow> u32 \<rightharpoonup> u8" where
  "word_map fd t \<equiv> (\<lambda>k. map_value fd (K32 k) t None)"

text \<open>The entries that are set to 1 for a sandbox, by the source of the loaded object.\<close>

definition rule_cells :: "bpf_source \<Rightarrow> (string \<Rightarrow> int) \<Rightarrow> u32 set \<Rightarrow> (int \<times> bpf_key) set" where
  "rule_cells src fd nrs =
     (if src = Sys_Filter then (\<lambda>nr. (fd ''aegis_syscall_policy'', K32 nr)) ` {nr \<in> nrs. unat nr < 512} else {})"

definition policy_cells :: "bpf_source \<Rightarrow> (string \<Rightarrow> int) \<Rightarrow> u64 \<Rightarrow> SecurityPolicy \<Rightarrow> (int \<times> bpf_key) set" where
  "policy_cells src fd cg p =
     (if src \<noteq> Net_Filter then {(fd (cgroup_map_of src), K64 cg)} else {}) \<union>
     rule_cells src fd (set (blocked_syscalls (syscall_rule p))) \<union>
     (if src = Net_Filter \<and> block_cloud_metadata (network_rule p) then {(fd ''aegis_blocked_ips'', K32 metadata_ip)} else {})"

lemma on_loader_run:
  assumes "setter_run src fd m el t ok cell v" and "m_ebpf_loader sm = Some el"
  obtains st u where "on_loader m (sm, t) = (Ret st, (sm, t @ u))" and "stores u v (if ok then {cell} else {})"
  using assms that by (auto simp: setter_run_def on_field_def same_loader)

lemma rules_run:
  assumes "object_works E ob src fd" and "m_ebpf_loader sm = Some el" and "\<not> el_mutex el" and "m_bpf_obj el = Some ob"
  shows "\<exists>u. forM nrs (\<lambda>nr. on_loader (set_syscall_policy E nr 1)) (sm, t) = (Ret (), (sm, t @ u)) \<and>
    stores u 1 (rule_cells src fd (set nrs))"
proof (induction nrs arbitrary: t)
  case Nil
  then show ?case by (auto simp: retM_def rule_cells_def intro: exI [of _ "[]"])
next
  case (Cons nr nrs)
  obtain st u where u: "on_loader (set_syscall_policy E nr 1) (sm, t) = (Ret st, (sm, t @ u))"
    and su: "stores u 1 (if src = Sys_Filter \<and> unat nr < 512 then {(fd ''aegis_syscall_policy'', K32 nr)} else {})"
    by (rule on_loader_run [OF setter_runs(2) [OF assms(1,3,4)] assms(2)])
  obtain v where v: "forM nrs (\<lambda>nr. on_loader (set_syscall_policy E nr 1)) (sm, t @ u) = (Ret (), (sm, (t @ u) @ v))"
    and sv: "stores v 1 (rule_cells src fd (set nrs))" using Cons.IH by blast
  have "(if src = Sys_Filter \<and> unat nr < 512 then {(fd ''aegis_syscall_policy'', K32 nr)} else {}) \<union> rule_cells src fd (set nrs) =
      rule_cells src fd (set (nr # nrs))" by (auto simp: rule_cells_def)
  with stores_append [OF su sv] have "stores (u @ v) 1 (rule_cells src fd (set (nr # nrs)))" by simp
  then show ?case using u v by (intro exI [of _ "u @ v"]) (simp add: bindM_def)
qed

lemma push_policy_run:
  assumes "object_works E ob src fd" and "iterates E" and "m_ebpf_loader sm = Some el" and "\<not> el_mutex el" and "m_bpf_obj el = Some ob"
  shows "\<exists>u. push_policy E p (sm, t) = (Ret (), (sm, t @ u)) \<and> stores u 1 (rule_cells src fd (set (blocked_syscalls (syscall_rule p))) \<union>
    (if src = Net_Filter \<and> block_cloud_metadata (network_rule p) then {(fd ''aegis_blocked_ips'', K32 metadata_ip)} else {}))"
proof -
  let ?nrs = "e_iter_u32 E t (blocked_syscalls (syscall_rule p))"
  obtain u where u: "forM ?nrs (\<lambda>nr. on_loader (set_syscall_policy E nr 1)) (sm, t) = (Ret (), (sm, t @ u))"
    "stores u 1 (rule_cells src fd (set ?nrs))" using rules_run [OF assms(1,3-5)] by blast
  have nrs: "set ?nrs = set (blocked_syscalls (syscall_rule p))" by (rule iterates_set(2) [OF assms(2)])
  obtain st v where "on_loader (set_blocked_ip E metadata_ip True) (sm, t @ u) = (Ret st, (sm, (t @ u) @ v))"
    "stores v (if True then 1 else 0) (if src = Net_Filter then {(fd ''aegis_blocked_ips'', K32 metadata_ip)} else {})"
    by (rule on_loader_run [OF setter_runs(3) [OF assms(1,4,5)] assms(3)])
  then show ?thesis
    using u nrs stores_append [OF u(2), of v]
    by (cases "block_cloud_metadata (network_rule p)")
      (auto simp: push_policy_def bindM_def seqM_def getM_def retM_def)
qed

lemma apply_ebpf_run:
  assumes works: "object_works E ob src fd" and it: "iterates E" and ok: "parts_ok root sm"
    and el: "m_ebpf_loader sm = Some el" "m_bpf_obj el = Some ob"
    and pe: "m_policy_engine sm = Some pe" "policies pe (security_policy_name (si_config inst)) = Some p"
    and info: "map_of (cgs sm) (sc_sandbox_id (si_config inst)) = Some info"
  obtains u where "apply_ebpf_policies E inst (sm, t) = (Ret Success, (sm, t @ u))"
    and "stores u 1 (policy_cells src fd (cgroup_id info) p)"
proof -
  have free: "\<not> el_mutex el" "\<not> pe_mutex pe" and cg: "cg_ok root (m_cgroup_manager sm)"
    using ok el pe by (simp_all add: parts_ok_def)
  have id: "cgroup_id info \<noteq> 0" using cg_okD(4) [OF cg] info by (simp add: cgs_def cg_entry_ok_def)
  obtain st u where u: "on_loader (set_cgroup_monitored E (cgroup_id info) True) (sm, t) = (Ret st, (sm, t @ u))"
    "stores u (if True then 1 else 0) (if src \<noteq> Net_Filter then {(fd (cgroup_map_of src), K64 (cgroup_id info))} else {})"
    by (rule on_loader_run [OF setter_runs(1) [OF works free(1) el(2)] el(1)])
  obtain v where v: "push_policy E p (sm, t @ u) = (Ret (), (sm, (t @ u) @ v))"
    "stores v 1 (rule_cells src fd (set (blocked_syscalls (syscall_rule p))) \<union>
      (if src = Net_Filter \<and> block_cloud_metadata (network_rule p) then {(fd ''aegis_blocked_ips'', K32 metadata_ip)} else {}))"
    using push_policy_run [OF works it el(1) free(1) el(2)] by blast
  have "on_cgroups (get_cgroup_id (sc_sandbox_id (si_config inst))) (sm, t) = (Ret (cgroup_id info), (sm, t))"
    using info by (simp add: on_field_def get_cgroup_id_run [OF cg_okD(1) [OF cg]] cgs_def)
  moreover have "on_engine (get_policy (security_policy_name (si_config inst))) (sm, t @ u) = (Ret (Some p), (sm, t @ u))"
    using pe by (simp add: on_field_def get_policy_run [OF free(2)] same_engine)
  ultimately have "apply_ebpf_policies E inst (sm, t) = (Ret Success, (sm, t @ u @ v))"
    using el pe id u v by (simp add: apply_ebpf_policies_def bindM_def seqM_def self_def retM_def)
  moreover have "stores (u @ v) 1 (policy_cells src fd (cgroup_id info) p)"
    using stores_append [OF u(2) [unfolded if_True] v(2)] by (simp add: policy_cells_def Un_assoc)
  ultimately show ?thesis by (rule that)
qed

lemma apply_ebpf_known:
  assumes ok: "parts_ok root sm" and "m_ebpf_loader sm \<noteq> None" and "m_policy_engine sm \<noteq> None"
    and run: "apply_ebpf_policies E inst (sm, t) = (Ret Success, s)"
  shows "map_of (cgs sm) (sc_sandbox_id (si_config inst)) \<noteq> None"
proof
  assume "map_of (cgs sm) (sc_sandbox_id (si_config inst)) = None"
  moreover have "\<not> cm_mutex (m_cgroup_manager sm)" using ok by (simp add: parts_ok_def cg_ok_def)
  ultimately have "on_cgroups (get_cgroup_id (sc_sandbox_id (si_config inst))) (sm, t) = (Ret 0, (sm, t))"
    by (simp add: on_field_def get_cgroup_id_run cgs_def)
  then show False
    using run assms(2,3) by (simp add: apply_ebpf_policies_def bindM_def self_def retM_def)
qed

section \<open>The policy step of a creation\<close>

lemma instance_config:
  "setup_tap_interface E inst s = (Ret (st, inst'), s') \<Longrightarrow> si_config inst' = si_config inst"
  "spawn_firecracker_process E inst s = (Ret (st, inst'), s') \<Longrightarrow> si_config inst' = si_config inst"
  by (auto simp: setup_tap_interface_def spawn_firecracker_process_def exec_firecracker_def bindM_Ret seqM_Ret retM_def goneM_def Let_def
      split: if_splits)

lemma attach_on_cgroups:
  assumes "parts_ok root sm" and "on_cgroups (attach_pid E k pid) (sm, t) = (r, s)"
  obtains u where "s = (sm, t @ u)" and "list_all no_bpf u"
proof -
  have free: "\<not> cm_mutex (m_cgroup_manager sm)" using assms(1) by (simp add: parts_ok_def cg_ok_def)
  have "wp (attach_pid E k pid) (\<lambda>r (cm, t'). cm = m_cgroup_manager sm) (m_cgroup_manager sm, t)"
    by (rule attach_pid_rule [OF free]) auto
  then have "fst s = sm" using assms(2) by (auto simp: wp_def on_field_def split: prod.splits)
  moreover have "emits always no_bpf (on_cgroups (attach_pid E k pid) :: (SandboxManager, Status) action)"
    by (rule emits_on_cgroups) (simp_all add: emits_cgroups)
  ultimately show ?thesis
    using assms(2) that by (cases s) (auto elim: emitsD)
qed

lemma finish_create_apply:
  assumes ok: "parts_ok root sm" and run: "finish_create E config inst c0 (sm, t) = (Ret Success, (sm', t'))"
  obtains u sm2 t2 c where "list_all no_bpf u" and "apply_ebpf_policies E inst (sm, t @ u) = (Ret Success, (sm2, t2))"
    and "t' = t2 @ [Clock c]" and "cgs sm' = cgs sm2"
proof -
  let ?snap = "if use_snapshot_restore config then fs_exists E (snapshot_dir_path config) else retM False"
  let ?api = "\<lambda>b. if b then restore_firecracker_snapshot E inst else configure_firecracker_api E inst"
  let ?final = "\<lambda>st. if st \<noteq> Success then seqM (terminate_sandbox E (sc_sandbox_id config)) (retM st)
     else bindM (now E) (\<lambda>end_time.
          seqM (assign (\<lambda>sm. sm\<lparr>m_sandboxes := AList.update (sc_sandbox_id config)
                 (inst\<lparr>si_metadata := (si_metadata inst)\<lparr>md_boot_time := end_time - c0, md_state := Running\<rparr>,
                       is_active := True\<rparr>)
                 (m_sandboxes sm)\<rparr>))
               (retM Success))"
  let ?rest = "\<lambda>st. if st \<noteq> Success then seqM (terminate_sandbox E (sc_sandbox_id config)) (retM st)
     else bindM (apply_ebpf_policies E inst) ?final"
  from run [unfolded finish_create_def seqM_Ret [of "on_cgroups m" for m] bindM_Ret [of ?snap] bindM_Ret [of "?api b" for b]]
  obtain r1 s1 b s2 st s3 where steps: "on_cgroups (attach_pid E (sc_sandbox_id config) (firecracker_pid inst)) (sm, t) = (Ret r1, s1)"
      "?snap s1 = (Ret b, s2)" "?api b s2 = (Ret st, s3)" and rest: "?rest st s3 = (Ret Success, (sm', t'))"
    by blast
  have st: "st = Success" using rest by (auto simp: seqM_Ret retM_def split: if_splits)
  obtain st2 sm2 t2 where apply': "apply_ebpf_policies E inst s3 = (Ret st2, (sm2, t2))"
    and last: "?final st2 (sm2, t2) = (Ret Success, (sm', t'))"
    using rest st by (auto simp: bindM_Ret)
  have st2: "st2 = Success" using last by (auto simp: seqM_Ret retM_def split: if_splits)
  have t': "\<exists>c. t' = t2 @ [Clock c]" and sm': "cgs sm' = cgs sm2"
    using last st2 by (auto simp: seqM_Ret bindM_Ret retM_def now_def sys_def assign_def cgs_def)
  obtain u1 where s1: "s1 = (sm, t @ u1)" "list_all no_bpf u1"
    by (rule attach_on_cgroups [OF ok steps(1)])
  have "emits ((=) sm) no_bpf ?snap" by (intro emits_intros)
  then obtain u2 where s2: "s2 = (sm, (t @ u1) @ u2)" "list_all no_bpf u2"
    using steps(2) unfolding s1 by (rule emits_same)
  have "emits ((=) sm) no_bpf (?api b)" by (intro emits_intros)
  then obtain u3 where s3: "s3 = (sm, ((t @ u1) @ u2) @ u3)" "list_all no_bpf u3"
    using steps(3) unfolding s2 by (rule emits_same)
  show ?thesis
    using that [of "u1 @ u2 @ u3"] t' sm' apply' st2 s1 s2 s3 by auto
qed

lemma boot_sandbox_finish:
  assumes run: "boot_sandbox E config dir inst c0 (sm, t) = (Ret Success, s')"
  obtains u inst' where "list_all no_bpf u" and "si_config inst' = si_config inst"
    and "finish_create E config inst' c0 (sm, t @ u) = (Ret Success, s')"
proof -
  obtain i1 s1 i2 s2 where steps: "setup_tap_interface E inst (sm, t) = (Ret (Success, i1), s1)"
      "spawn_firecracker_process E i1 s1 = (Ret (Success, i2), s2)" "finish_create E config i2 c0 s2 = (Ret Success, s')"
    using run unfolding boot_sandbox_def
    by (auto simp: seqM_Ret bindM_Ret retM_def split: if_splits)
  have "emits ((=) sm) no_bpf (setup_tap_interface E inst)" by (intro emits_intros)
  then obtain u1 where s1: "s1 = (sm, t @ u1)" "list_all no_bpf u1"
    using steps(1) by (rule emits_same)
  have "emits ((=) sm) no_bpf (spawn_firecracker_process E i1)" by (intro emits_intros)
  then obtain u2 where s2: "s2 = (sm, (t @ u1) @ u2)" "list_all no_bpf u2"
    using steps(2) unfolding s1 by (rule emits_same)
  show ?thesis
    using that [of "u1 @ u2" i2] steps s1 s2 instance_config by auto
qed

lemma create_cgroup_parts:
  assumes ok: "parts_ok root sm" and run: "on_cgroups (create_cgroup E k l) (sm, t) = (r, (sm', t'))"
  shows "parts_ok root sm'" and "m_ebpf_loader sm' = m_ebpf_loader sm" and "m_policy_engine sm' = m_policy_engine sm"
    and "\<exists>u. t' = t @ u \<and> list_all no_bpf u"
proof -
  have cg: "cg_ok root (m_cgroup_manager sm)" using ok by (simp add: parts_ok_def)
  have "wp (create_cgroup E k l) (\<lambda>r (cm, t'). cg_ok root cm) (m_cgroup_manager sm, t)"
    by (rule create_cgroup_rule [OF cg_okD(1) [OF cg]])
      (use cg cg_okD(2) [OF cg] in \<open>auto intro!: cg_ok_insert simp: cg_entry_ok_def make_info_def\<close>)
  then show "parts_ok root sm'" and "m_ebpf_loader sm' = m_ebpf_loader sm" and "m_policy_engine sm' = m_policy_engine sm"
    using run ok by (auto simp: wp_def on_field_def parts_ok_def split: prod.splits)
  have "emits always no_bpf (on_cgroups (create_cgroup E k l) :: (SandboxManager, Status) action)"
    by (rule emits_on_cgroups) (simp_all add: emits_cgroups)
  then show "\<exists>u. t' = t @ u \<and> list_all no_bpf u" using run by (auto elim: emitsD)
qed

lemma call_runs:
  "now E (ob, t) = (Ret (e_clock E t), (ob, t @ [Clock (e_clock E t)]))"
  "fs_create_directories E p (ob, t) =
    (Ret (e_create_directories E t p), (ob, t @ [CreateDirectories p (e_create_directories E t p)]))"
  "self f (ob, t) = (Ret (f ob), (ob, t))"
  by (simp_all add: now_def fs_create_directories_def sys_def self_def)

lemma create_sandbox_apply:
  assumes ok: "parts_ok root sm" and run: "create_sandbox E config (sm, t) = (Ret Success, (sm', t'))"
  obtains inst sm1 u sm2 t2 c where "list_all no_bpf u"
    and "apply_ebpf_policies E inst (sm1, t @ u) = (Ret Success, (sm2, t2))" and "t' = t2 @ [Clock c]"
    and "si_config inst = config" and "m_ebpf_loader sm1 = m_ebpf_loader sm" and "m_policy_engine sm1 = m_policy_engine sm"
    and "parts_ok root sm1" and "cgs sm' = cgs sm2"
proof -
  let ?dir = "path_append (m_base_runtime_dir sm) (sc_sandbox_id config)"
  let ?sm = "sm\<lparr>sm_mutex := True\<rparr>"
  let ?boot = "\<lambda>st c c0. if st \<noteq> Success then seqM (fs_remove_all ?dir) (retM st)
     else boot_sandbox E config ?dir (init_instance config ?dir c) c0"
  obtain p st sm1 t1 c c0 sm2 where p: "list_all no_bpf p"
    and cg: "on_cgroups (create_cgroup E (sc_sandbox_id config) (resource_limits config)) (?sm, t @ p) = (Ret st, (sm1, t1))"
    and boot: "?boot st c c0 (sm1, t1) = (Ret Success, (sm2, t'))" and sm': "sm' = sm2\<lparr>sm_mutex := False\<rparr>"
  proof -
    let ?c0 = "e_clock E t"
    let ?d = "e_create_directories E (t @ [Clock ?c0]) ?dir"
    let ?p = "[Clock ?c0, CreateDirectories ?dir ?d, Clock (e_clock E (t @ [Clock ?c0, CreateDirectories ?dir ?d]))]"
    show ?thesis
      using run that [of ?p]
      by (auto simp: create_sandbox_def sm_locked_Ret bindM_Ret seqM_Ret [of "fs_create_directories E d" for d]
          call_runs retM_def split: if_splits)
  qed
  have st: "st = Success" using boot by (auto simp: seqM_Ret retM_def split: if_splits)
  note parts = create_cgroup_parts [OF _ cg, of root]
  have ok1: "parts_ok root sm1" using parts(1) ok by simp
  obtain u where u: "t1 = (t @ p) @ u" "list_all no_bpf u" using parts(4) ok by auto
  from boot st have "boot_sandbox E config ?dir (init_instance config ?dir c) c0 (sm1, t1) = (Ret Success, (sm2, t'))" by simp
  then obtain v inst where v: "list_all no_bpf v" "si_config inst = config"
    and fin: "finish_create E config inst c0 (sm1, t1 @ v) = (Ret Success, (sm2, t'))"
    by (rule boot_sandbox_finish) (simp add: init_instance_def)
  obtain w sm3 t3 c where "list_all no_bpf w" "apply_ebpf_policies E inst (sm1, (t1 @ v) @ w) = (Ret Success, (sm3, t3))"
    "t' = t3 @ [Clock c]" "cgs sm2 = cgs sm3"
    by (rule finish_create_apply [OF ok1 fin])
  then show ?thesis
    using that [of "p @ u @ v @ w" inst sm1 sm3 t3 c] p u v sm' ok1 parts(2,3) ok by (simp add: cgs_def)
qed


lemma creation_stores:
  assumes "object_works E ob src fd" and "iterates E" and "parts_ok root sm"
    and "m_ebpf_loader sm = Some el" and "m_bpf_obj el = Some ob"
    and "m_policy_engine sm = Some pe" and "policies pe (security_policy_name config) = Some p"
    and "create_sandbox E config (sm, t) = (Ret Success, (sm', t'))"
  obtains info where "map_of (cgs sm') (sc_sandbox_id config) = Some info"
    and "\<forall>d k x. map_value d k t' x = (if (d, k) \<in> policy_cells src fd (cgroup_id info) p then Some 1 else map_value d k t x)"
proof -
  obtain inst sm1 u sm2 t2 c where u: "list_all no_bpf u" and app: "apply_ebpf_policies E inst (sm1, t @ u) = (Ret Success, (sm2, t2))"
    and t': "t' = t2 @ [Clock c]" and inst: "si_config inst = config" and cgs: "cgs sm' = cgs sm2"
    and sm1: "m_ebpf_loader sm1 = m_ebpf_loader sm" "m_policy_engine sm1 = m_policy_engine sm" "parts_ok root sm1"
    by (rule create_sandbox_apply [OF assms(3,8)])
  obtain info where info: "map_of (cgs sm1) (sc_sandbox_id (si_config inst)) = Some info"
    using apply_ebpf_known [OF sm1(3) _ _ app] sm1 assms(4,6) by auto
  have l: "m_ebpf_loader sm1 = Some el" and e: "m_policy_engine sm1 = Some pe"
    and pp: "policies pe (security_policy_name (si_config inst)) = Some p"
    using assms(4,6,7) sm1 inst by simp_all
  obtain v where "apply_ebpf_policies E inst (sm1, t @ u) = (Ret Success, (sm1, (t @ u) @ v))"
    and st: "stores v 1 (policy_cells src fd (cgroup_id info) p)"
    by (rule apply_ebpf_run [OF assms(1,2) sm1(3) l assms(5) e pp info, of "t @ u"])
  with app have sm2: "sm2 = sm1" "t2 = (t @ u) @ v" by simp_all
  have "map_value d k t' x = map_value d k v (map_value d k t x)" for d k x
    using no_bpf_maps [OF u, of d k] by (simp add: t' sm2 map_write_def)
  then show ?thesis
    using that [of info] info inst cgs sm2 st by (simp add: stores_def)
qed

end
