(* ===== verification/Go_JSON.thy ===== *)
theory Go_JSON
  imports Aegis_Prelude
begin

text \<open>
  The part of Go's standard library through which the guest agent talks: UTF-8, string literals,
  and the stream decoder and encoder of \<open>encoding/json\<close>. A Go string is its list of bytes.

  The decoder is the byte-driven scanner of the library. It is a state and a stack of the arrays and
  objects that are open; each byte gives a new state, an error, or the end of the value. So one
  recursion over the input says what is decoded, which byte is at fault, and when the decoder
  waits for bytes that have not come. The encoder prints what the decoder reads.
\<close>

section \<open>Bytes and runes\<close>

definition ord :: "char \<Rightarrow> nat" where
  "ord c = of_char c"

abbreviation quote_mark :: char where
  "quote_mark \<equiv> CHR 0x22"

abbreviation backslash :: char where
  "backslash \<equiv> CHR 0x5C"

definition hex_digit :: "nat \<Rightarrow> char" where
  "hex_digit n = (if n < 10 then char_of (48 + n) else char_of (87 + n))"

definition hex_val :: "char \<Rightarrow> nat" where
  "hex_val c = (if ord c \<le> 57 then ord c - 48 else if ord c \<le> 70 then ord c - 55 else ord c - 87)"

definition is_hex :: "char \<Rightarrow> bool" where
  "is_hex c \<longleftrightarrow> 48 \<le> ord c \<and> ord c \<le> 57 \<or> 65 \<le> ord c \<and> ord c \<le> 70 \<or> 97 \<le> ord c \<and> ord c \<le> 102"

fun hex_num :: "string \<Rightarrow> nat" where
  "hex_num s = foldl (\<lambda>a c. 16 * a + hex_val c) 0 s"

text \<open>The ranges of the bytes that may follow the first byte of a rune (\<open>unicode/utf8\<close>).\<close>

definition rune_ranges :: "nat \<Rightarrow> (nat \<times> nat) list option" where
  "rune_ranges b =
     (if b < 0x80 then Some []
      else if b < 0xC2 then None
      else if b < 0xE0 then Some [(0x80, 0xBF)]
      else if b = 0xE0 then Some [(0xA0, 0xBF), (0x80, 0xBF)]
      else if b = 0xED then Some [(0x80, 0x9F), (0x80, 0xBF)]
      else if b < 0xF0 then Some [(0x80, 0xBF), (0x80, 0xBF)]
      else if b = 0xF0 then Some [(0x90, 0xBF), (0x80, 0xBF), (0x80, 0xBF)]
      else if b < 0xF4 then Some [(0x80, 0xBF), (0x80, 0xBF), (0x80, 0xBF)]
      else if b = 0xF4 then Some [(0x80, 0x8F), (0x80, 0xBF), (0x80, 0xBF)]
      else None)"

fun in_ranges :: "(nat \<times> nat) list \<Rightarrow> string \<Rightarrow> bool" where
  "in_ranges [] s \<longleftrightarrow> True"
| "in_ranges (r # rs) [] \<longleftrightarrow> False"
| "in_ranges (r # rs) (c # s) \<longleftrightarrow> fst r \<le> ord c \<and> ord c \<le> snd r \<and> in_ranges rs s"

text \<open>The bytes after the first one of the rune that begins with \<open>c\<close>; \<open>None\<close> when it is not valid.\<close>

definition rune_tail :: "char \<Rightarrow> string \<Rightarrow> string option" where
  "rune_tail c s = (case rune_ranges (ord c) of
     None \<Rightarrow> None
   | Some rs \<Rightarrow> if in_ranges rs s then Some (take (length rs) s) else None)"

definition is_surrogate :: "nat \<Rightarrow> bool" where
  "is_surrogate r \<longleftrightarrow> 0xD800 \<le> r \<and> r < 0xE000"

definition replacement_rune :: string where
  "replacement_rune = [CHR 0xEF, CHR 0xBF, CHR 0xBD]"

definition encode_rune :: "nat \<Rightarrow> string" where
  "encode_rune r =
     (if r < 0x80 then [char_of r]
      else if r < 0x800 then [char_of (0xC0 + r div 64), char_of (0x80 + r mod 64)]
      else if is_surrogate r \<or> r > 0x10FFFF then replacement_rune
      else if r < 0x10000 then [char_of (0xE0 + r div 4096), char_of (0x80 + r div 64 mod 64), char_of (0x80 + r mod 64)]
      else [char_of (0xF0 + r div 262144), char_of (0x80 + r div 4096 mod 64), char_of (0x80 + r div 64 mod 64),
            char_of (0x80 + r mod 64)])"

fun valid_utf8 :: "string \<Rightarrow> bool" where
  "valid_utf8 [] \<longleftrightarrow> True"
| "valid_utf8 (c # s) \<longleftrightarrow> (case rune_tail c s of None \<Rightarrow> False | Some u \<Rightarrow> valid_utf8 (drop (length u) s))"

section \<open>String literals\<close>

text \<open>
  What stands between the quotes, decoded and encoded. Bytes that are not UTF-8 are replaced. The
  scanner lets no escapes pass but those listed here.
\<close>

definition unescape :: "char \<Rightarrow> string" where
  "unescape e = (if e = CHR ''b'' then [CHR 0x08] else if e = CHR ''f'' then [CHR 0x0C] else if e = CHR ''n'' then [CHR 0x0A]
     else if e = CHR ''r'' then [CHR 0x0D] else if e = CHR ''t'' then [CHR 0x09]
     else if e \<in> {quote_mark, backslash, CHR ''/''} then [e] else [])"

text \<open>The rune of a surrogate pair, if the two are one (\<open>utf16.DecodeRune\<close>).\<close>

definition surrogate_pair :: "nat \<Rightarrow> nat \<Rightarrow> nat option" where
  "surrogate_pair r1 r2 =
     (if 0xD800 \<le> r1 \<and> r1 < 0xDC00 \<and> 0xDC00 \<le> r2 \<and> r2 < 0xE000
      then Some (0x10000 + (r1 - 0xD800) * 1024 + (r2 - 0xDC00)) else None)"

fun unquote :: "string \<Rightarrow> string" where
  "unquote [] = []"
| "unquote (c # s) =
     (if c = backslash then (case s of
        [] \<Rightarrow> []
      | e # s1 \<Rightarrow>
          if e \<noteq> CHR ''u'' then unescape e @ unquote s1
          else let r = hex_num (take 4 s1); s2 = drop 4 s1 in
            if is_surrogate r then
              (case (if take 2 s2 = [backslash, CHR ''u''] then surrogate_pair r (hex_num (take 4 (drop 2 s2))) else None) of
                 Some r' \<Rightarrow> encode_rune r' @ unquote (drop 6 s2)
               | None \<Rightarrow> replacement_rune @ unquote s2)
            else encode_rune r @ unquote s2)
      else case rune_tail c s of
          None \<Rightarrow> replacement_rune @ unquote s
        | Some u \<Rightarrow> (c # u) @ unquote (drop (length u) s))"

definition html_safe :: "char \<Rightarrow> bool" where
  "html_safe c \<longleftrightarrow> 0x20 \<le> ord c \<and> c \<notin> {quote_mark, backslash, CHR ''<'', CHR ''>'', CHR ''&''}"

definition escape_byte :: "char \<Rightarrow> string" where
  "escape_byte c = (if html_safe c then [c]
     else if c = quote_mark \<or> c = backslash then [backslash, c]
     else if c = CHR 0x08 then [backslash, CHR ''b''] else if c = CHR 0x0C then [backslash, CHR ''f'']
     else if c = CHR 0x0A then [backslash, CHR ''n''] else if c = CHR 0x0D then [backslash, CHR ''r'']
     else if c = CHR 0x09 then [backslash, CHR ''t'']
     else [backslash, CHR ''u'', CHR ''0'', CHR ''0'', hex_digit (ord c div 16), hex_digit (ord c mod 16)])"

definition escape_rune :: "string \<Rightarrow> string" where
  "escape_rune u = (if u = [CHR 0xE2, CHR 0x80, CHR 0xA8] then backslash # ''u2028''
     else if u = [CHR 0xE2, CHR 0x80, CHR 0xA9] then backslash # ''u2029'' else u)"

fun json_escape :: "string \<Rightarrow> string" where
  "json_escape [] = []"
| "json_escape (c # s) =
     (if ord c < 0x80 then escape_byte c @ json_escape s
      else case rune_tail c s of
          None \<Rightarrow> (backslash # ''ufffd'') @ json_escape s
        | Some u \<Rightarrow> escape_rune (c # u) @ json_escape (drop (length u) s))"

section \<open>The scanner\<close>

datatype jvalue = JNull | JBool bool | JNum string | JStr string | JArr "jvalue list" | JObj "(string \<times> jvalue) list"

text \<open>
  The states of the scanner. Those inside a string or a number carry the bytes seen so far, the
  latest first. \<open>EndValue v\<close> stands after a value. A frame is an open array, an object that waits
  for a key or its colon, or an object that waits for the value of a key.
\<close>

datatype sstate = BeginValue | BeginValueOrEmpty | BeginString | BeginStringOrEmpty
  | InString string | InStringEsc string | InStringEscU nat string
  | Neg string | Digits string | Zero string | Dot string | Dot0 string | Exp string | ExpSign string | Exp0 string
  | InLiteral string string jvalue
  | EndValue jvalue

datatype frame = ArrayValue "jvalue list" | ObjectKey "(string \<times> jvalue) list" | ObjectValue "(string \<times> jvalue) list" string

datatype sstep = Next sstate "frame list" | EndHere jvalue | EndBefore jvalue | ScanError string

definition isSpace :: "char \<Rightarrow> bool" where
  "isSpace c \<longleftrightarrow> c = CHR '' '' \<or> c = CHR 0x09 \<or> c = CHR 0x0D \<or> c = CHR 0x0A"

text \<open>A byte as the error messages show it, by \<open>strconv.Quote\<close> of the rune of the same number.\<close>

definition quoteChar :: "char \<Rightarrow> string" where
  "quoteChar c = CHR 0x27 #
     (if c = CHR 0x27 then [backslash, CHR 0x27]
      else if c = backslash then [backslash, backslash]
      else if 0x20 \<le> ord c \<and> ord c < 0x7F then [c]
      else if c = CHR 0x07 then backslash # ''a'' else if c = CHR 0x08 then backslash # ''b''
      else if c = CHR 0x0C then backslash # ''f'' else if c = CHR 0x0A then backslash # ''n''
      else if c = CHR 0x0D then backslash # ''r'' else if c = CHR 0x09 then backslash # ''t''
      else if c = CHR 0x0B then backslash # ''v''
      else if ord c < 0x80 then backslash # ''x'' @ [hex_digit (ord c div 16), hex_digit (ord c mod 16)]
      else if ord c \<le> 0xA0 \<or> ord c = 0xAD then backslash # ''u00'' @ [hex_digit (ord c div 16), hex_digit (ord c mod 16)]
      else encode_rune (ord c)) @ [CHR 0x27]"

definition invalid_char :: "char \<Rightarrow> string \<Rightarrow> sstep" where
  "invalid_char c ctx = ScanError (''invalid character '' @ quoteChar c @ '' '' @ ctx)"

definition maxNestingDepth :: nat where
  "maxNestingDepth = 10000"

definition pushParseState :: "char \<Rightarrow> frame \<Rightarrow> sstate \<Rightarrow> frame list \<Rightarrow> sstep" where
  "pushParseState c f st stk =
     (if Suc (length stk) \<le> maxNestingDepth then Next st (f # stk) else invalid_char c ''exceeded max depth'')"

definition popParseState :: "jvalue \<Rightarrow> frame list \<Rightarrow> sstep" where
  "popParseState v stk = (if stk = [] then EndHere v else Next (EndValue v) stk)"

definition stateEndValue :: "jvalue \<Rightarrow> frame list \<Rightarrow> char \<Rightarrow> sstep" where
  "stateEndValue v stk c = (case stk of
     [] \<Rightarrow> EndBefore v
   | f # r \<Rightarrow> if isSpace c then Next (EndValue v) stk else (case f of
       ObjectKey ms \<Rightarrow> if c = CHR '':'' then Next BeginValue (ObjectValue ms (case v of JStr k \<Rightarrow> k | _ \<Rightarrow> []) # r)
         else invalid_char c ''after object key''
     | ObjectValue ms k \<Rightarrow> if c = CHR '','' then Next BeginString (ObjectKey (ms @ [(k, v)]) # r)
         else if c = CHR ''}'' then popParseState (JObj (ms @ [(k, v)])) r
         else invalid_char c ''after object key:value pair''
     | ArrayValue xs \<Rightarrow> if c = CHR '','' then Next BeginValue (ArrayValue (xs @ [v]) # r)
         else if c = CHR '']'' then popParseState (JArr (xs @ [v])) r
         else invalid_char c ''after array element''))"

definition stateBeginString :: "frame list \<Rightarrow> char \<Rightarrow> sstep" where
  "stateBeginString stk c =
     (if isSpace c then Next BeginString stk
      else if c = quote_mark then Next (InString []) stk
      else invalid_char c ''looking for beginning of object key string'')"

definition stateBeginValue :: "frame list \<Rightarrow> char \<Rightarrow> sstep" where
  "stateBeginValue stk c =
     (if isSpace c then Next BeginValue stk
      else if c = CHR ''{'' then pushParseState c (ObjectKey []) BeginStringOrEmpty stk
      else if c = CHR ''['' then pushParseState c (ArrayValue []) BeginValueOrEmpty stk
      else if c = quote_mark then Next (InString []) stk
      else if c = CHR ''-'' then Next (Neg [c]) stk
      else if c = CHR ''0'' then Next (Zero [c]) stk
      else if c = CHR ''t'' then Next (InLiteral ''true'' ''rue'' (JBool True)) stk
      else if c = CHR ''f'' then Next (InLiteral ''false'' ''alse'' (JBool False)) stk
      else if c = CHR ''n'' then Next (InLiteral ''null'' ''ull'' JNull) stk
      else if is_digit c then Next (Digits [c]) stk
      else invalid_char c ''looking for beginning of value'')"

definition state0 :: "string \<Rightarrow> frame list \<Rightarrow> char \<Rightarrow> sstep" where
  "state0 acc stk c =
     (if c = CHR ''.'' then Next (Dot (c # acc)) stk
      else if c = CHR ''e'' \<or> c = CHR ''E'' then Next (Exp (c # acc)) stk
      else stateEndValue (JNum (rev acc)) stk c)"

definition stateESign :: "string \<Rightarrow> frame list \<Rightarrow> char \<Rightarrow> sstep" where
  "stateESign acc stk c =
     (if is_digit c then Next (Exp0 (c # acc)) stk else invalid_char c ''in exponent of numeric literal'')"

fun scan_step :: "sstate \<Rightarrow> frame list \<Rightarrow> char \<Rightarrow> sstep" where
  "scan_step BeginValue stk c = stateBeginValue stk c"
| "scan_step BeginValueOrEmpty stk c =
     (if isSpace c then Next BeginValueOrEmpty stk
      else if c = CHR '']'' then popParseState (JArr []) (tl stk)
      else stateBeginValue stk c)"
| "scan_step BeginString stk c = stateBeginString stk c"
| "scan_step BeginStringOrEmpty stk c =
     (if isSpace c then Next BeginStringOrEmpty stk
      else if c = CHR ''}'' then popParseState (JObj []) (tl stk)
      else stateBeginString stk c)"
| "scan_step (InString acc) stk c =
     (if c = quote_mark then Next (EndValue (JStr (unquote (rev acc)))) stk
      else if c = backslash then Next (InStringEsc (c # acc)) stk
      else if ord c < 0x20 then invalid_char c ''in string literal''
      else Next (InString (c # acc)) stk)"
| "scan_step (InStringEsc acc) stk c =
     (if c \<in> {CHR ''b'', CHR ''f'', CHR ''n'', CHR ''r'', CHR ''t'', backslash, CHR ''/'', quote_mark}
      then Next (InString (c # acc)) stk
      else if c = CHR ''u'' then Next (InStringEscU 3 (c # acc)) stk
      else invalid_char c ''in string escape code'')"
| "scan_step (InStringEscU n acc) stk c =
     (if is_hex c then Next (case n of 0 \<Rightarrow> InString (c # acc) | Suc m \<Rightarrow> InStringEscU m (c # acc)) stk
      else invalid_char c (''in '' @ backslash # ''u hexadecimal character escape''))"
| "scan_step (Neg acc) stk c =
     (if c = CHR ''0'' then Next (Zero (c # acc)) stk
      else if is_digit c then Next (Digits (c # acc)) stk
      else invalid_char c ''in numeric literal'')"
| "scan_step (Digits acc) stk c = (if is_digit c then Next (Digits (c # acc)) stk else state0 acc stk c)"
| "scan_step (Zero acc) stk c = state0 acc stk c"
| "scan_step (Dot acc) stk c =
     (if is_digit c then Next (Dot0 (c # acc)) stk else invalid_char c ''after decimal point in numeric literal'')"
| "scan_step (Dot0 acc) stk c =
     (if is_digit c then Next (Dot0 (c # acc)) stk
      else if c = CHR ''e'' \<or> c = CHR ''E'' then Next (Exp (c # acc)) stk
      else stateEndValue (JNum (rev acc)) stk c)"
| "scan_step (Exp acc) stk c =
     (if c = CHR ''+'' \<or> c = CHR ''-'' then Next (ExpSign (c # acc)) stk else stateESign acc stk c)"
| "scan_step (ExpSign acc) stk c = stateESign acc stk c"
| "scan_step (Exp0 acc) stk c =
     (if is_digit c then Next (Exp0 (c # acc)) stk else stateEndValue (JNum (rev acc)) stk c)"
| "scan_step (InLiteral nm expected v) stk c = (case expected of
     [] \<Rightarrow> stateEndValue v stk c
   | e # es \<Rightarrow> if c = e then Next (if es = [] then EndValue v else InLiteral nm es v) stk
       else invalid_char c (''in literal '' @ nm @ '' (expecting '' @ quoteChar e @ '')''))"
| "scan_step (EndValue v) stk c = stateEndValue v stk c"

text \<open>The run over the bytes received: a value and the bytes left over, an error, or more bytes are needed.\<close>

datatype scanned = Value jvalue string | Malformed string | NeedMore

fun scan :: "sstate \<Rightarrow> frame list \<Rightarrow> string \<Rightarrow> scanned" where
  "scan st stk [] = NeedMore"
| "scan st stk (c # s) = (case scan_step st stk c of
     Next st' stk' \<Rightarrow> scan st' stk' s
   | EndHere v \<Rightarrow> Value v s
   | EndBefore v \<Rightarrow> Value v (c # s)
   | ScanError m \<Rightarrow> Malformed m)"

text \<open>
  \<open>Decoder.readValue\<close> on a connection that has delivered these bytes. When the peer has closed its
  side, a value may also end there; otherwise the decoder waits.
\<close>

datatype go_error = SyntaxError string | EOF | ErrUnexpectedEOF | UnmarshalTypeError string string string

datatype 'a read_result = Got 'a | Failed go_error | Blocked

definition readValue :: "string \<Rightarrow> bool \<Rightarrow> jvalue read_result" where
  "readValue s closed = (case scan BeginValue [] s of
     Value v rest \<Rightarrow> Got v
   | Malformed m \<Rightarrow> Failed (SyntaxError m)
   | NeedMore \<Rightarrow> if \<not> closed then Blocked
       else (case scan BeginValue [] (s @ [CHR '' '']) of
           Value v rest \<Rightarrow> Got v
         | _ \<Rightarrow> Failed (if list_all isSpace s then EOF else ErrUnexpectedEOF)))"

section \<open>Printing\<close>

fun commas :: "string list \<Rightarrow> string" where
  "commas [] = []"
| "commas [x] = x"
| "commas (x # y # r) = x @ CHR '','' # commas (y # r)"

definition quoted :: "string \<Rightarrow> string" where
  "quoted s = quote_mark # json_escape s @ [quote_mark]"

fun print_json :: "jvalue \<Rightarrow> string" where
  "print_json JNull = ''null''"
| "print_json (JBool b) = (if b then ''true'' else ''false'')"
| "print_json (JNum n) = n"
| "print_json (JStr s) = quoted s"
| "print_json (JArr vs) = CHR ''['' # commas (map print_json vs) @ [CHR '']'']"
| "print_json (JObj ms) = CHR ''{'' # commas (map (\<lambda>(k, v). quoted k @ CHR '':'' # print_json v) ms) @ [CHR ''}'']"

fun depth :: "jvalue \<Rightarrow> nat" where
  "depth (JArr vs) = Suc (Max (insert 0 (set (map depth vs))))"
| "depth (JObj ms) = Suc (Max (insert 0 (set (map (\<lambda>(k, v). depth v) ms))))"
| "depth _ = 0"

text \<open>The values that the encoder prints: strings are UTF-8 and numbers are integers.\<close>

fun printable :: "jvalue \<Rightarrow> bool" where
  "printable (JNum n) \<longleftrightarrow> (\<exists>i. n = dec_int i)"
| "printable (JStr s) \<longleftrightarrow> valid_utf8 s"
| "printable (JArr vs) \<longleftrightarrow> (\<forall>v \<in> set vs. printable v)"
| "printable (JObj ms) \<longleftrightarrow> (\<forall>m \<in> set ms. valid_utf8 (fst m) \<and> (case m of (k, v) \<Rightarrow> printable v))"
| "printable _ \<longleftrightarrow> True"

lemma printable_JObj: "printable (JObj ms) \<longleftrightarrow> (\<forall>m \<in> set ms. valid_utf8 (fst m) \<and> printable (snd m))"
  by (simp add: case_prod_beta)

lemma depth_JArr: "v \<in> set vs \<Longrightarrow> depth v < depth (JArr vs)"
  by (simp add: less_Suc_eq_le)

lemma depth_JObj: "m \<in> set ms \<Longrightarrow> depth (snd m) < depth (JObj ms)"
  by (simp add: less_Suc_eq_le case_prod_beta)

declare printable.simps(4) [simp del] depth.simps(1,2) [simp del]

section \<open>Strings survive\<close>

lemma ord_less [simp]: "ord c < 256"
  by (simp add: ord_def)

lemma ord_eq: "ord c = n \<longleftrightarrow> n < 256 \<and> c = char_of n"
  by (auto simp: ord_def)

lemma rune_tail_ascii: "ord c < 0x80 \<Longrightarrow> rune_tail c s = Some []"
  by (simp add: rune_tail_def rune_ranges_def)

lemma in_ranges_append: "in_ranges rs s \<Longrightarrow> in_ranges rs (take (length rs) s @ r)"
  by (induction rs s rule: in_ranges.induct) auto

lemma in_ranges_length: "in_ranges rs s \<Longrightarrow> length rs \<le> length s"
  by (induction rs s rule: in_ranges.induct) auto

lemma rune_tail_prefix: "rune_tail c s = Some u \<Longrightarrow> take (length u) s = u"
  by (auto simp: rune_tail_def min_def split: option.splits if_splits)

lemma rune_tail_append: "rune_tail c s = Some u \<Longrightarrow> rune_tail c (u @ r) = Some u"
  by (auto simp: rune_tail_def in_ranges_append min_absorb2 in_ranges_length split: option.splits if_splits)

lemma in_ranges_high:
  "in_ranges rs s \<Longrightarrow> \<forall>r \<in> set rs. 0x80 \<le> fst r \<Longrightarrow> x \<in> set (take (length rs) s) \<Longrightarrow> 0x80 \<le> ord x"
  by (induction rs s rule: in_ranges.induct) auto

lemma rune_tail_high:
  assumes "rune_tail c s = Some u" and "\<not> ord c < 0x80" and "x \<in> set (c # u)"
  shows "0x80 \<le> ord x"
proof -
  obtain rs where rs: "rune_ranges (ord c) = Some rs" "in_ranges rs s" "u = take (length rs) s"
    using assms(1) by (auto simp: rune_tail_def split: option.splits if_splits)
  have "\<forall>r \<in> set rs. 0x80 \<le> fst r"
    using rs(1) by (auto simp: rune_ranges_def split: if_splits)
  with rs assms show ?thesis by (auto intro: in_ranges_high)
qed

lemma hex_byte:
  "n < 256 \<Longrightarrow> hex_num [CHR ''0'', CHR ''0'', hex_digit (n div 16), hex_digit (n mod 16)] = n"
proof -
  have digit: "d < 16 \<Longrightarrow> hex_val (hex_digit d) = d" for d
    by (auto simp: hex_val_def hex_digit_def ord_def of_char_of)
  assume "n < 256"
  then have "n div 16 < 16" by simp
  then show ?thesis by (simp add: digit) (simp add: hex_val_def ord_def)
qed

lemma unquote_byte:
  assumes "ord c < 0x80"
  shows "unquote (escape_byte c @ r) = c # unquote r"
proof -
  have num: "hex_num [CHR ''0'', CHR ''0'', hex_digit (ord c div 16), hex_digit (ord c mod 16)] = ord c"
    by (rule hex_byte) simp
  have "unquote (escape_byte c @ r) = encode_rune (ord c) @ unquote r"
    if "escape_byte c = [backslash, CHR ''u'', CHR ''0'', CHR ''0'', hex_digit (ord c div 16), hex_digit (ord c mod 16)]"
    using assms by (simp add: that num is_surrogate_def del: hex_num.simps)
  moreover have "encode_rune (ord c) = [c]"
    using assms by (simp add: encode_rune_def ord_def)
  ultimately show ?thesis
    using assms by (auto simp: escape_byte_def html_safe_def rune_tail_ascii unescape_def)
qed

lemma unquote_rune:
  assumes "rune_tail c s = Some u" and "\<not> ord c < 0x80"
  shows "unquote (escape_rune (c # u) @ r) = (c # u) @ unquote r"
proof -
  have "c \<noteq> backslash" using assms(2) by (auto simp: ord_def)
  then have "unquote ((c # u) @ r) = (c # u) @ unquote r"
    using rune_tail_append [OF assms(1), of r] by simp
  moreover have "encode_rune 0x2028 = [CHR 0xE2, CHR 0x80, CHR 0xA8]" "encode_rune 0x2029 = [CHR 0xE2, CHR 0x80, CHR 0xA9]"
    by (simp_all add: encode_rune_def is_surrogate_def char_of_eq_iff)
  ultimately show ?thesis
    by (auto simp: escape_rune_def hex_val_def ord_def is_surrogate_def)
qed

lemma unquote_quote: "valid_utf8 s \<Longrightarrow> unquote (json_escape s) = s"
proof (induction s rule: json_escape.induct)
  case (2 c s)
  then obtain u where u: "rune_tail c s = Some u" and v: "valid_utf8 (drop (length u) s)"
    by (auto split: option.splits)
  show ?case
  proof (cases "ord c < 0x80")
    case True
    with 2 u v show ?thesis by (simp add: unquote_byte rune_tail_ascii)
  next
    case False
    then show ?thesis
      using 2 u v append_take_drop_id [of "length u" s] rune_tail_prefix [OF u]
      by (simp add: unquote_rune)
  qed
qed simp


section \<open>What is printed is read back\<close>

lemma scan_hex4:
  "list_all is_hex [a, b, c, d] \<Longrightarrow>
    scan (InString acc) stk (backslash # CHR ''u'' # a # b # c # d # r) =
    scan (InString (d # c # b # a # CHR ''u'' # backslash # acc)) stk r"
  by (simp add: numeral_3_eq_3)

lemma scan_escaped:
  assumes "ord c < 0x80"
  shows "scan (InString acc) stk (escape_byte c @ r) = scan (InString (rev (escape_byte c) @ acc)) stk r"
proof -
  have hex: "is_hex (hex_digit d)" if "d < 16" for d
    using that by (auto simp: is_hex_def hex_digit_def ord_def of_char_of)
  have "ord c div 16 < 16" using assms by simp
  then show ?thesis
    using assms hex [of "ord c div 16"] hex [of "ord c mod 16"]
    by (auto simp: escape_byte_def html_safe_def scan_hex4 is_hex_def [of "CHR ''0''"] ord_def [of "CHR ''0''"])
qed

lemma scan_high: "\<forall>x \<in> set u. 0x80 \<le> ord x \<Longrightarrow> scan (InString acc) stk (u @ r) = scan (InString (rev u @ acc)) stk r"
proof (induction u arbitrary: acc)
  case (Cons c u)
  then have "c \<noteq> quote_mark \<and> c \<noteq> backslash \<and> \<not> ord c < 0x20" by (auto simp: ord_def)
  with Cons show ?case by simp
qed simp

lemma scan_rune:
  assumes "rune_tail c s = Some u" and "\<not> ord c < 0x80"
  shows "scan (InString acc) stk (escape_rune (c # u) @ r) = scan (InString (rev (escape_rune (c # u)) @ acc)) stk r"
proof -
  have "scan (InString acc) stk ((c # u) @ r) = scan (InString (rev (c # u) @ acc)) stk r"
    by (rule scan_high) (use rune_tail_high [OF assms] in blast)
  then show ?thesis
    by (auto simp: escape_rune_def scan_hex4 is_hex_def ord_def)
qed

lemma scan_quote:
  "scan (InString acc) stk (json_escape s @ r) = scan (InString (rev (json_escape s) @ acc)) stk r"
proof (induction s arbitrary: acc rule: json_escape.induct)
  case (2 c s)
  show ?case
  proof (cases "ord c < 0x80")
    case True
    with 2 show ?thesis by (simp add: scan_escaped)
  next
    case False
    then show ?thesis
      using 2 by (cases "rune_tail c s") (simp_all add: scan_rune scan_hex4 is_hex_def ord_def)
  qed
qed simp

lemma scan_quoted:
  "valid_utf8 s \<Longrightarrow> scan (InString []) stk (json_escape s @ quote_mark # r) = scan (EndValue (JStr s)) stk r"
  by (simp add: scan_quote unquote_quote)


text \<open>A number ends at the first byte that cannot belong to it.\<close>

definition ends_number :: "char \<Rightarrow> bool" where
  "ends_number c \<longleftrightarrow> \<not> is_digit c \<and> c \<noteq> CHR ''.'' \<and> c \<noteq> CHR ''e'' \<and> c \<noteq> CHR ''E''"

lemma dec_Cons:
  obtains d ds where "dec n = d # ds" and "is_digit d" and "\<forall>x \<in> set ds. is_digit x" and "d = CHR ''0'' \<longrightarrow> ds = []"
proof -
  have zero: "n > 0 \<Longrightarrow> hd (dec n) \<noteq> CHR ''0''" for n
  proof (induction n rule: dec.induct)
    case (1 n)
    show ?case
    proof (cases "n < 10")
      case True
      then have "digit_val (hd (dec n)) = n" by (simp add: dec.simps [of n])
      then show ?thesis using "1.prems" by (auto simp: digit_val_def)
    next
      case False
      then show ?thesis using "1.IH" by (simp add: dec.simps [of n] hd_append)
    qed
  qed
  obtain d ds where d: "dec n = d # ds" by (cases "dec n") simp_all
  moreover have "is_digit x" if "x \<in> set (d # ds)" for x
    using that dec_digits [of x n] d by simp
  moreover have "ds = []" if "d = CHR ''0''"
    using zero [of n] that d by (cases "n = 0") (simp_all add: dec.simps [of 0])
  ultimately show ?thesis using that by simp
qed

lemma scan_digits:
  "\<forall>x \<in> set ds. is_digit x \<Longrightarrow> ends_number c \<Longrightarrow>
    scan (Digits acc) stk (ds @ c # r) = scan (EndValue (JNum (rev acc @ ds))) stk (c # r)"
  by (induction ds arbitrary: acc) (simp_all add: ends_number_def state0_def)

lemma scan_zero: "ends_number c \<Longrightarrow> scan (Zero acc) stk (c # r) = scan (EndValue (JNum (rev acc))) stk (c # r)"
  by (simp add: ends_number_def state0_def)

lemma is_digit_simps [simp]:
  "is_digit (CHR ''0'')" "\<not> is_digit (CHR ''-'')" "\<not> is_digit (CHR ''{'')" "\<not> is_digit (CHR ''['')"
  "\<not> is_digit quote_mark" "\<not> is_digit (CHR ''t'')" "\<not> is_digit (CHR ''f'')" "\<not> is_digit (CHR ''n'')"
  by (simp_all add: is_digit_def)

lemma digit_not_special:
  "is_digit d \<Longrightarrow> \<not> isSpace d \<and> d \<notin> {CHR ''{'', CHR ''['', CHR '']'', CHR ''}'', quote_mark, CHR ''-'', CHR ''t'', CHR ''f'', CHR ''n''}"
  by (auto simp: is_digit_def isSpace_def)

lemma scan_number:
  assumes "ends_number c"
  shows "scan BeginValue stk (dec_int i @ c # r) = scan (EndValue (JNum (dec_int i))) stk (c # r)"
proof -
  have pos: "scan BeginValue stk (dec n @ c # r) = scan (EndValue (JNum (dec n))) stk (c # r)"
    and neg: "scan (Neg ''-'') stk (dec n @ c # r) = scan (EndValue (JNum (CHR ''-'' # dec n))) stk (c # r)" for n
  proof -
    obtain d ds where d: "dec n = d # ds" "is_digit d" "\<forall>x \<in> set ds. is_digit x" "d = CHR ''0'' \<longrightarrow> ds = []"
      by (rule dec_Cons [of n])
    show "scan BeginValue stk (dec n @ c # r) = scan (EndValue (JNum (dec n))) stk (c # r)"
      using d digit_not_special [OF d(2)] scan_digits [OF d(3) assms, of "[d]" stk r] scan_zero [OF assms, of "[d]" stk r]
      by (cases "d = CHR ''0''") (simp_all add: stateBeginValue_def)
    show "scan (Neg ''-'') stk (dec n @ c # r) = scan (EndValue (JNum (CHR ''-'' # dec n))) stk (c # r)"
      using d scan_digits [OF d(3) assms, of "[d, CHR ''-'']" stk r] scan_zero [OF assms, of "[d, CHR ''-'']" stk r]
      by (cases "d = CHR ''0''") simp_all
  qed
  show ?thesis
    using pos neg by (simp add: dec_int_def stateBeginValue_def isSpace_def)
qed

text \<open>Where the scanner is after an array or object has been closed.\<close>

definition after_value :: "jvalue \<Rightarrow> frame list \<Rightarrow> string \<Rightarrow> scanned" where
  "after_value v stk r = (if stk = [] then Value v r else scan (EndValue v) stk r)"

text \<open>A value inside an array or object is read back, whatever comes after it.\<close>

definition reads_back :: "jvalue \<Rightarrow> bool" where
  "reads_back v \<longleftrightarrow> (\<forall>stk c r. stk \<noteq> [] \<and> length stk + depth v \<le> maxNestingDepth \<and> ends_number c \<longrightarrow>
     scan BeginValue stk (print_json v @ c # r) = scan (EndValue v) stk (c # r))"

lemma ends_number_simps [simp]:
  "ends_number (CHR '','')" "ends_number (CHR '']'')" "ends_number (CHR ''}'')"
  by (simp_all add: ends_number_def is_digit_def)

lemma scan_elements:
  assumes "\<And>v. v \<in> set (v0 # vs) \<Longrightarrow> reads_back v \<and> Suc (length stk) + depth v \<le> maxNestingDepth"
  shows "scan BeginValue (ArrayValue xs # stk) (commas (map print_json (v0 # vs)) @ CHR '']'' # r) =
    after_value (JArr (xs @ v0 # vs)) stk r"
  using assms
proof (induction vs arbitrary: v0 xs)
  case Nil
  then have "reads_back v0" "Suc (length stk) + depth v0 \<le> maxNestingDepth" by auto
  then show ?case
    by (simp add: reads_back_def stateEndValue_def isSpace_def popParseState_def after_value_def)
next
  case (Cons v vs)
  have "reads_back v0" "Suc (length stk) + depth v0 \<le> maxNestingDepth" using Cons.prems by auto
  then have "scan BeginValue (ArrayValue xs # stk) (print_json v0 @ CHR '','' # s) =
      scan BeginValue (ArrayValue (xs @ [v0]) # stk) s" for s
    by (simp add: reads_back_def stateEndValue_def isSpace_def)
  then show ?case
    using Cons.IH [of v "xs @ [v0]"] Cons.prems by simp
qed

lemma scan_key:
  "valid_utf8 k \<Longrightarrow> scan BeginString (ObjectKey ms # stk) (quoted k @ CHR '':'' # s) = scan BeginValue (ObjectValue ms k # stk) s"
  using scan_quoted [of k "ObjectKey ms # stk" "CHR '':'' # s"]
  by (simp add: quoted_def stateBeginString_def isSpace_def stateEndValue_def)

lemma scan_members:
  assumes "\<And>m. m \<in> set (m0 # ms) \<Longrightarrow> valid_utf8 (fst m) \<and> reads_back (snd m) \<and> Suc (length stk) + depth (snd m) \<le> maxNestingDepth"
  shows "scan BeginString (ObjectKey xs # stk)
      (commas (map (\<lambda>(k, v). quoted k @ CHR '':'' # print_json v) (m0 # ms)) @ CHR ''}'' # r) =
    after_value (JObj (xs @ m0 # ms)) stk r"
  using assms
proof (induction ms arbitrary: m0 xs)
  case Nil
  obtain k v where "m0 = (k, v)" by (cases m0)
  with Nil have "m0 = (k, v)" "valid_utf8 k" "reads_back v" "Suc (length stk) + depth v \<le> maxNestingDepth" by auto
  then show ?case
    by (simp add: scan_key reads_back_def stateEndValue_def isSpace_def popParseState_def after_value_def)
next
  case (Cons m ms)
  obtain k v where "m0 = (k, v)" by (cases m0)
  with Cons.prems [of m0] have m0: "m0 = (k, v)" "valid_utf8 k" "reads_back v" "Suc (length stk) + depth v \<le> maxNestingDepth" by auto
  then have "scan BeginString (ObjectKey xs # stk) (quoted k @ CHR '':'' # print_json v @ CHR '','' # s) =
      scan BeginString (ObjectKey (xs @ [m0]) # stk) s" for s
    by (simp add: scan_key reads_back_def stateEndValue_def isSpace_def)
  then show ?case
    using Cons.IH [of m "xs @ [m0]"] Cons.prems m0(1) by simp
qed


lemma print_json_hd:
  assumes "printable v"
  obtains c s where "print_json v = c # s" and "\<not> isSpace c" and "c \<noteq> CHR '']''"
proof (cases v)
  case (JBool b)
  then show ?thesis using that by (cases b) (simp_all add: isSpace_def)
next
  case (JNum n)
  with assms obtain i where i: "n = dec_int i" by auto
  obtain d ds where "dec (nat i) = d # ds" "is_digit d" by (rule dec_Cons)
  then show ?thesis
    using that JNum i digit_not_special [of d] by (cases "i < 0") (auto simp: dec_int_def isSpace_def)
qed (use that in \<open>simp_all add: quoted_def isSpace_def\<close>)

lemma scan_or_empty:
  assumes "printable v"
  shows "scan BeginValueOrEmpty stk (commas (map print_json (v # vs)) @ r) = scan BeginValue stk (commas (map print_json (v # vs)) @ r)"
proof -
  obtain c s where "print_json v = c # s" "\<not> isSpace c" "c \<noteq> CHR '']''"
    using assms by (rule print_json_hd)
  then show ?thesis by (cases vs) simp_all
qed

lemma scan_string_or_empty:
  "scan BeginStringOrEmpty stk (commas (map (\<lambda>(k, v). quoted k @ CHR '':'' # print_json v) (m # ms)) @ r) =
    scan BeginString stk (commas (map (\<lambda>(k, v). quoted k @ CHR '':'' # print_json v) (m # ms)) @ r)"
  by (cases ms) (simp_all add: quoted_def isSpace_def split: prod.split)

lemma scan_array:
  assumes "\<And>v. v \<in> set vs \<Longrightarrow> reads_back v" and "printable (JArr vs)" and "length stk + depth (JArr vs) \<le> maxNestingDepth"
  shows "scan BeginValue stk (print_json (JArr vs) @ r) = after_value (JArr vs) stk r"
proof (cases vs)
  case Nil
  then show ?thesis
    using assms by (simp add: depth.simps stateBeginValue_def isSpace_def pushParseState_def popParseState_def after_value_def)
next
  case (Cons v0 us)
  have "reads_back v \<and> Suc (length stk) + depth v \<le> maxNestingDepth" if "v \<in> set (v0 # us)" for v
    using that assms(1,3) depth_JArr [of v vs] Cons by simp
  then have "scan BeginValue (ArrayValue [] # stk) (commas (map print_json (v0 # us)) @ CHR '']'' # r) = after_value (JArr ([] @ v0 # us)) stk r"
    by (rule scan_elements)
  then show ?thesis
    using assms(2,3) Cons
    by (simp add: depth.simps stateBeginValue_def isSpace_def pushParseState_def scan_or_empty del: list.map commas.simps)
qed

lemma scan_object:
  assumes "\<And>m. m \<in> set ms \<Longrightarrow> reads_back (snd m)" and "printable (JObj ms)" and "length stk + depth (JObj ms) \<le> maxNestingDepth"
  shows "scan BeginValue stk (print_json (JObj ms) @ r) = after_value (JObj ms) stk r"
proof (cases ms)
  case Nil
  then show ?thesis
    using assms by (simp add: depth.simps stateBeginValue_def isSpace_def pushParseState_def popParseState_def after_value_def)
next
  case (Cons m0 us)
  have "valid_utf8 (fst m) \<and> reads_back (snd m) \<and> Suc (length stk) + depth (snd m) \<le> maxNestingDepth"
    if "m \<in> set (m0 # us)" for m
    using that assms(1) [of m] assms(2,3) depth_JObj [of m ms] Cons by (auto simp: printable_JObj)
  then have "scan BeginString (ObjectKey [] # stk) (commas (map (\<lambda>(k, v). quoted k @ CHR '':'' # print_json v) (m0 # us)) @ CHR ''}'' # r) =
      after_value (JObj ([] @ m0 # us)) stk r"
    by (rule scan_members)
  then show ?thesis
    using assms(3) Cons
    by (simp add: depth.simps stateBeginValue_def isSpace_def pushParseState_def scan_string_or_empty del: list.map commas.simps)
qed

lemma printable_reads_back: "printable v \<Longrightarrow> reads_back v"
proof (induction v)
  case (JNum n)
  then show ?case by (auto simp: reads_back_def scan_number)
next
  case (JStr s)
  then show ?case
    by (simp add: reads_back_def quoted_def stateBeginValue_def isSpace_def scan_quoted)
next
  case (JArr vs)
  then have "scan BeginValue stk (print_json (JArr vs) @ r) = after_value (JArr vs) stk r"
    if "length stk + depth (JArr vs) \<le> maxNestingDepth" for stk r
    using that by (intro scan_array) auto
  then show ?case by (auto simp: reads_back_def after_value_def)
next
  case (JObj ms)
  then have "reads_back (snd m)" if "m \<in> set ms" for m
    using that JObj by (cases m) (auto simp: printable_JObj)
  with JObj have "scan BeginValue stk (print_json (JObj ms) @ r) = after_value (JObj ms) stk r"
    if "length stk + depth (JObj ms) \<le> maxNestingDepth" for stk r
    using that by (intro scan_object) auto
  then show ?case by (auto simp: reads_back_def after_value_def)
qed (simp_all add: reads_back_def stateBeginValue_def isSpace_def)

text \<open>A printed object is read back as soon as its last brace has come, and no further byte is looked at.\<close>

lemma readValue_object:
  assumes "printable (JObj ms)" and "depth (JObj ms) \<le> maxNestingDepth"
  shows "readValue (print_json (JObj ms) @ r) closed = Got (JObj ms)"
proof -
  have "reads_back (snd m)" if "m \<in> set ms" for m
    using assms(1) that by (intro printable_reads_back) (simp add: printable_JObj)
  then have "scan BeginValue [] (print_json (JObj ms) @ r) = after_value (JObj ms) [] r"
    using assms by (intro scan_object) simp_all
  then show ?thesis by (simp add: readValue_def after_value_def del: print_json.simps scan.simps)
qed

text \<open>Text that does not begin like JSON is refused at its first byte that is not white space.\<close>

definition begins_value :: "char \<Rightarrow> bool" where
  "begins_value c \<longleftrightarrow> is_digit c \<or> c \<in> {CHR ''{'', CHR ''['', quote_mark, CHR ''-'', CHR ''t'', CHR ''f'', CHR ''n''}"

lemma scan_space: "isSpace c \<Longrightarrow> scan BeginValue stk (c # s) = scan BeginValue stk s"
  by (simp add: stateBeginValue_def)

lemma scan_spaces: "list_all isSpace w \<Longrightarrow> scan BeginValue stk (w @ s) = scan BeginValue stk s"
  by (induction w) (auto simp: scan_space simp del: scan.simps)

lemma readValue_text:
  assumes "list_all isSpace w" and "\<not> isSpace c" and "\<not> begins_value c"
  shows "readValue (w @ c # r) closed =
    Failed (SyntaxError (''invalid character '' @ quoteChar c @ '' looking for beginning of value''))"
proof -
  have "c \<noteq> CHR ''0''" using assms(3) is_digit_simps(1) unfolding begins_value_def by blast
  then have "scan BeginValue [] (c # r) = Malformed (''invalid character '' @ quoteChar c @ '' looking for beginning of value'')"
    using assms(2,3) by (simp add: begins_value_def stateBeginValue_def invalid_char_def)
  then show ?thesis
    using scan_spaces [OF assms(1), of "[]" "c # r"] by (simp add: readValue_def del: scan.simps)
qed


section \<open>What is read is well formed\<close>

text \<open>Whatever bytes come in, every string and key that is read is UTF-8.\<close>

lemma rune_tail_more: "rune_tail c s = Some u \<Longrightarrow> rune_tail c (s @ r) = Some u"
proof -
  assume "rune_tail c s = Some u"
  then have "rune_tail c (u @ (drop (length u) s @ r)) = Some u" "u @ drop (length u) s = s"
    using rune_tail_prefix [of c s u] append_take_drop_id [of "length u" s] by (simp_all add: rune_tail_append)
  then show ?thesis by (metis append.assoc)
qed

lemma valid_utf8_append: "valid_utf8 a \<Longrightarrow> valid_utf8 b \<Longrightarrow> valid_utf8 (a @ b)"
proof (induction a rule: valid_utf8.induct)
  case (2 c s)
  then obtain u where u: "rune_tail c s = Some u" and "valid_utf8 (drop (length u) s)"
    by (auto split: option.splits)
  with 2 have "valid_utf8 (drop (length u) s @ b)" by simp
  moreover have "length u \<le> length s"
    using rune_tail_prefix [OF u] by (metis length_take min.cobounded1 nat_le_linear take_all)
  ultimately show ?case using rune_tail_more [OF u, of b] by simp
qed simp

lemma valid_rune: "rune_tail c s = Some u \<Longrightarrow> valid_utf8 (c # u)"
  using rune_tail_append [of c s u "[]"] by simp

lemma valid_ascii: "ord c < 0x80 \<Longrightarrow> valid_utf8 [c]"
  by (simp add: rune_tail_ascii)

lemma ord_char_of [simp]: "n < 256 \<Longrightarrow> ord (char_of n) = n"
  by (simp add: ord_def of_char_of)

lemma valid_replacement: "valid_utf8 replacement_rune"
  by (simp add: replacement_rune_def rune_tail_def rune_ranges_def ord_def)

lemma valid_encode_rune: "valid_utf8 (encode_rune r)"
proof -
  consider "r < 0x80" | "0x80 \<le> r" "r < 0x800" | "0x800 \<le> r" "is_surrogate r \<or> r > 0x10FFFF"
    | "0x800 \<le> r" "r < 0x10000" "\<not> is_surrogate r" | "0x10000 \<le> r" "r \<le> 0x10FFFF"
    by linarith
  then show ?thesis
  proof cases
    case 1
    then show ?thesis by (simp add: encode_rune_def valid_ascii del: valid_utf8.simps)
  next
    case 2
    then have "2 \<le> r div 64" "r div 64 < 32" by auto
    with 2 show ?thesis by (simp add: encode_rune_def rune_tail_def rune_ranges_def)
  next
    case 3
    then show ?thesis by (simp add: encode_rune_def valid_replacement)
  next
    case 4
    define a where "a = r div 4096"
    define b where "b = r div 64 mod 64"
    have "r div 64 = 64 * a + b" using div_mult2_eq [of r 64 64] by (simp add: a_def b_def)
    moreover have "32 \<le> r div 64" "r div 64 < 1024" "\<not> (0x360 \<le> r div 64 \<and> r div 64 < 0x380)"
      using 4 by (auto simp: is_surrogate_def)
    moreover have "b < 64" by (simp add: b_def)
    ultimately have "a < 16" "a = 0 \<longrightarrow> 32 \<le> b" "a = 13 \<longrightarrow> b < 32" by auto
    moreover have "r mod 64 \<le> 63" by auto
    ultimately show ?thesis using 4 \<open>b < 64\<close>
      by (auto simp: encode_rune_def rune_tail_def rune_ranges_def a_def [symmetric] b_def [symmetric])
  next
    case 5
    define a where "a = r div 262144"
    define b where "b = r div 4096 mod 64"
    have "r div 4096 = 64 * a + b" using div_mult2_eq [of r 4096 64] by (simp add: a_def b_def)
    moreover have "16 \<le> r div 4096" "r div 4096 < 272" using 5 by auto
    moreover have "b < 64" by (simp add: b_def)
    ultimately have "a < 5" "a = 0 \<longrightarrow> 16 \<le> b" "a = 4 \<longrightarrow> b < 16" by auto
    moreover have "r mod 64 \<le> 63" by auto
    ultimately show ?thesis using 5 \<open>b < 64\<close>
      by (auto simp: encode_rune_def is_surrogate_def rune_tail_def rune_ranges_def a_def [symmetric] b_def [symmetric])
  qed
qed


lemma valid_unquote: "valid_utf8 (unquote s)"
proof (induction s rule: unquote.induct)
  case (2 c s)
  note valid = valid_utf8_append valid_encode_rune valid_replacement
  show ?case
  proof (cases "c = backslash")
    case True
    show ?thesis
    proof (cases s)
      case (Cons e s1)
      have "valid_utf8 (unescape e)" by (simp add: unescape_def rune_tail_ascii ord_def)
      then show ?thesis
        using "2.IH" True Cons by (auto simp: Let_def intro!: valid split: option.split)
    qed (simp add: True)
  next
    case False
    show ?thesis
    proof (cases "rune_tail c s")
      case (Some u)
      then have "valid_utf8 ((c # u) @ unquote (drop (length u) s))"
        using "2.IH" False by (intro valid_utf8_append valid_rune) auto
      then show ?thesis using False Some by simp
    qed (use "2.IH" False in \<open>auto intro!: valid\<close>)
  qed
qed simp

fun utf8_value :: "jvalue \<Rightarrow> bool" where
  "utf8_value (JStr s) \<longleftrightarrow> valid_utf8 s"
| "utf8_value (JArr vs) \<longleftrightarrow> (\<forall>v \<in> set vs. utf8_value v)"
| "utf8_value (JObj ms) \<longleftrightarrow> (\<forall>m \<in> set ms. valid_utf8 (fst m) \<and> (case m of (k, v) \<Rightarrow> utf8_value v))"
| "utf8_value _ \<longleftrightarrow> True"

definition utf8_members :: "(string \<times> jvalue) list \<Rightarrow> bool" where
  "utf8_members ms \<longleftrightarrow> (\<forall>m \<in> set ms. valid_utf8 (fst m) \<and> utf8_value (snd m))"

lemma utf8_value_JObj: "utf8_value (JObj ms) \<longleftrightarrow> utf8_members ms"
  by (simp add: utf8_members_def case_prod_beta)

declare utf8_value.simps(3) [simp del] utf8_value_JObj [simp]

fun utf8_frame :: "frame \<Rightarrow> bool" where
  "utf8_frame (ArrayValue vs) \<longleftrightarrow> (\<forall>v \<in> set vs. utf8_value v)"
| "utf8_frame (ObjectKey ms) \<longleftrightarrow> utf8_members ms"
| "utf8_frame (ObjectValue ms k) \<longleftrightarrow> utf8_members ms \<and> valid_utf8 k"

fun utf8_state :: "sstate \<Rightarrow> bool" where
  "utf8_state (EndValue v) \<longleftrightarrow> utf8_value v"
| "utf8_state (InLiteral nm expected v) \<longleftrightarrow> utf8_value v"
| "utf8_state _ \<longleftrightarrow> True"

fun utf8_step :: "sstep \<Rightarrow> bool" where
  "utf8_step (Next st stk) \<longleftrightarrow> utf8_state st \<and> list_all utf8_frame stk"
| "utf8_step (EndHere v) \<longleftrightarrow> utf8_value v"
| "utf8_step (EndBefore v) \<longleftrightarrow> utf8_value v"
| "utf8_step (ScanError m) \<longleftrightarrow> True"

lemma utf8_members_snoc: "utf8_members (ms @ [(k, v)]) \<longleftrightarrow> utf8_members ms \<and> valid_utf8 k \<and> utf8_value v"
  by (auto simp: utf8_members_def)

lemma utf8_members_Nil: "utf8_members []"
  by (simp add: utf8_members_def)

lemma utf8_pop: "utf8_value v \<Longrightarrow> list_all utf8_frame stk \<Longrightarrow> utf8_step (popParseState v stk)"
  by (simp add: popParseState_def)

lemma utf8_invalid [simp]: "utf8_step (invalid_char c m)"
  by (simp add: invalid_char_def)

lemma utf8_end_value: "utf8_value v \<Longrightarrow> list_all utf8_frame stk \<Longrightarrow> utf8_step (stateEndValue v stk c)"
  by (auto simp: stateEndValue_def utf8_members_snoc intro!: utf8_pop split: list.split frame.split jvalue.split)

lemma utf8_begin: "list_all utf8_frame stk \<Longrightarrow> utf8_step (stateBeginValue stk c)" "list_all utf8_frame stk \<Longrightarrow> utf8_step (stateBeginString stk c)"
  by (simp_all add: stateBeginValue_def stateBeginString_def pushParseState_def utf8_members_Nil)

lemma list_all_tl: "list_all P xs \<Longrightarrow> list_all P (tl xs)"
  by (cases xs) simp_all

lemma utf8_scan_step: "utf8_state st \<Longrightarrow> list_all utf8_frame stk \<Longrightarrow> utf8_step (scan_step st stk c)"
  by (cases st)
    (simp_all add: utf8_begin utf8_end_value utf8_pop utf8_members_Nil list_all_tl valid_unquote state0_def stateESign_def
      split: list.split nat.split)

lemma scan_utf8:
  "scan st stk s = Value v rest \<Longrightarrow> utf8_state st \<Longrightarrow> list_all utf8_frame stk \<Longrightarrow> utf8_value v"
proof (induction s arbitrary: st stk)
  case (Cons c s)
  then show ?case
    using utf8_scan_step [OF Cons.prems(2,3), of c] by (auto split: sstep.splits)
qed simp

lemma readValue_utf8: "readValue s closed = Got v \<Longrightarrow> utf8_value v"
  by (auto simp: readValue_def dest!: scan_utf8 split: scanned.splits if_splits)

text \<open>What the bytes received so far have decided, further bytes do not change.\<close>

lemma scan_more:
  "scan st stk s = Value v rest \<Longrightarrow> scan st stk (s @ r) = Value v (rest @ r)"
  "scan st stk s = Malformed m \<Longrightarrow> scan st stk (s @ r) = Malformed m"
  by (induction s arbitrary: st stk) (auto split: sstep.splits)

lemma readValue_more: "readValue s False \<noteq> Blocked \<Longrightarrow> readValue (s @ r) closed = readValue s False"
  by (auto simp: readValue_def scan_more simp del: scan.simps split: scanned.split)


section \<open>The printed bytes\<close>

lemma escape_byte_chars: "ord c < 0x80 \<Longrightarrow> x \<in> set (escape_byte c) \<Longrightarrow> 0x20 \<le> ord x"
proof -
  have hex: "0x20 \<le> ord (hex_digit d)" if "d < 16" for d
    using that by (simp add: hex_digit_def)
  have letters: "0x20 \<le> ord y" if "y \<in> {backslash, quote_mark, CHR ''b'', CHR ''f'', CHR ''n'', CHR ''r'', CHR ''t'', CHR ''u'', CHR ''0''}" for y
    using that by (auto simp: ord_def)
  assume "ord c < 0x80" and x: "x \<in> set (escape_byte c)"
  then have "ord c div 16 < 16" by simp
  with x have "x = c \<and> 0x20 \<le> ord c \<or> (\<exists>d < 16. x = hex_digit d) \<or>
      x \<in> {backslash, quote_mark, CHR ''b'', CHR ''f'', CHR ''n'', CHR ''r'', CHR ''t'', CHR ''u'', CHR ''0''}"
    unfolding escape_byte_def html_safe_def by (fastforce split: if_splits)
  then show ?thesis using hex letters by blast
qed

lemma quote_chars: "x \<in> set (json_escape s) \<Longrightarrow> 0x20 \<le> ord x"
proof (induction s rule: json_escape.induct)
  case (2 c s)
  show ?case
  proof (cases "ord c < 0x80")
    case True
    with 2 escape_byte_chars [OF True] show ?thesis by auto
  next
    case False
    show ?thesis
    proof (cases "rune_tail c s")
      case None
      with 2 False show ?thesis by (auto simp: ord_def)
    next
      case (Some u)
      have "0x20 \<le> ord y" if "y \<in> set (escape_rune (c # u))" for y
        using that rune_tail_high [OF Some False, of y] by (auto simp: escape_rune_def ord_def split: if_splits)
      with 2 False Some show ?thesis by auto
    qed
  qed
qed simp

lemma length_quote: "length (json_escape s) \<le> 6 * length s"
proof (induction s rule: json_escape.induct)
  case (2 c s)
  show ?case
  proof (cases "ord c < 0x80")
    case True
    moreover have "length (escape_byte c) \<le> 6" by (simp add: escape_byte_def)
    ultimately show ?thesis using 2 by simp
  next
    case False
    show ?thesis
    proof (cases "rune_tail c s")
      case None
      with 2 False show ?thesis by simp
    next
      case (Some u)
      have "length u \<le> length s" using rune_tail_prefix [OF Some] by (metis length_take min.cobounded1 nat_le_linear take_all)
      moreover have "length (escape_rune (c # u)) \<le> 6 * Suc (length u)" by (simp add: escape_rune_def)
      moreover have "length (json_escape (drop (length u) s)) \<le> 6 * (length s - length u)" using 2 False Some by simp
      ultimately show ?thesis using False Some by simp
    qed
  qed
qed simp

lemma length_encode_rune: "length (encode_rune r) \<le> 4"
  by (simp add: encode_rune_def replacement_rune_def)

lemma length_quoteChar: "length (quoteChar c) \<le> 8"
  using length_encode_rune [of "ord c"] by (simp add: quoteChar_def)

end
