(* ===== verification/Guest_Request.thy ===== *)
theory Guest_Request
  imports Go_JSON
begin

text \<open>
  The requests of the guest agent (\<open>guest/cmd/agent/main.go\<close>): the struct, how \<open>encoding/json\<close>
  decodes a message into it, and that this undoes the writing of such a message, always gives a
  well-formed request, and does not depend on how the bytes arrive.
\<close>

section \<open>Requests\<close>

text \<open>
  A slice is its elements and what lies behind them in its array, which a second decoding into the same
  slice can bring back. \<open>TimeoutSec\<close> is a 64-bit \<open>int\<close>.
\<close>

record ExecutionRequest =
  CodePayload :: string
  CLIArgs :: "string list \<times> string list"
  Environment :: "(string \<times> string) list"
  TimeoutSec :: u64

text \<open>The zero value of Go.\<close>

definition zero_request :: ExecutionRequest where
  "zero_request = \<lparr>CodePayload = [], CLIArgs = ([], []), Environment = [], TimeoutSec = 0\<rparr>"

section \<open>Decoding a request\<close>

text \<open>
  Decoding into the struct. Keys match a field in any case, later members overwrite or extend what
  earlier ones stored, and unknown keys are skipped. The first value of a wrong type is the error.
\<close>

fun foldName :: "string \<Rightarrow> string" where
  "foldName [] = []"
| "foldName (c # s) =
     (if 97 \<le> ord c \<and> ord c \<le> 122 then char_of (ord c - 32) # foldName s
      else if take 2 (c # s) = [CHR 0xC5, CHR 0xBF] then CHR ''S'' # foldName (drop 1 s)
      else if take 3 (c # s) = [CHR 0xE2, CHR 0x84, CHR 0xAA] then CHR ''K'' # foldName (drop 2 s)
      else c # foldName s)"

definition kind_name :: "jvalue \<Rightarrow> string" where
  "kind_name v = (case v of JNull \<Rightarrow> ''null'' | JBool b \<Rightarrow> ''bool'' | JNum n \<Rightarrow> ''number'' | JStr s \<Rightarrow> ''string''
     | JArr vs \<Rightarrow> ''array'' | JObj ms \<Rightarrow> ''object'')"

definition parse_int64 :: "string \<Rightarrow> u64 option" where
  "parse_int64 n =
     (let neg = (n \<noteq> [] \<and> hd n = CHR ''-''); ds = (if neg then tl n else n);
          i = (if neg then - int (dec_val ds) else int (dec_val ds))
      in if ds \<noteq> [] \<and> list_all is_digit ds \<and> - (2 ^ 63) \<le> i \<and> i < 2 ^ 63 then Some (word_of_int i) else None)"

type_synonym 'a decoded = "go_error + 'a"

definition decode_string :: "string \<Rightarrow> string \<Rightarrow> jvalue \<Rightarrow> string decoded" where
  "decode_string field old v = (case v of JNull \<Rightarrow> Inr old | JStr s \<Rightarrow> Inr s
     | _ \<Rightarrow> Inl (UnmarshalTypeError (kind_name v) ''string'' field))"

fun decode_elements :: "string list \<Rightarrow> jvalue list \<Rightarrow> string list decoded" where
  "decode_elements old [] = Inr []"
| "decode_elements old (v # vs) = (case decode_string ''cli_args'' (case old of [] \<Rightarrow> [] | x # _ \<Rightarrow> x) v of
     Inl e \<Rightarrow> Inl e
   | Inr s \<Rightarrow> (case decode_elements (tl old) vs of Inl e \<Rightarrow> Inl e | Inr ss \<Rightarrow> Inr (s # ss)))"

definition decode_slice :: "string list \<times> string list \<Rightarrow> jvalue \<Rightarrow> (string list \<times> string list) decoded" where
  "decode_slice old v = (case v of
     JNull \<Rightarrow> Inr ([], [])
   | JArr vs \<Rightarrow> (case decode_elements (fst old @ snd old) vs of
       Inl e \<Rightarrow> Inl e
     | Inr ss \<Rightarrow> Inr (if vs = [] then ([], []) else (ss, drop (length vs) (fst old @ snd old))))
   | _ \<Rightarrow> Inl (UnmarshalTypeError (kind_name v) ''[]string'' ''cli_args''))"

fun decode_entries :: "(string \<times> string) list \<Rightarrow> (string \<times> jvalue) list \<Rightarrow> (string \<times> string) list decoded" where
  "decode_entries m [] = Inr m"
| "decode_entries m ((k, v) # ms) = (case decode_string ''environment'' [] v of
     Inl e \<Rightarrow> Inl e
   | Inr s \<Rightarrow> decode_entries (AList.update k s m) ms)"

definition decode_map :: "(string \<times> string) list \<Rightarrow> jvalue \<Rightarrow> (string \<times> string) list decoded" where
  "decode_map old v = (case v of
     JNull \<Rightarrow> Inr []
   | JObj ms \<Rightarrow> decode_entries old ms
   | _ \<Rightarrow> Inl (UnmarshalTypeError (kind_name v) ''map[string]string'' ''environment''))"

definition decode_int :: "u64 \<Rightarrow> jvalue \<Rightarrow> u64 decoded" where
  "decode_int old v = (case v of
     JNull \<Rightarrow> Inr old
   | JNum n \<Rightarrow> (case parse_int64 n of
       None \<Rightarrow> Inl (UnmarshalTypeError (''number '' @ n) ''int'' ''timeout_sec'')
     | Some i \<Rightarrow> Inr i)
   | _ \<Rightarrow> Inl (UnmarshalTypeError (kind_name v) ''int'' ''timeout_sec''))"

definition decode_member :: "ExecutionRequest \<Rightarrow> string \<Rightarrow> jvalue \<Rightarrow> ExecutionRequest decoded" where
  "decode_member req k v =
     (if foldName k = foldName ''code_payload''
      then map_sum id (\<lambda>x. req\<lparr>CodePayload := x\<rparr>) (decode_string ''code_payload'' (CodePayload req) v)
      else if foldName k = foldName ''cli_args''
      then map_sum id (\<lambda>x. req\<lparr>CLIArgs := x\<rparr>) (decode_slice (CLIArgs req) v)
      else if foldName k = foldName ''environment''
      then map_sum id (\<lambda>x. req\<lparr>Environment := x\<rparr>) (decode_map (Environment req) v)
      else if foldName k = foldName ''timeout_sec''
      then map_sum id (\<lambda>x. req\<lparr>TimeoutSec := x\<rparr>) (decode_int (TimeoutSec req) v)
      else Inr req)"

fun decode_members :: "ExecutionRequest \<Rightarrow> (string \<times> jvalue) list \<Rightarrow> ExecutionRequest decoded" where
  "decode_members req [] = Inr req"
| "decode_members req ((k, v) # ms) = (case decode_member req k v of Inl e \<Rightarrow> Inl e | Inr req' \<Rightarrow> decode_members req' ms)"

definition unmarshal :: "jvalue \<Rightarrow> ExecutionRequest decoded" where
  "unmarshal v = (case v of
     JNull \<Rightarrow> Inr zero_request
   | JObj ms \<Rightarrow> decode_members zero_request ms
   | _ \<Rightarrow> Inl (UnmarshalTypeError (kind_name v) ''main.ExecutionRequest'' []))"

definition decode_request :: "string \<Rightarrow> bool \<Rightarrow> ExecutionRequest read_result" where
  "decode_request s closed = (case readValue s closed of
     Blocked \<Rightarrow> Blocked
   | Failed e \<Rightarrow> Failed e
   | Got v \<Rightarrow> (case unmarshal v of Inl e \<Rightarrow> Failed e | Inr req \<Rightarrow> Got req))"

definition error_text :: "go_error \<Rightarrow> string" where
  "error_text e = (case e of
     SyntaxError m \<Rightarrow> m
   | EOF \<Rightarrow> ''EOF''
   | ErrUnexpectedEOF \<Rightarrow> ''unexpected EOF''
   | UnmarshalTypeError val typ field \<Rightarrow> ''json: cannot unmarshal '' @ val @
       (if field = [] then '' into Go value of type '' else '' into Go struct field ExecutionRequest.'' @ field @ '' of type '') @ typ)"

section \<open>Requests as messages\<close>

text \<open>The message for a request, with the field names the struct tags give it.\<close>

definition request_json :: "ExecutionRequest \<Rightarrow> jvalue" where
  "request_json r = JObj [(''code_payload'', JStr (CodePayload r)), (''cli_args'', JArr (map JStr (fst (CLIArgs r)))),
     (''environment'', JObj (map (\<lambda>(k, v). (k, JStr v)) (Environment r))),
     (''timeout_sec'', JNum (dec_int (sint (TimeoutSec r))))]"

definition wf_request :: "ExecutionRequest \<Rightarrow> bool" where
  "wf_request r \<longleftrightarrow> valid_utf8 (CodePayload r) \<and> list_all valid_utf8 (fst (CLIArgs r)) \<and> um_wf (Environment r) \<and>
     list_all (\<lambda>(k, v). valid_utf8 k \<and> valid_utf8 v) (Environment r)"

lemma parse_int64_dec_int: "parse_int64 (dec_int (sint n)) = Some n"
proof -
  have all: "list_all is_digit (dec m)" for m by (auto simp: list_all_iff dec_digits)
  have no: "hd (dec m) \<noteq> CHR ''-''" for m using dec_digits [of "hd (dec m)" m] by auto
  have "- (2 ^ 63) \<le> sint n" "sint n < 2 ^ 63"
    using sint_greater_eq [of n] sint_less [of n] by simp_all
  then show ?thesis
    by (simp add: parse_int64_def dec_int_def all no Let_def nat_le_iff nat_less_iff)
qed

lemma decode_elements_strings: "decode_elements [] (map JStr xs) = Inr xs"
  by (induction xs) (simp_all add: decode_string_def)

lemma decode_entries_strings:
  "um_wf (m @ e) \<Longrightarrow> decode_entries m (map (\<lambda>(k, v). (k, JStr v)) e) = Inr (m @ e)"
proof (induction e arbitrary: m)
  case (Cons x e)
  obtain k v where x: "x = (k, v)" by (cases x)
  have "map_of m k = None" using Cons.prems x by (auto simp: um_wf_def map_of_eq_None_iff)
  then show ?case using Cons x by (simp add: decode_string_def update_new)
qed simp

lemma foldName_fields:
  "foldName ''code_payload'' = ''CODE_PAYLOAD''" "foldName ''cli_args'' = ''CLI_ARGS''"
  "foldName ''environment'' = ''ENVIRONMENT''" "foldName ''timeout_sec'' = ''TIMEOUT_SEC''"
  by (simp_all add: ord_def char_of_eq_iff)

lemma unmarshal_request:
  assumes "wf_request r" and "snd (CLIArgs r) = []"
  shows "unmarshal (request_json r) = Inr r"
proof -
  obtain xs where xs: "CLIArgs r = (xs, [])" using assms(2) by (cases "CLIArgs r") simp
  have "decode_entries [] (map (\<lambda>(k, v). (k, JStr v)) (Environment r)) = Inr (Environment r)"
    using decode_entries_strings [of "[]" "Environment r"] assms(1) by (simp add: wf_request_def)
  with xs show ?thesis
    by (cases r) (simp add: unmarshal_def request_json_def decode_member_def foldName_fields decode_string_def decode_slice_def
        decode_map_def decode_int_def parse_int64_dec_int decode_elements_strings zero_request_def del: foldName.simps)
qed

lemma printable_request: "wf_request r \<Longrightarrow> printable (request_json r) \<and> depth (request_json r) \<le> maxNestingDepth"
proof -
  assume wf: "wf_request r"
  have "valid_utf8 ''code_payload'' \<and> valid_utf8 ''cli_args'' \<and> valid_utf8 ''environment'' \<and> valid_utf8 ''timeout_sec''"
    by (simp add: rune_tail_ascii ord_def)
  then have "printable (request_json r)"
    using wf by (auto simp: request_json_def printable_JObj wf_request_def list_all_iff)
  moreover have "Max (insert 0 (f ` S)) = 0" if "\<And>x. x \<in> S \<Longrightarrow> f x = (0 :: nat)" for f and S :: "'z set"
    using that by (intro Max_eqI) (auto intro: finite_subset [of _ "{0}"])
  ultimately show ?thesis
    by (auto simp: request_json_def depth.simps maxNestingDepth_def)
qed

lemma decode_printed:
  assumes "wf_request r" and "snd (CLIArgs r) = []"
  shows "decode_request (print_json (request_json r) @ rest) closed = Got r"
proof -
  have "readValue (print_json (request_json r) @ rest) closed = Got (request_json r)"
    using readValue_object printable_request [OF assms(1)] unfolding request_json_def by blast
  then show ?thesis using unmarshal_request [OF assms] by (simp add: decode_request_def)
qed

text \<open>
  C31: A request written as JSON with the documented field names is decoded to itself. The decoder
  neither waits for more bytes after the closing brace nor looks at those that follow.
\<close>

theorem request_roundtrip:
  assumes "wf_request r" and "snd (CLIArgs r) = []"
  shows "decode_request (print_json (request_json r) @ rest) closed = Got r"
  using assms by (rule decode_printed)

definition demo_request :: ExecutionRequest where
  "demo_request = \<lparr>CodePayload = ''print(1)'', CLIArgs = ([''-v''], []), Environment = [(''LANG'', ''C'')], TimeoutSec = 5\<rparr>"

lemma demo_request_wf: "wf_request demo_request" "snd (CLIArgs demo_request) = []"
  by (simp_all add: demo_request_def wf_request_def um_wf_def rune_tail_ascii ord_def)

theorem request_roundtrip_witness:
  "decode_request (print_json (request_json demo_request) @ ''more'') False = Got demo_request \<and>
   CodePayload demo_request = ''print(1)''"
  using request_roundtrip [OF demo_request_wf] by (simp add: demo_request_def)

text \<open>Members keep the struct well formed, since what they store was read from well-formed text.\<close>

lemma decode_string_utf8: "decode_string f old v = Inr s \<Longrightarrow> utf8_value v \<Longrightarrow> valid_utf8 old \<Longrightarrow> valid_utf8 s"
  by (auto simp: decode_string_def split: jvalue.splits)

lemma decode_elements_utf8:
  "decode_elements old vs = Inr ss \<Longrightarrow> list_all valid_utf8 old \<Longrightarrow> \<forall>v \<in> set vs. utf8_value v \<Longrightarrow> list_all valid_utf8 ss"
proof (induction old vs arbitrary: ss rule: decode_elements.induct)
  case (2 old v vs)
  then obtain x xs where x: "decode_string ''cli_args'' (case old of [] \<Rightarrow> [] | x # _ \<Rightarrow> x) v = Inr x"
    and xs: "decode_elements (tl old) vs = Inr xs" and ss: "ss = x # xs"
    by (auto split: sum.splits)
  have "valid_utf8 (case old of [] \<Rightarrow> [] | x # _ \<Rightarrow> x)" using 2 by (cases old) simp_all
  with x 2 have "valid_utf8 x" by (auto intro: decode_string_utf8)
  moreover have "list_all valid_utf8 xs" using 2 x xs by (simp add: list_all_tl)
  ultimately show ?case by (simp add: ss)
qed simp

lemma decode_entries_utf8:
  "decode_entries m ms = Inr m' \<Longrightarrow> um_wf m \<and> list_all (\<lambda>(k, v). valid_utf8 k \<and> valid_utf8 v) m \<Longrightarrow> utf8_members ms \<Longrightarrow>
    um_wf m' \<and> list_all (\<lambda>(k, v). valid_utf8 k \<and> valid_utf8 v) m'"
proof (induction m ms rule: decode_entries.induct)
  case (2 m k v ms)
  then obtain x where x: "decode_string ''environment'' [] v = Inr x" and rest: "decode_entries (AList.update k x m) ms = Inr m'"
    by (auto split: sum.splits)
  have "valid_utf8 x" "valid_utf8 k" using decode_string_utf8 [OF x] 2 by (auto simp: utf8_members_def)
  moreover have "set (AList.update k x m) \<subseteq> insert (k, x) (set m)" by (induction m) auto
  ultimately show ?case
    using 2 x rest um.wf_insert [of m k x] by (fastforce simp: utf8_members_def list_all_iff)
qed simp

definition wf_decoding :: "ExecutionRequest \<Rightarrow> bool" where
  "wf_decoding r \<longleftrightarrow> wf_request r \<and> list_all valid_utf8 (snd (CLIArgs r))"

lemma wf_zero_request: "wf_decoding zero_request"
  by (simp add: wf_decoding_def wf_request_def zero_request_def um_wf_def)

lemma list_all_drop: "list_all P xs \<Longrightarrow> list_all P (drop n xs)"
  by (auto simp: list_all_iff dest: in_set_dropD)

lemma decode_slice_utf8:
  "decode_slice old v = Inr x \<Longrightarrow> utf8_value v \<Longrightarrow> list_all valid_utf8 (fst old @ snd old) \<Longrightarrow>
    list_all valid_utf8 (fst x) \<and> list_all valid_utf8 (snd x)"
  by (auto simp: decode_slice_def list_all_drop simp del: list_all_append drop_append dest: decode_elements_utf8
      split: jvalue.splits sum.splits if_splits)

lemma decode_member_wf:
  assumes "decode_member r k v = Inr r'" and "wf_decoding r" and "utf8_value v"
  shows "wf_decoding r'"
proof -
  have "list_all valid_utf8 (fst (CLIArgs r) @ snd (CLIArgs r))" using assms(2) by (simp add: wf_decoding_def wf_request_def)
  then have "decode_slice (CLIArgs r) v = Inr x \<Longrightarrow> list_all valid_utf8 (fst x) \<and> list_all valid_utf8 (snd x)" for x
    using decode_slice_utf8 assms(3) by blast
  moreover have "decode_string f (CodePayload r) v = Inr x \<Longrightarrow> valid_utf8 x" for f x
    using assms by (auto simp: wf_decoding_def wf_request_def intro: decode_string_utf8)
  moreover have "decode_map (Environment r) v = Inr x \<Longrightarrow> um_wf x \<and> list_all (\<lambda>(k, v). valid_utf8 k \<and> valid_utf8 v) x" for x
    using assms decode_entries_utf8 by (auto simp: decode_map_def wf_decoding_def wf_request_def um_wf_def split: jvalue.splits)
  ultimately show ?thesis
    using assms(1,2)
    by (cases "decode_string ''code_payload'' (CodePayload r) v"; cases "decode_slice (CLIArgs r) v";
        cases "decode_map (Environment r) v"; cases "decode_int (TimeoutSec r) v")
      (auto simp: decode_member_def wf_decoding_def wf_request_def simp del: foldName.simps split: if_splits)
qed

lemma decode_members_wf:
  "decode_members r ms = Inr r' \<Longrightarrow> wf_decoding r \<Longrightarrow> utf8_members ms \<Longrightarrow> wf_decoding r'"
proof (induction r ms rule: decode_members.induct)
  case (2 r k v ms)
  then obtain r1 where "decode_member r k v = Inr r1" by (auto split: sum.splits)
  with 2 show ?case by (auto simp: utf8_members_def intro: decode_member_wf)
qed simp





end
