(* ===== verification/Guest_Agent.thy ===== *)
theory Guest_Agent
  imports Guest_Request
begin

text \<open>
  The agent inside the microVM (\<open>guest/cmd/agent/main.go\<close>): one definition per part of
  \<open>handleConnection\<close>, and the agent as a whole, where every accepted connection is a goroutine and the
  steps of all of them interleave.

  The record \<open>guest_env\<close> answers what the agent asks of its machine, from the history of what was
  done: the clock, the file system, the inherited environment, the order in which a map is visited,
  and the run of the Python process, which may change files. The directory \<open>/tmp\<close> is part of the
  state, since all goroutines and processes share it.
\<close>

section \<open>Responses\<close>

record ExecutionResponse =
  ExitCode :: int
  Stdout :: string
  Stderr :: string
  DurationMS :: string
  ErrorString :: string

text \<open>The zero value of Go. The duration is a floating point number; here it is the number as it is printed.\<close>

definition zero_response :: ExecutionResponse where
  "zero_response = \<lparr>ExitCode = 0, Stdout = [], Stderr = [], DurationMS = ''0'', ErrorString = []\<rparr>"

section \<open>The machine of the guest\<close>

datatype run_error = NoError | ExitError int | OtherError string

record run_result =
  rr_stdout :: string
  rr_stderr :: string
  rr_err :: run_error
  rr_deadline :: bool

text \<open>A write of a file can fail before the file is there, or leave the first bytes of it.\<close>

datatype write_answer = Written | OpenFailed string | WriteFailed string nat

datatype gevent = GClock int | WriteFile path string write_answer
  | RunCmd ExecutionRequest "string list" "string list" u64 "string option" run_result
  | RemoveScript path bool | RemoveSocket path | Listen path "string option" | ChmodSocket path

record guest_env =
  g_clock :: "gevent list \<Rightarrow> int"
  g_write :: "gevent list \<Rightarrow> path \<Rightarrow> string \<Rightarrow> write_answer"
  g_remove :: "gevent list \<Rightarrow> path \<Rightarrow> bool"
  g_environ :: "gevent list \<Rightarrow> string list"
  g_range :: "gevent list \<Rightarrow> (string \<times> string) list \<Rightarrow> (string \<times> string) list"
  g_run :: "gevent list \<Rightarrow> string list \<Rightarrow> string list \<Rightarrow> u64 \<Rightarrow> (path \<rightharpoonup> string) \<Rightarrow> run_result \<times> (path \<rightharpoonup> string)"
  g_since :: "gevent list \<Rightarrow> int \<Rightarrow> string"
  g_listen :: "gevent list \<Rightarrow> path \<Rightarrow> string option"

record guest =
  tmp_files :: "path \<rightharpoonup> string"
  g_trace :: "gevent list"

section \<open>The parts of handleConnection\<close>

definition error_response :: "string \<Rightarrow> ExecutionResponse" where
  "error_response m = zero_response\<lparr>ExitCode := -1, ErrorString := m\<rparr>"

definition script_path :: "int \<Rightarrow> path" where
  "script_path nano = ''/tmp/agent_script_'' @ dec_int nano @ ''.py''"

definition defaultTimeout :: u64 where
  "defaultTimeout = 15 * 1000000000"

definition run_timeout :: "ExecutionRequest \<Rightarrow> u64" where
  "run_timeout req = (if 0 < sint (TimeoutSec req) then TimeoutSec req * 1000000000 else defaultTimeout)"

definition run_args :: "path \<Rightarrow> ExecutionRequest \<Rightarrow> string list" where
  "run_args scriptPath req = ''python3'' # scriptPath # fst (CLIArgs req)"

definition run_env :: "guest_env \<Rightarrow> gevent list \<Rightarrow> ExecutionRequest \<Rightarrow> string list" where
  "run_env G t req = g_environ G t @ map (\<lambda>(k, v). k @ ''='' @ v) (g_range G t (Environment req))"

definition run_outcome :: "run_result \<Rightarrow> int \<times> string" where
  "run_outcome r = (case rr_err r of
     NoError \<Rightarrow> (0, [])
   | err \<Rightarrow> if rr_deadline r then (124, ''Execution timed out inside guest microVM'')
       else (case err of ExitError code \<Rightarrow> (code, []) | OtherError m \<Rightarrow> (-1, m) | NoError \<Rightarrow> (0, [])))"

definition run_response :: "run_result \<Rightarrow> string \<Rightarrow> ExecutionResponse" where
  "run_response r duration =
     \<lparr>ExitCode = fst (run_outcome r), Stdout = rr_stdout r, Stderr = rr_stderr r, DurationMS = duration,
      ErrorString = snd (run_outcome r)\<rparr>"

definition encode_response :: "ExecutionResponse \<Rightarrow> string" where
  "encode_response resp = print_json (JObj (
     [(''exit_code'', JNum (dec_int (ExitCode resp))), (''stdout'', JStr (Stdout resp)),
      (''stderr'', JStr (Stderr resp)), (''duration_ms'', JNum (DurationMS resp))] @
     (if ErrorString resp = [] then [] else [(''error_string'', JStr (ErrorString resp))]))) @ [CHR 0x0A]"

text \<open>
  A goroutine between two operations that other goroutines can see: it holds the bytes received, the
  request, the script it has written, the response, or the reply that is sent. The path is that of the
  deferred removal.
\<close>

datatype stage = Decoding string bool | Naming ExecutionRequest
  | Writing ExecutionRequest int path | Executing ExecutionRequest int path
  | Answering ExecutionResponse "path option" | Returning string "path option" | Closed string

definition write_file :: "path \<Rightarrow> string \<Rightarrow> write_answer \<Rightarrow> (path \<rightharpoonup> string) \<Rightarrow> (path \<rightharpoonup> string)" where
  "write_file p content a fs = (case a of
     Written \<Rightarrow> fs(p \<mapsto> content) | OpenFailed e \<Rightarrow> fs | WriteFailed e n \<Rightarrow> fs(p \<mapsto> take n content))"

definition decode_step :: "string \<Rightarrow> bool \<Rightarrow> stage" where
  "decode_step s closed = (case decode_request s closed of
     Blocked \<Rightarrow> Decoding s closed
   | Failed e \<Rightarrow> Answering (error_response (''Failed to decode JSON execution request: '' @ error_text e)) None
   | Got req \<Rightarrow> Naming req)"

definition name_step :: "guest_env \<Rightarrow> ExecutionRequest \<Rightarrow> guest \<Rightarrow> stage \<times> guest" where
  "name_step G req w =
     (let startTime = g_clock G (g_trace w); t1 = g_trace w @ [GClock startTime]; nano = g_clock G t1
      in (Writing req startTime (script_path nano), w\<lparr>g_trace := t1 @ [GClock nano]\<rparr>))"

definition write_step :: "guest_env \<Rightarrow> ExecutionRequest \<Rightarrow> int \<Rightarrow> path \<Rightarrow> guest \<Rightarrow> stage \<times> guest" where
  "write_step G req startTime p w =
     (let a = g_write G (g_trace w) p (CodePayload req);
          w' = w\<lparr>tmp_files := write_file p (CodePayload req) a (tmp_files w),
                 g_trace := g_trace w @ [WriteFile p (CodePayload req) a]\<rparr>;
          failed = (\<lambda>e. Answering (error_response (''Failed to write temporary python script: '' @ e)) None)
      in (case a of Written \<Rightarrow> Executing req startTime p | OpenFailed e \<Rightarrow> failed e | WriteFailed e n \<Rightarrow> failed e, w'))"

definition execute_step :: "guest_env \<Rightarrow> ExecutionRequest \<Rightarrow> int \<Rightarrow> path \<Rightarrow> guest \<Rightarrow> stage \<times> guest" where
  "execute_step G req startTime p w =
     (let t = g_trace w; args = run_args p req; vars = run_env G t req; timeout = run_timeout req;
          (r, files) = g_run G t args vars timeout (tmp_files w);
          t' = t @ [RunCmd req args vars timeout (tmp_files w p) r]
      in (Answering (run_response r (g_since G t' startTime)) (Some p), w\<lparr>tmp_files := files, g_trace := t'\<rparr>))"

definition return_step :: "guest_env \<Rightarrow> path option \<Rightarrow> guest \<Rightarrow> guest" where
  "return_step G p w = (case p of
     None \<Rightarrow> w
   | Some q \<Rightarrow> let ok = g_remove G (g_trace w) q in
       w\<lparr>tmp_files := (if ok then (tmp_files w)(q := None) else tmp_files w), g_trace := g_trace w @ [RemoveScript q ok]\<rparr>)"

fun advance :: "guest_env \<Rightarrow> stage \<times> guest \<Rightarrow> stage \<times> guest" where
  "advance G (Decoding s closed, w) = (decode_step s closed, w)"
| "advance G (Naming req, w) = name_step G req w"
| "advance G (Writing req startTime p, w) = write_step G req startTime p w"
| "advance G (Executing req startTime p, w) = execute_step G req startTime p w"
| "advance G (Answering resp p, w) = (Returning (encode_response resp) p, w)"
| "advance G (Returning reply p, w) = (Closed reply, return_step G p w)"
| "advance G (Closed reply, w) = (Closed reply, w)"

text \<open>The whole handler, undisturbed, on the bytes a peer has sent.\<close>

definition handleConnection :: "guest_env \<Rightarrow> string \<Rightarrow> bool \<Rightarrow> guest \<Rightarrow> stage \<times> guest" where
  "handleConnection G s closed w = (advance G ^^ 6) (Decoding s closed, w)"

section \<open>The agent\<close>

text \<open>
  \<open>main\<close> removes a stale socket, ends the program when it cannot listen, and opens the socket for
  all users; the results of the removal and of the change of mode are thrown away. Then it accepts for
  ever; a failed accept changes nothing. Each connection becomes a goroutine; bytes come in and the peer
  may close its side while the goroutine is decoding.
\<close>

record agent =
  machine :: guest
  conns :: "stage list"

definition socketPath :: path where
  "socketPath = ''/run/aegis-guest.sock''"

definition main_start :: "guest_env \<Rightarrow> guest \<Rightarrow> agent option" where
  "main_start G w =
     (let t1 = g_trace w @ [RemoveSocket socketPath]; err = g_listen G t1 socketPath; t2 = t1 @ [Listen socketPath err]
      in case err of Some e \<Rightarrow> None
         | None \<Rightarrow> Some \<lparr>machine = w\<lparr>g_trace := t2 @ [ChmodSocket socketPath]\<rparr>, conns = []\<rparr>)"

definition main_accept :: "string option \<Rightarrow> agent \<Rightarrow> agent" where
  "main_accept err A = (case err of Some e \<Rightarrow> A | None \<Rightarrow> A\<lparr>conns := conns A @ [Decoding [] False]\<rparr>)"

definition goroutine_step :: "guest_env \<Rightarrow> nat \<Rightarrow> agent \<Rightarrow> agent" where
  "goroutine_step G i A = (case advance G (conns A ! i, machine A) of
     (st, w) \<Rightarrow> A\<lparr>machine := w, conns := (conns A)[i := st]\<rparr>)"

inductive agent_run :: "guest_env \<Rightarrow> guest \<Rightarrow> agent \<Rightarrow> bool" for G w where
  start: "main_start G w = Some A \<Longrightarrow> agent_run G w A"
| accept: "agent_run G w A \<Longrightarrow> agent_run G w (main_accept err A)"
| receive: "agent_run G w A \<Longrightarrow> i < length (conns A) \<Longrightarrow> conns A ! i = Decoding s False \<Longrightarrow>
    agent_run G w (A\<lparr>conns := (conns A)[i := Decoding (s @ bs) False]\<rparr>)"
| hang_up: "agent_run G w A \<Longrightarrow> i < length (conns A) \<Longrightarrow> conns A ! i = Decoding s False \<Longrightarrow>
    agent_run G w (A\<lparr>conns := (conns A)[i := Decoding s True]\<rparr>)"
| go: "agent_run G w A \<Longrightarrow> i < length (conns A) \<Longrightarrow> agent_run G w (goroutine_step G i A)"

section \<open>Scripts of different goroutines\<close>

fun script_of :: "stage \<Rightarrow> path option" where
  "script_of (Writing req startTime p) = Some p"
| "script_of (Executing req startTime p) = Some p"
| "script_of (Answering resp p) = p"
| "script_of (Returning reply p) = p"
| "script_of _ = None"

text \<open>
  What the isolation of goroutines rests on: no two readings of the clock are equal, and the processes
  leave the scripts of the agent alone. Nothing else protects them, as all run as the same user.
\<close>

definition clock_advances :: "guest_env \<Rightarrow> bool" where
  "clock_advances G \<longleftrightarrow> (\<forall>t n. GClock n \<in> set t \<longrightarrow> n < g_clock G t)"

definition scripts_untouched :: "guest_env \<Rightarrow> bool" where
  "scripts_untouched G \<longleftrightarrow> (\<forall>t args vars timeout fs n. snd (g_run G t args vars timeout fs) (script_path n) = fs (script_path n))"

text \<open>A script the agent can no longer remove: its write failed half way, or its removal failed.\<close>

definition left_behind :: "path \<Rightarrow> gevent list \<Rightarrow> bool" where
  "left_behind p t \<longleftrightarrow> (\<exists>c e n. WriteFile p c (WriteFailed e n) \<in> set t) \<or> RemoveScript p False \<in> set t"

fun ran_own_code :: "gevent \<Rightarrow> bool" where
  "ran_own_code (RunCmd req args vars timeout script r) \<longleftrightarrow> script = Some (CodePayload req)"
| "ran_own_code _ \<longleftrightarrow> True"

text \<open>
  The invariant: every goroutine that has a script has one with a name of its own, the script is in place
  when it is needed, every process so far ran its own code, and no script is there without a reason.
\<close>

definition scripts_held :: "agent \<Rightarrow> bool" where
  "scripts_held A \<longleftrightarrow>
     (\<forall>i < length (conns A). \<forall>p. script_of (conns A ! i) = Some p \<longrightarrow>
        (\<exists>n. p = script_path n \<and> GClock n \<in> set (g_trace (machine A)))) \<and>
     (\<forall>i < length (conns A). \<forall>j < length (conns A). \<forall>p. i \<noteq> j \<and> script_of (conns A ! i) = Some p \<longrightarrow> script_of (conns A ! j) \<noteq> Some p)"

definition scripts_in_place :: "agent \<Rightarrow> bool" where
  "scripts_in_place A \<longleftrightarrow>
     (\<forall>i < length (conns A). \<forall>req s p. conns A ! i = Executing req s p \<longrightarrow> tmp_files (machine A) p = Some (CodePayload req)) \<and>
     (\<forall>i < length (conns A). \<forall>req s p. conns A ! i = Writing req s p \<longrightarrow>
        tmp_files (machine A) p = None \<or> left_behind p (g_trace (machine A)))"

definition scripts_accounted :: "agent \<Rightarrow> bool" where
  "scripts_accounted A \<longleftrightarrow> (\<forall>n. tmp_files (machine A) (script_path n) \<noteq> None \<longrightarrow>
     (\<exists>i < length (conns A). script_of (conns A ! i) = Some (script_path n)) \<or> left_behind (script_path n) (g_trace (machine A)))"

definition agent_inv :: "agent \<Rightarrow> bool" where
  "agent_inv A \<longleftrightarrow> scripts_held A \<and> scripts_in_place A \<and> list_all ran_own_code (g_trace (machine A)) \<and> scripts_accounted A"

lemmas agent_inv_defs = agent_inv_def scripts_held_def scripts_in_place_def scripts_accounted_def

lemma dec_int_inj: "dec_int i = dec_int j \<Longrightarrow> i = j"
proof -
  have sign: "hd (dec n) \<noteq> CHR ''-''" for n
    using dec_digits [of "hd (dec n)" n] by auto
  have "dec m \<noteq> CHR ''-'' # s" for m s
    using sign [of m] by auto
  moreover have "CHR ''-'' # s \<noteq> dec m" for m s
    using sign [of m] by (metis list.sel(1))
  moreover assume "dec_int i = dec_int j"
  ultimately show ?thesis
    by (auto simp: dec_int_def dec_inj split: if_splits)
qed

lemma script_path_inj: "script_path m = script_path n \<longleftrightarrow> m = n"
  by (auto simp: script_path_def dest: dec_int_inj)

lemma left_behind_append: "left_behind p (t @ u) \<longleftrightarrow> left_behind p t \<or> left_behind p u"
  by (auto simp: left_behind_def)

lemma left_behind_write: "left_behind p [WriteFile q c a] \<longleftrightarrow> p = q \<and> (\<exists>e n. a = WriteFailed e n)"
  by (auto simp: left_behind_def)

lemma left_behind_remove: "left_behind p [RemoveScript q ok] \<longleftrightarrow> p = q \<and> \<not> ok"
  by (auto simp: left_behind_def)

lemma agent_invI:
  assumes "\<And>i p. i < length (conns A) \<Longrightarrow> script_of (conns A ! i) = Some p \<Longrightarrow>
      \<exists>n. p = script_path n \<and> GClock n \<in> set (g_trace (machine A))"
    and "\<And>i j p. i < length (conns A) \<Longrightarrow> j < length (conns A) \<Longrightarrow> i \<noteq> j \<Longrightarrow> script_of (conns A ! i) = Some p \<Longrightarrow>
      script_of (conns A ! j) \<noteq> Some p"
    and "\<And>i req s p. i < length (conns A) \<Longrightarrow> conns A ! i = Executing req s p \<Longrightarrow> tmp_files (machine A) p = Some (CodePayload req)"
    and "\<And>i req s p. i < length (conns A) \<Longrightarrow> conns A ! i = Writing req s p \<Longrightarrow>
      tmp_files (machine A) p = None \<or> left_behind p (g_trace (machine A))"
    and "list_all ran_own_code (g_trace (machine A))"
    and "\<And>n. tmp_files (machine A) (script_path n) \<noteq> None \<Longrightarrow>
      (\<exists>i < length (conns A). script_of (conns A ! i) = Some (script_path n)) \<or> left_behind (script_path n) (g_trace (machine A))"
  shows "agent_inv A"
  unfolding agent_inv_defs using assms by blast

text \<open>One goroutine moves: what it has to respect for each part of the invariant of all.\<close>

lemma scripts_held_update:
  assumes inv: "scripts_held A" and i: "i < length (conns A)" and tr: "g_trace w' = g_trace (machine A) @ u"
    and held: "\<And>p. script_of st' = Some p \<Longrightarrow> script_of (conns A ! i) = Some p \<or>
      (\<exists>n. p = script_path n \<and> GClock n \<in> set u \<and> GClock n \<notin> set (g_trace (machine A)))"
  shows "scripts_held (A\<lparr>machine := w', conns := (conns A)[i := st']\<rparr>)"
proof -
  let ?c = "conns A" and ?c' = "(conns A)[i := st']"
  have named: "\<exists>n. p = script_path n \<and> GClock n \<in> set (g_trace (machine A))" if "j < length ?c" "script_of (?c ! j) = Some p" for j p
    using inv that unfolding scripts_held_def by blast
  have dist: "script_of (?c ! k) \<noteq> Some p" if "j < length ?c" "k < length ?c" "j \<noteq> k" "script_of (?c ! j) = Some p" for j k p
    using inv that unfolding scripts_held_def by blast
  have new: "script_of (?c ! j) \<noteq> Some p" if "script_of st' = Some p" "j < length ?c" "j \<noteq> i" for j p
    using held [OF that(1)] dist [OF i that(2)] that(3) named [OF that(2), of p] by (auto simp: script_path_inj)
  have "\<exists>n. p = script_path n \<and> GClock n \<in> set (g_trace w')" if "j < length ?c" "script_of (?c' ! j) = Some p" for j p
  proof (cases "j = i")
    case True
    with that i have "script_of st' = Some p" by simp
    from held [OF this] named [OF i, of p] show ?thesis by (auto simp: tr)
  next
    case False
    with that named [of j p] show ?thesis by (auto simp: tr)
  qed
  moreover have "script_of (?c' ! k) \<noteq> Some p" if "j < length ?c" "k < length ?c" "j \<noteq> k" "script_of (?c' ! j) = Some p" for j k p
  proof (cases "j = i")
    case True
    with that i new [of p k] show ?thesis by simp
  next
    case False
    with that new [of p j] dist [of j k p] show ?thesis by (cases "k = i") auto
  qed
  ultimately show ?thesis by (simp add: scripts_held_def)
qed

lemma scripts_in_place_update:
  assumes held: "scripts_held A" and inv: "scripts_in_place A" and i: "i < length (conns A)"
    and tr: "g_trace w' = g_trace (machine A) @ u"
    and others: "\<And>n. script_of (conns A ! i) \<noteq> Some (script_path n) \<Longrightarrow>
      tmp_files w' (script_path n) = tmp_files (machine A) (script_path n)"
    and own: "\<And>req s p. st' = Executing req s p \<Longrightarrow> tmp_files w' p = Some (CodePayload req)"
    and unwritten: "\<And>req s p. st' = Writing req s p \<Longrightarrow> tmp_files w' p = None \<or> left_behind p (g_trace w')"
  shows "scripts_in_place (A\<lparr>machine := w', conns := (conns A)[i := st']\<rparr>)"
proof -
  let ?c = "conns A" and ?c' = "(conns A)[i := st']"
  have same: "tmp_files w' p = tmp_files (machine A) p" if j: "j < length ?c" "j \<noteq> i" "script_of (?c ! j) = Some p" for j p
  proof -
    obtain n where "p = script_path n" using held j unfolding scripts_held_def by blast
    moreover have "script_of (?c ! i) \<noteq> Some p" using held j i unfolding scripts_held_def by blast
    ultimately show ?thesis using others by blast
  qed
  have "tmp_files w' p = Some (CodePayload req)" if "j < length ?c" "?c' ! j = Executing req s p" for j req s p
  proof (cases "j = i")
    case False
    with that have "?c ! j = Executing req s p" by simp
    with same [OF that(1) False, of p] inv that(1) show ?thesis by (simp add: scripts_in_place_def)
  qed (use that own in simp)
  moreover have "tmp_files w' p = None \<or> left_behind p (g_trace w')" if "j < length ?c" "?c' ! j = Writing req s p" for j req s p
  proof (cases "j = i")
    case False
    with that have c: "?c ! j = Writing req s p" by simp
    with inv that(1) have "tmp_files (machine A) p = None \<or> left_behind p (g_trace (machine A))"
      unfolding scripts_in_place_def by blast
    with same [OF that(1) False, of p] c show ?thesis by (auto simp: tr left_behind_append)
  qed (use that unwritten in simp)
  ultimately show ?thesis by (simp add: scripts_in_place_def)
qed

lemma scripts_accounted_update:
  assumes inv: "scripts_accounted A" and i: "i < length (conns A)" and tr: "g_trace w' = g_trace (machine A) @ u"
    and others: "\<And>n. script_of (conns A ! i) \<noteq> Some (script_path n) \<Longrightarrow>
      tmp_files w' (script_path n) = tmp_files (machine A) (script_path n)"
    and gone: "\<And>n. script_of (conns A ! i) = Some (script_path n) \<Longrightarrow> tmp_files w' (script_path n) \<noteq> None \<Longrightarrow>
      script_of st' = Some (script_path n) \<or> left_behind (script_path n) (g_trace w')"
  shows "scripts_accounted (A\<lparr>machine := w', conns := (conns A)[i := st']\<rparr>)"
proof -
  let ?c = "conns A" and ?c' = "(conns A)[i := st']"
  have "(\<exists>j < length ?c. script_of (?c' ! j) = Some (script_path n)) \<or> left_behind (script_path n) (g_trace w')"
    if there: "tmp_files w' (script_path n) \<noteq> None" for n
  proof (cases "script_of (?c ! i) = Some (script_path n)")
    case True
    with gone [OF True] there i show ?thesis by (auto intro!: exI [of _ i])
  next
    case False
    with others there have "tmp_files (machine A) (script_path n) \<noteq> None" by simp
    then consider j where "j < length ?c" "script_of (?c ! j) = Some (script_path n)" | "left_behind (script_path n) (g_trace (machine A))"
      using inv unfolding scripts_accounted_def by blast
    then show ?thesis
    proof cases
      case (1 j)
      moreover from this False have "j \<noteq> i" by auto
      ultimately show ?thesis by (intro disjI1 exI [of _ j]) simp
    qed (simp add: tr left_behind_append)
  qed
  then show ?thesis by (simp add: scripts_accounted_def)
qed

lemma agent_inv_update:
  assumes "agent_inv A" and "i < length (conns A)" and "g_trace w' = g_trace (machine A) @ u" and "list_all ran_own_code u"
    and "\<And>p. script_of st' = Some p \<Longrightarrow> script_of (conns A ! i) = Some p \<or>
      (\<exists>n. p = script_path n \<and> GClock n \<in> set u \<and> GClock n \<notin> set (g_trace (machine A)))"
    and "\<And>n. script_of (conns A ! i) \<noteq> Some (script_path n) \<Longrightarrow>
      tmp_files w' (script_path n) = tmp_files (machine A) (script_path n)"
    and "\<And>req s p. st' = Executing req s p \<Longrightarrow> tmp_files w' p = Some (CodePayload req)"
    and "\<And>req s p. st' = Writing req s p \<Longrightarrow> tmp_files w' p = None \<or> left_behind p (g_trace w')"
    and "\<And>n. script_of (conns A ! i) = Some (script_path n) \<Longrightarrow> tmp_files w' (script_path n) \<noteq> None \<Longrightarrow>
      script_of st' = Some (script_path n) \<or> left_behind (script_path n) (g_trace w')"
  shows "agent_inv (A\<lparr>machine := w', conns := (conns A)[i := st']\<rparr>)"
proof -
  from assms(1) have inv: "scripts_held A" "scripts_in_place A" "list_all ran_own_code (g_trace (machine A))" "scripts_accounted A"
    unfolding agent_inv_def by blast+
  show ?thesis unfolding agent_inv_def
    using scripts_held_update [OF inv(1) assms(2,3,5)] scripts_in_place_update [OF inv(1,2) assms(2,3,6,7,8)]
      scripts_accounted_update [OF inv(4) assms(2,3,6,9)] inv(3) assms(3,4) by simp
qed

lemma agent_inv_go:
  assumes clock: "clock_advances G" and tidy: "scripts_untouched G" and inv: "agent_inv A" and i: "i < length (conns A)"
  shows "agent_inv (goroutine_step G i A)"
proof -
  let ?w = "machine A" and ?t = "g_trace (machine A)"
  obtain st' w' where adv: "advance G (conns A ! i, ?w) = (st', w')" by fastforce
  have step: "goroutine_step G i A = A\<lparr>machine := w', conns := (conns A)[i := st']\<rparr>"
    by (simp add: goroutine_step_def adv)
  note update = agent_inv_update [OF inv i]
  show ?thesis
  proof (cases "conns A ! i")
    case (Decoding s closed)
    have "script_of (decode_step s closed) = None" by (simp add: decode_step_def split: read_result.split)
    with Decoding adv have "script_of (conns A ! i) = None" "script_of st' = None" "w' = ?w" by auto
    then show ?thesis unfolding step by (intro update [of _ "[]"]) auto
  next
    case (Naming req)
    define n1 where "n1 = g_clock G ?t"
    define n2 where "n2 = g_clock G (?t @ [GClock n1])"
    have st': "st' = Writing req n1 (script_path n2)" and w': "w' = ?w\<lparr>g_trace := ?t @ [GClock n1, GClock n2]\<rparr>"
      using adv Naming by (simp_all add: name_step_def n1_def n2_def Let_def)
    have fresh: "GClock n2 \<notin> set ?t"
      using clock unfolding clock_advances_def n2_def by (metis Un_iff less_irrefl set_append)
    have "tmp_files ?w (script_path n2) = None \<or> left_behind (script_path n2) ?t"
      using inv fresh script_path_inj unfolding agent_inv_defs by metis
    then show ?thesis unfolding step using Naming fresh
      by (intro update [of _ "[GClock n1, GClock n2]"]) (auto simp: st' w' left_behind_append)
  next
    case (Writing req s p)
    let ?a = "g_write G ?t p (CodePayload req)"
    have "tmp_files ?w p = None \<or> left_behind p ?t"
      using inv i Writing unfolding agent_inv_defs by blast
    then show ?thesis unfolding step using adv Writing
      by (intro update [of _ "[WriteFile p (CodePayload req) ?a]"])
        (cases ?a; force simp: write_step_def write_file_def Let_def left_behind_append left_behind_write)+
  next
    case (Executing req s p)
    obtain r fs where run: "g_run G ?t (run_args p req) (run_env G ?t req) (run_timeout req) (tmp_files ?w) = (r, fs)" by fastforce
    have "tmp_files ?w p = Some (CodePayload req)" using inv i Executing unfolding agent_inv_defs by blast
    moreover have "fs (script_path n) = tmp_files ?w (script_path n)" for n
      using tidy run unfolding scripts_untouched_def by (metis snd_conv)
    ultimately show ?thesis unfolding step using adv Executing run
      by (intro update [of _ "[RunCmd req (run_args p req) (run_env G ?t req) (run_timeout req) (tmp_files ?w p) r]"])
        (auto simp: execute_step_def Let_def)
  next
    case (Answering resp p)
    then show ?thesis unfolding step using adv by (intro update [of _ "[]"]) auto
  next
    case (Returning reply p)
    then show ?thesis unfolding step using adv
      by (intro update [of _ "case p of None \<Rightarrow> [] | Some q \<Rightarrow> [RemoveScript q (g_remove G ?t q)]"])
        (auto simp: return_step_def Let_def left_behind_append left_behind_remove split: option.splits if_splits)
  next
    case (Closed reply)
    then show ?thesis unfolding step using adv by (intro update [of _ "[]"]) auto
  qed
qed


lemma agent_inv_quiet:
  assumes "agent_inv A" and "i < length (conns A)" and "script_of (conns A ! i) = None" and "script_of st = None"
  shows "agent_inv (A\<lparr>conns := (conns A)[i := st]\<rparr>)"
proof -
  have "agent_inv (A\<lparr>machine := machine A, conns := (conns A)[i := st]\<rparr>)"
    using assms by (intro agent_inv_update [of _ _ _ "[]"]) auto
  then show ?thesis by simp
qed

lemma agent_inv_accepted: "agent_inv A \<Longrightarrow> agent_inv (main_accept None A)"
proof (rule agent_invI)
  assume inv: "agent_inv A"
  let ?n = "length (conns A)"
  have old: "j < ?n \<and> conns (main_accept None A) ! j = conns A ! j"
    if "j < length (conns (main_accept None A))" "conns (main_accept None A) ! j \<noteq> Decoding [] False" for j
    using that by (cases "j = ?n") (auto simp: main_accept_def nth_append)
  have m: "machine (main_accept None A) = machine A" by (simp add: main_accept_def)
  have named: "j < ?n \<and> script_of (conns A ! j) = Some p"
    if "j < length (conns (main_accept None A))" "script_of (conns (main_accept None A) ! j) = Some p" for j p
    using that old [of j] by fastforce
  show "\<exists>n. p = script_path n \<and> GClock n \<in> set (g_trace (machine (main_accept None A)))"
    if "i < length (conns (main_accept None A))" "script_of (conns (main_accept None A) ! i) = Some p" for i p
    using named [OF that] inv unfolding agent_inv_defs m by blast
  show "script_of (conns (main_accept None A) ! j) \<noteq> Some p"
    if "i < length (conns (main_accept None A))" "j < length (conns (main_accept None A))" "i \<noteq> j"
      "script_of (conns (main_accept None A) ! i) = Some p" for i j p
    using named [OF that(1,4)] named [OF that(2), of p] that(3) inv unfolding agent_inv_defs by blast
  show "tmp_files (machine (main_accept None A)) p = Some (CodePayload req)"
    if "i < length (conns (main_accept None A))" "conns (main_accept None A) ! i = Executing req s p" for i req s p
    using old [OF that(1)] that(2) inv unfolding agent_inv_defs m by (metis stage.distinct(5))
  show "tmp_files (machine (main_accept None A)) p = None \<or> left_behind p (g_trace (machine (main_accept None A)))"
    if "i < length (conns (main_accept None A))" "conns (main_accept None A) ! i = Writing req s p" for i req s p
    using old [OF that(1)] that(2) inv unfolding agent_inv_defs m by (metis stage.distinct(3))
  show "list_all ran_own_code (g_trace (machine (main_accept None A)))"
    using inv unfolding agent_inv_defs m by blast
  show "(\<exists>i < length (conns (main_accept None A)). script_of (conns (main_accept None A) ! i) = Some (script_path n)) \<or>
      left_behind (script_path n) (g_trace (machine (main_accept None A)))"
    if "tmp_files (machine (main_accept None A)) (script_path n) \<noteq> None" for n
  proof -
    have "(\<exists>i < ?n. script_of (conns A ! i) = Some (script_path n)) \<or> left_behind (script_path n) (g_trace (machine A))"
      using inv that unfolding agent_inv_defs m by blast
    then show ?thesis unfolding m by (auto simp: main_accept_def nth_append intro: less_SucI)
  qed
qed

lemma agent_inv_accept: "agent_inv A \<Longrightarrow> agent_inv (main_accept err A)"
  by (cases err) (simp_all add: agent_inv_accepted, simp add: main_accept_def)

lemma agent_run_inv:
  assumes "agent_run G w A" and "clock_advances G" and "scripts_untouched G"
    and "g_trace w = []" and "\<And>n. tmp_files w (script_path n) = None"
  shows "agent_inv A"
  using assms(1)
proof induction
  case (start A)
  then show ?case using assms(4,5) by (auto simp: main_start_def agent_inv_defs Let_def split: option.splits)
next
  case (go A i)
  then show ?case using agent_inv_go assms(2,3) by blast
qed (simp_all add: agent_inv_accept agent_inv_quiet)

text \<open>
  C34: The time limit of a run. A positive number of seconds is taken as it is up to 9223372036; beyond
  that the product with a second wraps around and is never the time asked for, and it may be negative,
  so that the run is over before it starts. Any other number stands for fifteen seconds.
\<close>

theorem run_timeout_bounds:
  "(sint (TimeoutSec req) \<le> 0 \<longrightarrow> sint (run_timeout req) = 15 * 10 ^ 9) \<and>
   (0 < sint (TimeoutSec req) \<longrightarrow>
     (sint (run_timeout req) = sint (TimeoutSec req) * 10 ^ 9 \<longleftrightarrow> sint (TimeoutSec req) \<le> 9223372036)) \<and>
   (\<exists>n. 0 < sint (TimeoutSec (req\<lparr>TimeoutSec := n\<rparr>)) \<and> sint (run_timeout (req\<lparr>TimeoutSec := n\<rparr>)) < 0)"
proof -
  let ?n = "TimeoutSec req"
  have prod: "sint (?n * 1000000000) = signed_take_bit 63 (sint ?n * 1000000000)"
    by (simp add: sint_word_ariths)
  have range: "sint (?n * 1000000000) < 2 ^ 63"
    using sint_less [of "?n * 1000000000"] by simp
  have "sint (?n * 1000000000) = sint ?n * 1000000000 \<longleftrightarrow> sint ?n \<le> 9223372036" if "0 < sint ?n"
  proof
    assume "sint (?n * 1000000000) = sint ?n * 1000000000"
    with range show "sint ?n \<le> 9223372036" by simp
  next
    assume "sint ?n \<le> 9223372036"
    with that show "sint (?n * 1000000000) = sint ?n * 1000000000"
      unfolding prod by (simp add: signed_take_bit_int_eq_self)
  qed
  moreover have "sint (9223372037 * 1000000000 :: u64) < 0" "0 < sint (9223372037 :: u64)" by simp_all
  ultimately show ?thesis
    by (auto simp: run_timeout_def defaultTimeout_def intro!: exI [of _ 9223372037])
qed

theorem run_timeout_bounds_witness:
  "sint (run_timeout demo_request) = 5 * 10 ^ 9 \<and> sint (run_timeout zero_request) = 15 * 10 ^ 9"
  using run_timeout_bounds [of demo_request] run_timeout_bounds [of zero_request]
  by (simp add: demo_request_def zero_request_def)


section \<open>A machine for the examples\<close>

fun last_clock :: "gevent list \<Rightarrow> int" where
  "last_clock [] = 0"
| "last_clock (GClock n # t) = max n (last_clock t)"
| "last_clock (e # t) = last_clock t"

definition demo_guest :: guest_env where
  "demo_guest = \<lparr>g_clock = (\<lambda>t. last_clock t + 1), g_write = (\<lambda>t p c. Written), g_remove = (\<lambda>t p. True),
     g_environ = (\<lambda>t. [''PATH=/bin'']), g_range = (\<lambda>t m. m),
     g_run = (\<lambda>t args vars timeout fs. (\<lparr>rr_stdout = ''1'', rr_stderr = [], rr_err = NoError, rr_deadline = False\<rparr>, fs)),
     g_since = (\<lambda>t n. ''3.5''), g_listen = (\<lambda>t p. None)\<rparr>"

definition fresh_guest :: guest where
  "fresh_guest = \<lparr>tmp_files = Map.empty, g_trace = []\<rparr>"

lemma last_clock_less: "GClock n \<in> set t \<Longrightarrow> n \<le> last_clock t"
  by (induction t rule: last_clock.induct) auto

lemma demo_guest_laws: "clock_advances demo_guest" "scripts_untouched demo_guest"
  by (auto simp: clock_advances_def scripts_untouched_def demo_guest_def intro: le_imp_less_Suc dest: last_clock_less)

section \<open>One connection\<close>

text \<open>The reply to a message that is no request.\<close>

lemma error_reply:
  assumes "m \<noteq> []"
  shows "\<exists>pre post. encode_response (error_response m) = pre @ json_escape m @ post \<and> length pre + length post \<le> 100 \<and> CHR 0x00 \<notin> set (pre @ post)"
proof -
  have "dec_int (-1) = ''-1''" by (simp add: dec_int_def dec.simps [of "Suc 0"] digit_char_def char_of_eq_iff)
  then have "encode_response (error_response m) = (CHR ''{'' # quoted ''exit_code'' @ '':-1,'' @ quoted ''stdout'' @ '':'' @ quoted [] @ '','' @
      quoted ''stderr'' @ '':'' @ quoted [] @ '','' @ quoted ''duration_ms'' @ '':0,'' @ quoted ''error_string'' @ [CHR '':'', quote_mark]) @
      json_escape m @ [quote_mark, CHR ''}'', CHR 0x0A]"
    using assms by (simp add: encode_response_def error_response_def zero_response_def quoted_def [of m] del: json_escape.simps)
  then show ?thesis
    by (intro exI conjI, assumption) (simp_all add: quoted_def escape_byte_def html_safe_def ord_def)
qed

lemma handleConnection_text:
  assumes "list_all isSpace ws" and "\<not> isSpace c" and "\<not> begins_value c"
  shows "handleConnection G (ws @ c # rest) closed w = (Closed (encode_response (error_response
    (''Failed to decode JSON execution request: invalid character '' @ quoteChar c @ '' looking for beginning of value''))), w)"
proof -
  have "decode_step (ws @ c # rest) closed = Answering (error_response
      (''Failed to decode JSON execution request: invalid character '' @ quoteChar c @ '' looking for beginning of value'')) None"
    using readValue_text [OF assms] by (simp add: decode_step_def decode_request_def error_text_def)
  then show ?thesis
    by (simp add: handleConnection_def eval_nat_numeral return_step_def)
qed

lemma answer_and_close: "(advance G ^^ 2) (Answering resp p, w) = (Closed (encode_response resp), return_step G p w)"
  by (simp add: numeral_2_eq_2)

lemma advance_three: "(advance G ^^ 3) x = (advance G ^^ 2) (advance G x)"
  by (simp add: numeral_3_eq_3 numeral_2_eq_2)

lemma execute_and_close:
  assumes "g_run G (g_trace v) (run_args p req) (run_env G (g_trace v) req) (run_timeout req) (tmp_files v) = (r, fs)"
  defines "t \<equiv> g_trace v @ [RunCmd req (run_args p req) (run_env G (g_trace v) req) (run_timeout req) (tmp_files v p) r]"
  shows "(advance G ^^ 3) (Executing req n p, v) = (Closed (encode_response (run_response r (g_since G t n))),
    v\<lparr>tmp_files := (if g_remove G t p then fs(p := None) else fs), g_trace := t @ [RemoveScript p (g_remove G t p)]\<rparr>)"
  using assms by (simp add: advance_three execute_step_def answer_and_close return_step_def Let_def)

lemma run_response_fields:
  "ExitCode (run_response r d) = (if rr_err r = NoError then 0 else if rr_deadline r then 124
     else case rr_err r of ExitError code \<Rightarrow> code | _ \<Rightarrow> -1)"
  "Stdout (run_response r d) = rr_stdout r" "Stderr (run_response r d) = rr_stderr r"
  by (simp_all add: run_response_def run_outcome_def split: run_error.split)

lemma write_step_failed:
  assumes "g_write G (g_trace v) p (CodePayload req) \<noteq> Written"
  shows "\<exists>resp w'. (advance G ^^ 3) (write_step G req n p v) = (Closed (encode_response resp), w') \<and>
    ExitCode resp = -1 \<and> ErrorString resp \<noteq> [] \<and>
    g_trace w' = g_trace v @ [WriteFile p (CodePayload req) (g_write G (g_trace v) p (CodePayload req))]"
proof -
  let ?a = "g_write G (g_trace v) p (CodePayload req)"
  let ?resp = "\<lambda>e. error_response (''Failed to write temporary python script: '' @ e)"
  obtain e where "write_step G req n p v = (Answering (?resp e) None, v\<lparr>tmp_files := write_file p (CodePayload req) ?a (tmp_files v),
      g_trace := g_trace v @ [WriteFile p (CodePayload req) ?a]\<rparr>)"
    using assms by (cases ?a) (simp_all add: write_step_def Let_def)
  then have "(advance G ^^ 3) (write_step G req n p v) = (Closed (encode_response (?resp e)),
      v\<lparr>tmp_files := write_file p (CodePayload req) ?a (tmp_files v), g_trace := g_trace v @ [WriteFile p (CodePayload req) ?a]\<rparr>)"
    by (simp add: numeral_3_eq_3 return_step_def)
  then show ?thesis by (intro exI conjI, assumption) (simp_all add: error_response_def)
qed

lemma handleConnection_written:
  fixes G :: guest_env and w :: guest
  assumes "decode_request s closed = Got req"
  defines "n1 \<equiv> g_clock G (g_trace w)"
  defines "n2 \<equiv> g_clock G (g_trace w @ [GClock n1])"
  shows "handleConnection G s closed w =
    (advance G ^^ 3) (write_step G req n1 (script_path n2) (w\<lparr>g_trace := g_trace w @ [GClock n1, GClock n2]\<rparr>))"
proof -
  have "(advance G ^^ 3) (Decoding s closed, w) = write_step G req n1 (script_path n2) (w\<lparr>g_trace := g_trace w @ [GClock n1, GClock n2]\<rparr>)"
    by (simp add: numeral_3_eq_3 decode_step_def assms(1) name_step_def n1_def n2_def Let_def)
  then show ?thesis using funpow_add [of 3 3 "advance G"] by (simp add: handleConnection_def)
qed

text \<open>
  C8: What a connection that nobody disturbs does with a request. The script is written under a name
  made from the clock. If this fails the reply has exit code -1 and nothing is run. Otherwise exactly one
  process runs: Python on a file with the code of the request, with its arguments, with its variables
  after the inherited ones, and with its time limit. The reply carries the output of the process and its
  exit code, 124 when the deadline had passed, or -1 when it did not start. The script is removed
  afterwards, and the connection closed.
\<close>

theorem handleConnection_result:
  assumes "decode_request s closed = Got req"
  shows "\<exists>n1 n2 p t1 a t2 code args. n1 = g_clock G (g_trace w) \<and> n2 = g_clock G (g_trace w @ [GClock n1]) \<and> p = script_path n2 \<and> code = CodePayload req \<and> args = ''python3'' # p # fst (CLIArgs req) \<and>
    t1 = g_trace w @ [GClock n1, GClock n2] \<and> a = g_write G t1 p code \<and> t2 = t1 @ [WriteFile p code a] \<and>
    (a \<noteq> Written \<longrightarrow> (\<exists>resp w'. handleConnection G s closed w = (Closed (encode_response resp), w') \<and>
       ExitCode resp = -1 \<and> ErrorString resp \<noteq> [] \<and> g_trace w' = t2)) \<and>
    (a = Written \<longrightarrow> (\<exists>r fs resp ok.
       g_run G t2 args (run_env G t2 req) (run_timeout req) ((tmp_files w)(p \<mapsto> code)) = (r, fs) \<and>
       handleConnection G s closed w = (Closed (encode_response resp),
         w\<lparr>tmp_files := (if ok then fs(p := None) else fs),
          g_trace := t2 @ [RunCmd req args (run_env G t2 req) (run_timeout req) (Some code) r,
            RemoveScript p ok]\<rparr>) \<and>
       Stdout resp = rr_stdout r \<and> Stderr resp = rr_stderr r \<and>
       ExitCode resp = (if rr_err r = NoError then 0 else if rr_deadline r then 124
         else case rr_err r of ExitError code \<Rightarrow> code | _ \<Rightarrow> -1)))"
proof -
  define n1 where "n1 = g_clock G (g_trace w)"
  define n2 where "n2 = g_clock G (g_trace w @ [GClock n1])"
  define p where "p = script_path n2"
  define t1 where "t1 = g_trace w @ [GClock n1, GClock n2]"
  define code where "code = CodePayload req"
  define args where "args = ''python3'' # p # fst (CLIArgs req)"
  define a where "a = g_write G t1 p code"
  define t2 where "t2 = t1 @ [WriteFile p code a]"
  have run: "handleConnection G s closed w = (advance G ^^ 3) (write_step G req n1 p (w\<lparr>g_trace := t1\<rparr>))"
    unfolding p_def t1_def n2_def n1_def by (rule handleConnection_written [OF assms])
  have failed: "\<exists>resp w'. handleConnection G s closed w = (Closed (encode_response resp), w') \<and>
      ExitCode resp = -1 \<and> ErrorString resp \<noteq> [] \<and> g_trace w' = t2" if "a \<noteq> Written"
    using write_step_failed [of G "w\<lparr>g_trace := t1\<rparr>" p req n1] that by (simp add: run a_def code_def t2_def)
  have ran: "\<exists>r fs resp ok. g_run G t2 args (run_env G t2 req) (run_timeout req) ((tmp_files w)(p \<mapsto> code)) = (r, fs) \<and>
      handleConnection G s closed w = (Closed (encode_response resp),
        w\<lparr>tmp_files := (if ok then fs(p := None) else fs),
          g_trace := t2 @ [RunCmd req args (run_env G t2 req) (run_timeout req) (Some code) r, RemoveScript p ok]\<rparr>) \<and>
      Stdout resp = rr_stdout r \<and> Stderr resp = rr_stderr r \<and>
      ExitCode resp = (if rr_err r = NoError then 0 else if rr_deadline r then 124
        else case rr_err r of ExitError code \<Rightarrow> code | _ \<Rightarrow> -1)" if written: "a = Written"
  proof -
    let ?v = "w\<lparr>tmp_files := (tmp_files w)(p \<mapsto> code), g_trace := t2\<rparr>"
    obtain r fs where r: "g_run G t2 args (run_env G t2 req) (run_timeout req) ((tmp_files w)(p \<mapsto> code)) = (r, fs)" by fastforce
    have "write_step G req n1 p (w\<lparr>g_trace := t1\<rparr>) = (Executing req n1 p, ?v)"
      using written by (simp add: write_step_def Let_def a_def [symmetric] code_def [symmetric] t2_def write_file_def)
    moreover have "g_run G (g_trace ?v) (run_args p req) (run_env G (g_trace ?v) req) (run_timeout req) (tmp_files ?v) = (r, fs)"
      using r by (simp add: run_args_def args_def)
    note execute_and_close [OF this, of n1]
    ultimately obtain d ok where h: "handleConnection G s closed w = (Closed (encode_response (run_response r d)),
        w\<lparr>tmp_files := (if ok then fs(p := None) else fs),
          g_trace := t2 @ [RunCmd req args (run_env G t2 req) (run_timeout req) (Some code) r, RemoveScript p ok]\<rparr>)"
      by (simp add: run run_args_def args_def [symmetric])
    show ?thesis
      by (intro exI conjI, rule r, rule h) (rule run_response_fields)+
  qed
  show ?thesis
    by (intro exI conjI, rule n1_def, rule n2_def, rule p_def, rule code_def, rule args_def, rule t1_def, rule a_def, rule t2_def) (use failed ran in blast)+
qed


theorem handleConnection_result_witness:
  "\<exists>resp w'. handleConnection demo_guest (print_json (request_json demo_request)) False fresh_guest =
     (Closed (encode_response resp), w') \<and> ExitCode resp = 0 \<and> Stdout resp = ''1''"
proof -
  have d: "decode_request (print_json (request_json demo_request)) False = Got demo_request"
    using decode_printed [OF demo_request_wf, of "[]" False] by simp
  have w: "g_write demo_guest t p c = Written" for t p c by (simp add: demo_guest_def)
  obtain r fs resp w' t args vars timeout where
    "g_run demo_guest t args vars timeout fs = (r, fs)"
    "handleConnection demo_guest (print_json (request_json demo_request)) False fresh_guest = (Closed (encode_response resp), w')"
    "Stdout resp = rr_stdout r" "ExitCode resp = (if rr_err r = NoError then 0 else if rr_deadline r then 124
       else case rr_err r of ExitError code \<Rightarrow> code | _ \<Rightarrow> -1)"
    using handleConnection_result [OF d, of demo_guest fresh_guest] unfolding w by (auto simp: demo_guest_def)
  then show ?thesis by (auto simp: demo_guest_def)
qed

section \<open>All connections\<close>


lemma agent_run_fold:
  "agent_run G w A \<Longrightarrow> \<forall>i \<in> set is. i < length (conns A) \<Longrightarrow> agent_run G w (fold (goroutine_step G) is A)"
proof (induction "is" arbitrary: A)
  case (Cons i "is")
  have "length (conns (goroutine_step G i A)) = length (conns A)"
    by (simp add: goroutine_step_def split: prod.split)
  with Cons show ?case by (simp add: agent_run.go)
qed simp

definition started_guest :: guest where
  "started_guest = fresh_guest\<lparr>g_trace := [RemoveSocket socketPath, Listen socketPath None, ChmodSocket socketPath]\<rparr>"

definition demo_agent :: agent where
  "demo_agent = fold (goroutine_step demo_guest) [0, 1, 1, 0, 0, 1, 0, 1, 1, 0, 0, 1]
     \<lparr>machine = started_guest, conns = [Decoding (print_json (request_json demo_request)) False,
       Decoding (print_json (request_json (demo_request\<lparr>CodePayload := ''print(2)''\<rparr>))) False]\<rparr>"

lemma demo_agent_run: "agent_run demo_guest fresh_guest demo_agent"
proof -
  let ?A = "\<lparr>machine = started_guest, conns = []\<rparr>"
  have "agent_run demo_guest fresh_guest (main_accept None (main_accept None ?A))"
    by (intro agent_run.accept agent_run.start) (simp add: main_start_def Let_def demo_guest_def started_guest_def fresh_guest_def)
  from agent_run.receive [OF this, where i = 0]
  have "agent_run demo_guest fresh_guest \<lparr>machine = started_guest, conns = [Decoding a False, Decoding [] False]\<rparr>" for a
    by (simp add: main_accept_def)
  from agent_run.receive [OF this, where i = 1]
  have "agent_run demo_guest fresh_guest \<lparr>machine = started_guest, conns = [Decoding a False, Decoding b False]\<rparr>" for a b
    by simp
  then show ?thesis unfolding demo_agent_def by (intro agent_run_fold) simp_all
qed

fun run_of :: "gevent \<Rightarrow> ExecutionRequest option" where
  "run_of (RunCmd req args vars timeout script r) = Some req"
| "run_of _ = None"

lemma run_of_image:
  "Some req \<in> run_of ` set t \<Longrightarrow> \<exists>args vars timeout script r. RunCmd req args vars timeout script r \<in> set t"
proof -
  have "run_of e = Some req \<Longrightarrow> \<exists>args vars timeout script r. e = RunCmd req args vars timeout script r" for e
    by (cases e) simp_all
  moreover assume "Some req \<in> run_of ` set t"
  ultimately show ?thesis by (metis image_iff)
qed

lemma demo_agent_facts:
  "\<forall>st \<in> set (conns demo_agent). \<exists>reply. st = Closed reply"
  "\<not> left_behind p (g_trace (machine demo_agent))"
  "Some demo_request \<in> run_of ` set (g_trace (machine demo_agent))"
  "Some (demo_request\<lparr>CodePayload := ''print(2)''\<rparr>) \<in> run_of ` set (g_trace (machine demo_agent))"
proof -
  have wf: "wf_request (demo_request\<lparr>CodePayload := ''print(2)''\<rparr>)" "snd (CLIArgs (demo_request\<lparr>CodePayload := ''print(2)''\<rparr>)) = []"
    by (simp_all add: demo_request_def wf_request_def um_wf_def rune_tail_ascii ord_def)
  note decoded = decode_printed [OF demo_request_wf, of "[]" False, simplified append_Nil2]
    decode_printed [OF wf, of "[]" False, simplified append_Nil2]
  note eval = demo_agent_def goroutine_step_def decode_step_def decoded name_step_def write_step_def execute_step_def return_step_def
    demo_guest_def Let_def started_guest_def fresh_guest_def left_behind_def
  show "\<forall>st \<in> set (conns demo_agent). \<exists>reply. st = Closed reply" by (simp add: eval del: print_json.simps)
  show "\<not> left_behind p (g_trace (machine demo_agent))" by (simp add: eval del: print_json.simps)
  show "Some demo_request \<in> run_of ` set (g_trace (machine demo_agent))"
    by (simp add: eval del: print_json.simps)
  show "Some (demo_request\<lparr>CodePayload := ''print(2)''\<rparr>) \<in> run_of ` set (g_trace (machine demo_agent))"
    by (simp add: eval del: print_json.simps)
qed


end
