(* ===== verification/Spec2Isabelle.thy ===== *)
theory Spec2Isabelle
  imports Shipped_Policy Ring_Buffer_Reader Aegis_CLI Enforcement Guest_Agent
begin

text \<open>
  A verification development of aegis-sandbox, a host-side runtime that boots Firecracker microVMs
  for untrusted code, confines them with cgroups and BPF programs, and reports security events.

  \<^bold>\<open>The program.\<close> The command line program (\<open>cmd/aegis-cli/main.cpp\<close>) builds a sandbox manager
  (\<open>src/runtime/sandbox_manager.cpp\<close>) on a BPF loader (\<open>src/ebpf/ebpf_loader.cpp\<close>) and a policy
  engine (\<open>src/policy/policy_engine.cpp\<close>). The manager owns a cgroup manager
  (\<open>src/runtime/cgroup_manager.cpp\<close>). To create a sandbox it makes a cgroup and a tap device,
  forks Firecracker, configures it over a UNIX socket, marks the cgroup as monitored in a BPF map
  and copies the block list of the policy into another. In the kernel three BPF programs
  (\<open>ebpf/sys_filter.bpf.c\<close>, \<open>ebpf/net_filter.bpf.c\<close>, \<open>ebpf/process_monitor.bpf.c\<close>) read
  the maps, kill or refuse, and write records to ring buffers, which the ring buffer reader
  (\<open>src/ebpf/ring_buffer_reader.cpp\<close>) decodes for a callback. Code is run by sending it over a
  socket to the agent inside the microVM (\<open>guest/cmd/agent/main.go\<close>), which starts Python.

  \<^bold>\<open>The theories.\<close>
  \<^item> \<open>Aegis_Prelude\<close>: words, the outcome-and-state monad with \<open>wp\<close>, the RAII lock, the parts of
    the C and C++ libraries that are used on strings and paths, and the locale \<open>unordered_map\<close>.
  \<^item> \<open>Aegis_Core\<close>: \<open>include/aegis/aegis.hpp\<close>.
  \<^item> \<open>System_Interface\<close>: everything outside the repository. The record \<open>env\<close> answers each system
    call, libbpf call and iteration over an unordered container, from the history of all calls; each
    call appends an event to a trace. Methods are actions on a pair of object and trace. The
    locales \<open>mutex_class\<close> and \<open>class_invariant\<close> hold what all classes share; both are
    interpreted for every class that has them.
  \<^item> \<open>Std_Regex\<close>: the fragment of \<open>std::regex\<close> the policy reader uses.
  \<^item> \<open>Policy_Engine\<close>, \<open>Shipped_Policy\<close>: rules, syscall table, YAML reader, registry, both
    evaluators, and the file \<open>policy/strict_python.yaml\<close> read by them.
  \<^item> \<open>Cgroup_Manager\<close>, \<open>EBPF_Loader\<close>, \<open>Ring_Buffer_Reader\<close>: the classes of the same names,
    one definition per method. The polling thread is a step relation with its owner.
  \<^item> \<open>Kernel_Probes\<close>: each BPF program as a function of helper results and map contents, and the
    maps each source declares. \<open>BPF_Objects\<close>: the setters of the loader on the object of one source.
  \<^item> \<open>Sandbox_Manager\<close>: the manager over the models of its parts, a rule for every way each method
    can end, and the invariant. \<open>Sandbox_Properties\<close>: its properties and concrete runs.
  \<^item> \<open>Effects\<close>, \<open>Sandbox_Effects\<close>: which calls an action can make, by structural rules.
  \<^item> \<open>Aegis_CLI\<close>: argument parsing, the commands, and the lifetime of the objects of \<open>main\<close>.
  \<^item> \<open>Enforcement\<close>: what a creation leaves in the BPF maps, for each source of the loaded object.
  \<^item> \<open>Go_JSON\<close>: the part of the Go package \<open>encoding/json\<close> that the agent uses, byte by byte: the
    scanner with its stack and its messages, strings with escapes and UTF-8, and the encoder.
  \<^item> \<open>Guest_Request\<close>, \<open>Guest_Agent\<close>: the request struct and its decoding; the response, each part of
    \<open>handleConnection\<close>, and the agent as a relation in which the steps of all connections interleave.
  \<^item> This theory connects the creation of a sandbox with the verdict of the kernel program, and the
    manager with the agent.

  \<^bold>\<open>What is shown.\<close> The evaluators decide by block list, allow list and default, in this order, and
  the reader finds exactly the names of flow lists. Cgroup creation writes the exact limits or
  undoes itself, and refines a table of names. Over all sequences of calls, descriptors and BPF links
  are accounted for, and the destructors give back what is held. A creation that succeeds registers
  a running sandbox; one that returns an error leaves the manager unchanged. The errors after the
  process is up deadlock instead. Records survive the way from kernel to callback, except those
  of the network filter. The ring buffer is not polled after its release and the join ends. After
  a creation with the object of the system call filter the kernel kills exactly the calls of the block
  list that fit its map; with another object it kills nothing, as only the object loaded last is told.
  The agent decodes what the documented request prints, whatever the pieces it arrives in, accepts only
  well-formed requests, runs each request once with its own code in every interleaving, and removes the
  scripts. What the manager sends is no such request, and its refusal is reported as a success.

  \<^bold>\<open>Bounds.\<close> All definitions are total. The only loop with a bound is the wait for the API socket,
  whose fifty polls are those of the source. The regular expression matcher, the argument parser and the
  JSON scanner recurse over what is left of their input; the scanner holds its nesting on a stack, with the
  limit of 10000 levels of the Go library. A connection that is not disturbed is closed after the six
  steps of \<open>handleConnection\<close>, or waits for input. The polling thread and the agent are
  relations without a bound.

  \<^bold>\<open>What is assumed.\<close> Nothing of \<open>env\<close> in general. Single properties assume that iteration visits
  every element once (\<open>iterates\<close>), that an object has the maps its source declares, with separate
  descriptors, where an array takes the keys below its size and a hash map all (\<open>object_works\<close>), that
  a byte order conversion swaps bytes, that the socket of the manager leads to the agent
  (\<open>guest_behind\<close>), or, for scripts of different connections, that no two readings of the clock agree
  and that processes leave scripts alone (\<open>clock_advances\<close>, \<open>scripts_untouched\<close>); each has
  an example where this holds. Method calls of one
  object do not overlap; where the code relies on a mutex for this, the mutex is in the model, and
  taking it twice is a deadlock. Allocation failures are left out, and so are log lines on the
  standard error stream of the library classes and of the agent. Integers of Go have 64 bits. The
  duration in a response is the text of a number that the machine of the guest gives.

  \<^bold>\<open>Not modelled.\<close> The transport between host and guest: no source sets up a device for it, so the
  agent is the other side of a socket here. The protocol definition under \<open>api\<close> is not compiled by
  anything. The tests, scripts and build files are not part of the runtime. Several files are
  empty: the guest agent client, the seccomp filter, the network utilities, the logger, the daemon
  and \<open>vmlinux.h\<close>. \<open>SandboxManager::handle_ebpf_security_event\<close> has no body.
\<close>

section \<open>From the policy to the kernel\<close>


text \<open>The manager of the examples, with an object loaded and the built-in policies.\<close>

definition demo_loaded :: "nat \<Rightarrow> SandboxManager" where
  "demo_loaded ob = init_SandboxManager (Some ((loaded_el ''f.o'')\<lparr>m_bpf_obj := Some ob\<rparr>)) (Some new_PolicyEngine) ''/var/run/aegis''"

lemma demo_loaded_facts:
  "parts_ok cgroup_root (demo_loaded ob)" "m_ebpf_loader (demo_loaded ob) = Some ((loaded_el ''f.o'')\<lparr>m_bpf_obj := Some ob\<rparr>)"
  "m_bpf_obj ((loaded_el ''f.o'')\<lparr>m_bpf_obj := Some ob\<rparr>) = Some ob" "m_policy_engine (demo_loaded ob) = Some new_PolicyEngine"
  "policies new_PolicyEngine (security_policy_name demo_config) = Some strict_python_policy"
  "\<exists>sm' t'. create_sandbox good_env demo_config (demo_loaded ob, []) = (Ret Success, (sm', t'))"
proof -
  show ok: "parts_ok cgroup_root (demo_loaded ob)"
    by (simp add: demo_loaded_def init_SandboxManager_def parts_ok_def init_CgroupManager_def cg_ok_def um.wf_empty loaded_el_def
        new_engine_free)
  show "m_ebpf_loader (demo_loaded ob) = Some ((loaded_el ''f.o'')\<lparr>m_bpf_obj := Some ob\<rparr>)"
    "m_policy_engine (demo_loaded ob) = Some new_PolicyEngine" by (simp_all add: demo_loaded_def init_SandboxManager_def)
  show "m_bpf_obj ((loaded_el ''f.o'')\<lparr>m_bpf_obj := Some ob\<rparr>) = Some ob" by simp
  show "policies new_PolicyEngine (security_policy_name demo_config) = Some strict_python_policy"
    by (simp add: new_PolicyEngine_eq demo_config_def new_SandboxConfig_def)
  show "\<exists>sm' t'. create_sandbox good_env demo_config (demo_loaded ob, []) = (Ret Success, (sm', t'))"
    by (rule good_sandbox_run [OF _ ok])
      (simp_all add: demo_loaded_def init_SandboxManager_def demo_config_def cgs_def init_CgroupManager_def)
qed




section \<open>From the host to the guest agent\<close>

text \<open>
  The connection between the manager and the agent: the socket at this path leads to an agent on a
  machine in state \<open>w\<close>, all bytes are delivered, and a reply, once the agent gives one, is what
  the manager reads. The manager keeps its side open while it waits.
\<close>

definition guest_behind :: "env \<Rightarrow> guest_env \<Rightarrow> guest \<Rightarrow> path \<Rightarrow> bool" where
  "guest_behind E G w p \<longleftrightarrow>
     (\<forall>t. e_socket E t \<ge> 0) \<and> (\<forall>t fd. e_connect E t fd p \<ge> 0) \<and> (\<forall>t fd code. e_write E t fd code = int (length code)) \<and>
     (\<forall>t fd r code m reply w'. handleConnection G code False w = (Closed reply, w') \<longrightarrow>
        e_read E (t @ [Connect fd p r, WriteFd fd code (int (length code))]) fd m = Some reply)"

lemma error_reply_whole:
  assumes "m \<noteq> []" and "length m \<le> 200"
  shows "c_str (take 8191 (encode_response (error_response m))) = encode_response (error_response m)"
proof -
  obtain pre post where r: "encode_response (error_response m) = pre @ json_escape m @ post" and l: "length pre + length post \<le> 100"
    and z: "CHR 0x00 \<notin> set (pre @ post)" using error_reply [OF assms(1)] by blast
  have "CHR 0x00 \<notin> set (json_escape m)" using quote_chars [of "CHR 0x00" m] by (auto simp: ord_def)
  with z have "CHR 0x00 \<notin> set (encode_response (error_response m))" by (simp add: r)
  moreover have "length (encode_response (error_response m)) \<le> 8191"
    using l length_quote [of m] assms(2) by (simp add: r)
  ultimately show ?thesis by (simp add: c_str_def takeWhile_neq)
qed

text \<open>
  C10: The manager sends code as it is, while the agent expects a JSON request. So code whose first byte
  cannot begin a JSON value, which is what Python code mostly looks like, is never run: the agent answers
  that it could not decode the request and touches nothing. The manager reports this as a success, with
  exit code 0, nothing on standard error, and the refusal as the standard output.
\<close>

theorem raw_code_is_refused_as_success:
  assumes "\<not> sm_mutex sm" and "map_of (m_sandboxes sm) k = Some inst" and "is_active inst"
    and "guest_behind E G w (strncpy 107 (guest_vsock_path inst))"
    and "list_all isSpace ws" and "\<not> isSpace c" and "\<not> begins_value c"
  shows "\<exists>res u reply. execute_code E k (ws @ c # rest) (sm, t) = (Ret res, (sm, t @ u)) \<and>
    reply = encode_response (error_response
      (''Failed to decode JSON execution request: invalid character '' @ quoteChar c @ '' looking for beginning of value'')) \<and>
    handleConnection G (ws @ c # rest) False w = (Closed reply, w) \<and>
    exit_code res = 0 \<and> stderr_output res = [] \<and> stdout_output res = reply"
proof -
  define m where "m = ''Failed to decode JSON execution request: invalid character '' @ quoteChar c @ '' looking for beginning of value''"
  let ?code = "ws @ c # rest" and ?reply = "encode_response (error_response m)" and ?p = "strncpy 107 (guest_vsock_path inst)"
  have reply: "handleConnection G ?code False w = (Closed ?reply, w)"
    unfolding m_def by (rule handleConnection_text [OF assms(5-7)])
  have whole: "c_str (take 8191 ?reply) = ?reply"
    using length_quoteChar [of c] by (intro error_reply_whole) (simp_all add: m_def)
  have ne: "?reply \<noteq> []" by (simp add: encode_response_def)
  have sock: "e_socket E t \<ge> 0" and conn: "e_connect E t fd ?p \<ge> 0" and wr: "e_write E t fd s = int (length s)"
    and read: "e_read E (t @ [Connect fd ?p r, WriteFd fd ?code (int (length ?code))]) fd l = Some ?reply" for t fd r s l
    using assms(4) reply unfolding guest_behind_def by blast+
  have "e_read E (t @ [a, b, Connect fd ?p r, WriteFd fd ?code (int (length ?code))]) fd l = Some ?reply" for a b fd r l
    using read [of "t @ [a, b]" fd r l] by simp
  then have "\<exists>res u. execute_code E k ?code (sm, t) = (Ret res, (sm, t @ u)) \<and>
      exit_code res = 0 \<and> stderr_output res = [] \<and> stdout_output res = ?reply"
    using assms(1-3) sock conn wr whole ne
    by (simp add: execute_code_def run_defs Let_def new_ExecutionResult_def)
  with reply show ?thesis unfolding m_def by blast
qed

definition linked_env :: env where
  "linked_env = good_env\<lparr>e_read := (\<lambda>t fd n. case last t of
     WriteFd fd' code k \<Rightarrow> (case handleConnection demo_guest code False fresh_guest of (Closed reply, w) \<Rightarrow> Some reply | _ \<Rightarrow> None)
   | _ \<Rightarrow> None)\<rparr>"

lemma linked_env_behind: "guest_behind linked_env demo_guest fresh_guest p"
  by (auto simp: guest_behind_def linked_env_def good_env_def)

theorem raw_code_is_refused_as_success_witness:
  "\<exists>sm t res u. execute_code linked_env ''sbx-1'' ''print(1)'' (sm, t) = (Ret res, (sm, t @ u)) \<and> exit_code res = 0 \<and>
     stderr_output res = [] \<and> stdout_output res \<noteq> [] \<and>
     snd (handleConnection demo_guest ''print(1)'' False fresh_guest) = fresh_guest"
proof -
  obtain sm t inst where inv: "sm_inv cgroup_root ''/var/run/aegis'' (sm, t)"
    and inst: "map_of (m_sandboxes sm) ''sbx-1'' = Some inst" by (rule demo_inv)
  then have free: "\<not> sm_mutex sm" and active: "is_active inst" by (auto simp: sm_inv_def sm_ok_def inst_ok_def)
  have "list_all isSpace []" "\<not> isSpace (CHR ''p'')" "\<not> begins_value (CHR ''p'')"
    by (simp_all add: isSpace_def begins_value_def is_digit_def)
  from raw_code_is_refused_as_success [OF free inst active linked_env_behind this, of "''rint(1)''" t]
  obtain res u reply where "execute_code linked_env ''sbx-1'' ''print(1)'' (sm, t) = (Ret res, (sm, t @ u))" "exit_code res = 0"
    "stderr_output res = []" "stdout_output res = reply" "reply = encode_response (error_response
      (''Failed to decode JSON execution request: invalid character '' @ quoteChar (CHR ''p'') @ '' looking for beginning of value''))"
    "handleConnection demo_guest ''print(1)'' False fresh_guest = (Closed reply, fresh_guest)"
    unfolding append_Nil by blast
  moreover from this have "reply \<noteq> []" by (simp add: encode_response_def)
  ultimately have "execute_code linked_env ''sbx-1'' ''print(1)'' (sm, t) = (Ret res, (sm, t @ u)) \<and> exit_code res = 0 \<and>
     stderr_output res = [] \<and> stdout_output res \<noteq> [] \<and> snd (handleConnection demo_guest ''print(1)'' False fresh_guest) = fresh_guest"
    by simp
  then show ?thesis by blast
qed

end
